(* ===== verification/Go_Base.thy ===== *)
theory Go_Base
  imports Main "HOL-Library.Word" "HOL-Library.Sublist" "HOL-Library.Char_ord"
    "HOL-Library.List_Lexorder" "HOL-Library.Product_Lexorder" "HOL-Library.Monad_Syntax"
begin

text \<open>
  The prelude of the development: the named collections of facts the component proofs use,
  Go's sized integers, byte characters, nil-safe reads of pointers and maps, and decimal
  formatting and parsing.

  A Go \<^verbatim>\<open>string\<close> is a byte sequence; it is modelled as \<^typ>\<open>string\<close>, whose characters are
  bytes.  A Go pointer is an \<^typ>\<open>'a option\<close>, a nil slice and an empty slice are both the
  empty list, a Go map is a map of HOL.  \<^verbatim>\<open>int64\<close> and \<^verbatim>\<open>int32\<close> are words of that width,
  compared as signed numbers, so that \<^verbatim>\<open>+\<close> wraps as in Go.
\<close>

section \<open>Collections of facts\<close>

named_theorems go_simps \<open>executable facts on Go strings and integers\<close>
named_theorems sint_simps \<open>signed comparison of words as comparison of integers\<close>
named_theorems world_frame \<open>what an operation leaves unchanged in the world\<close>

section \<open>Sized integers\<close>

type_synonym int64 = "64 word"
type_synonym int32 = "32 word"

lemmas [sint_simps] = word_sless_alt word_sle_eq

lemma sint64_bounds: "- 9223372036854775808 \<le> sint (x :: int64)" "sint x < 9223372036854775808"
  using sint_range_size [of x] by (simp_all add: word_size)

lemma sint32_bounds: "- 2147483648 \<le> sint (x :: int32)" "sint x < 2147483648"
  using sint_range_size [of x] by (simp_all add: word_size)

lemma sint_of_int64:
  "- 9223372036854775808 \<le> k \<Longrightarrow> k < 9223372036854775808 \<Longrightarrow> sint (word_of_int k :: int64) = k"
  by (simp add: sint_sbintrunc' signed_take_bit_int_eq_self)

lemma sint_of_int32:
  "- 2147483648 \<le> k \<Longrightarrow> k < 2147483648 \<Longrightarrow> sint (word_of_int k :: int32) = k"
  by (simp add: sint_sbintrunc' signed_take_bit_int_eq_self)

lemma sint_add64_exact:
  assumes "- 9223372036854775808 \<le> sint a + sint b" and "sint a + sint b < 9223372036854775808"
  shows "sint (a + b :: int64) = sint a + sint b"
  using assms by (simp add: sint_word_ariths signed_take_bit_int_eq_self)

lemma sint_sub64_exact:
  assumes "- 9223372036854775808 \<le> sint a - sint b" and "sint a - sint b < 9223372036854775808"
  shows "sint (a - b :: int64) = sint a - sint b"
  using assms by (simp add: sint_word_ariths signed_take_bit_int_eq_self)

lemma sint_eq_iff64: "(a :: int64) = b \<longleftrightarrow> sint a = sint b"
  by (auto intro: signed_word_eqI)

section \<open>Nil-safe reads\<close>

text \<open>
  The generated getters of a protobuf message return the zero value on a nil receiver:
  \<open>nget z f p\<close> is \<^verbatim>\<open>p.GetF()\<close> with zero value \<open>z\<close>.  A read of a missing key of a
  \<^verbatim>\<open>map[string]string\<close> gives the empty string.
\<close>

definition nget :: "'b \<Rightarrow> ('a \<Rightarrow> 'b) \<Rightarrow> 'a option \<Rightarrow> 'b" where
  "nget z f p = (case p of None \<Rightarrow> z | Some m \<Rightarrow> f m)"

lemma nget_simps [simp]: "nget z f None = z" "nget z f (Some m) = f m"
  by (simp_all add: nget_def)

type_synonym env_map = "string \<rightharpoonup> string"

definition env_get :: "env_map \<Rightarrow> string \<Rightarrow> string" where
  "env_get env k = (case env k of None \<Rightarrow> [] | Some v \<Rightarrow> v)"

lemma env_get_simps [simp]:
  "env k = None \<Longrightarrow> env_get env k = []" "env k = Some v \<Longrightarrow> env_get env k = v"
  by (simp_all add: env_get_def)

section \<open>Bytes\<close>

definition ord :: "char \<Rightarrow> nat" where
  "ord c = of_char c"

definition chr :: "nat \<Rightarrow> char" where
  "chr n = char_of n"

lemma ord_chr: "n < 256 \<Longrightarrow> ord (chr n) = n"
  by (simp add: ord_def chr_def)

lemma chr_ord [simp]: "chr (ord c) = c"
  by (simp add: ord_def chr_def)

lemma ord_less_256: "ord c < 256"
  by (simp add: ord_def)

lemma chr_inj: "m < 256 \<Longrightarrow> n < 256 \<Longrightarrow> chr m = chr n \<longleftrightarrow> m = n"
  by (metis ord_chr)

text \<open>The two characters that cannot be written in a HOL string literal as they are.\<close>

abbreviation backslash :: char where "backslash \<equiv> CHR 0x5C"
abbreviation newline :: char where "newline \<equiv> CHR 0x0A"
abbreviation nul :: char where "nul \<equiv> CHR 0x00"

section \<open>Decimal numbers\<close>

definition digit_char :: "nat \<Rightarrow> char" where
  "digit_char d = chr (48 + d)"

definition is_digit :: "char \<Rightarrow> bool" where
  "is_digit c \<longleftrightarrow> 48 \<le> ord c \<and> ord c \<le> 57"

definition digit_val :: "char \<Rightarrow> nat" where
  "digit_val c = ord c - 48"

text \<open>\<^verbatim>\<open>%d\<close> and \<^verbatim>\<open>fmt.Sprint\<close> of an integer.\<close>

fun show_nat :: "nat \<Rightarrow> string" where
  "show_nat n = (if n < 10 then [digit_char n] else show_nat (n div 10) @ [digit_char (n mod 10)])"

declare show_nat.simps [simp del]

definition show_int :: "int \<Rightarrow> string" where
  "show_int i = (if i < 0 then CHR ''-'' # show_nat (nat (- i)) else show_nat (nat i))"

definition read_digits :: "string \<Rightarrow> nat" where
  "read_digits s = foldl (\<lambda>n c. 10 * n + digit_val c) 0 s"

lemma digit_char_is_digit: "d < 10 \<Longrightarrow> is_digit (digit_char d)"
  by (simp add: is_digit_def digit_char_def ord_chr)

lemma digit_val_char: "d < 10 \<Longrightarrow> digit_val (digit_char d) = d"
  by (simp add: digit_val_def digit_char_def ord_chr)

lemma show_nat_digits: "\<forall>c \<in> set (show_nat n). is_digit c"
proof (induction n rule: show_nat.induct)
  case (1 n)
  then show ?case
    by (subst show_nat.simps) (auto simp: digit_char_is_digit)
qed

lemma show_nat_nonempty [simp]: "show_nat n \<noteq> []"
  by (subst show_nat.simps) simp

lemma read_show_nat [simp]: "read_digits (show_nat n) = n"
proof (induction n rule: show_nat.induct)
  case (1 n)
  show ?case
  proof (cases "n < 10")
    case True
    then show ?thesis
      by (subst show_nat.simps) (simp add: read_digits_def digit_val_char)
  next
    case False
    with 1 have "read_digits (show_nat (n div 10)) = n div 10" by simp
    with False show ?thesis
      by (subst show_nat.simps) (simp add: read_digits_def digit_val_char)
  qed
qed

lemma show_nat_inj [simp]: "show_nat m = show_nat n \<longleftrightarrow> m = n"
  by (metis read_show_nat)

text \<open>What may occur in a formatted number: digits and a minus sign.\<close>

definition num_char :: "char \<Rightarrow> bool" where
  "num_char c \<longleftrightarrow> is_digit c \<or> c = CHR ''-''"

lemma show_int_chars: "\<forall>c \<in> set (show_int i). num_char c"
  using show_nat_digits by (auto simp: show_int_def num_char_def)

lemma minus_not_digit: "\<not> is_digit (CHR ''-'')"
  by (simp add: is_digit_def ord_def)

lemma show_nat_no_minus: "show_nat n \<noteq> CHR ''-'' # s"
proof
  assume "show_nat n = CHR ''-'' # s"
  then have "CHR ''-'' \<in> set (show_nat n)" by simp
  then show False using show_nat_digits [of n] minus_not_digit by blast
qed

lemma show_int_inj [simp]: "show_int i = show_int j \<longleftrightarrow> i = j"
proof
  assume eq: "show_int i = show_int j"
  show "i = j"
  proof (cases "i < 0"; cases "j < 0")
    assume "\<not> i < 0" "\<not> j < 0"
    then show ?thesis using eq by (simp add: show_int_def)
  next
    assume "i < 0" "j < 0"
    then show ?thesis using eq by (simp add: show_int_def)
  next
    assume "i < 0" "\<not> j < 0"
    then have "show_nat (nat j) = CHR ''-'' # show_nat (nat (- i))"
      using eq by (simp add: show_int_def)
    then show ?thesis using show_nat_no_minus by blast
  next
    assume "\<not> i < 0" "j < 0"
    then have "show_nat (nat i) = CHR ''-'' # show_nat (nat (- j))"
      using eq by (simp add: show_int_def)
    then show ?thesis using show_nat_no_minus by blast
  qed
qed simp

text \<open>
  \<^verbatim>\<open>strconv.ParseInt(s, 10, 64)\<close>: the value and whether the error is nil.  A syntax error
  gives 0, an out-of-range number the nearest bound, both with an error.
\<close>

definition split_sign :: "string \<Rightarrow> bool \<times> string" where
  "split_sign s = (case s of [] \<Rightarrow> (False, [])
     | c # cs \<Rightarrow> if c = CHR ''+'' then (False, cs) else if c = CHR ''-'' then (True, cs) else (False, s))"

definition parse_int64 :: "string \<Rightarrow> int64 \<times> bool" where
  "parse_int64 s =
     (case split_sign s of (neg, ds) \<Rightarrow>
        if ds = [] \<or> \<not> list_all is_digit ds then (0, False)
        else let n = int (read_digits ds) in
          if neg then (if 9223372036854775808 < n then (word_of_int (- 9223372036854775808), False)
                       else (word_of_int (- n), True))
          else (if 9223372036854775808 \<le> n then (word_of_int 9223372036854775807, False)
                else (word_of_int n, True)))"

lemma parse_int64_show:
  assumes "- 9223372036854775808 \<le> i" and "i < 9223372036854775808"
  shows "parse_int64 (show_int i) = (word_of_int i, True)"
proof -
  have all: "list_all is_digit (show_nat n)" for n
    using show_nat_digits by (simp add: list_all_iff)
  have sign: "split_sign (show_nat n) = (False, show_nat n)" for n
  proof -
    obtain c cs where c: "show_nat n = c # cs" by (cases "show_nat n") auto
    then have "is_digit c" using show_nat_digits [of n] by simp
    then have "c \<noteq> CHR ''+''" "c \<noteq> CHR ''-''" by (auto simp: is_digit_def ord_def)
    with c show ?thesis by (simp add: split_sign_def)
  qed
  have minus: "split_sign (CHR ''-'' # s) = (True, s)" for s
    by (simp add: split_sign_def)
  show ?thesis
  proof (cases "i < 0")
    case True
    then show ?thesis
      using assms all [of "nat (- i)"] by (simp add: parse_int64_def show_int_def minus)
  next
    case False
    then show ?thesis
      using assms all [of "nat i"] by (simp add: parse_int64_def show_int_def sign)
  qed
qed

text \<open>\<^verbatim>\<open>strconv.ParseBool\<close>; \<^const>\<open>None\<close> is the error.\<close>

definition parse_bool :: "string \<Rightarrow> bool option" where
  "parse_bool s =
     (if s \<in> {''1'', ''t'', ''T'', ''true'', ''TRUE'', ''True''} then Some True
      else if s \<in> {''0'', ''f'', ''F'', ''false'', ''FALSE'', ''False''} then Some False
      else None)"

section \<open>Lists\<close>

text \<open>
  Go's \<^verbatim>\<open>s[lo:]\<close>: a panic (\<^const>\<open>None\<close>) when \<open>lo\<close> is past the end.
\<close>

definition slice_from :: "'a list \<Rightarrow> nat \<Rightarrow> 'a list option" where
  "slice_from s lo = (if lo \<le> length s then Some (drop lo s) else None)"

text \<open>Go's \<^verbatim>\<open>xs[i]\<close> for a signed index: a panic (\<^const>\<open>None\<close>) out of range.\<close>

definition go_index :: "'a list \<Rightarrow> int \<Rightarrow> 'a option" where
  "go_index xs i = (if 0 \<le> i \<and> i < int (length xs) then Some (xs ! nat i) else None)"

lemma go_index_SomeD: "go_index xs i = Some x \<Longrightarrow> 0 \<le> i \<and> i < int (length xs) \<and> x = xs ! nat i"
  by (simp add: go_index_def split: if_splits)

text \<open>Keep the first occurrence of each element, by a key, in the order of the list.\<close>

fun dedupe_by :: "('a \<Rightarrow> 'k) \<Rightarrow> 'k set \<Rightarrow> 'a list \<Rightarrow> 'a list" where
  "dedupe_by k seen [] = []"
| "dedupe_by k seen (x # xs) =
     (if k x \<in> seen then dedupe_by k seen xs else x # dedupe_by k (insert (k x) seen) xs)"

lemma dedupe_by_set_key: "k ` set (dedupe_by k seen xs) = k ` set xs - seen"
  by (induction xs arbitrary: seen) auto

lemma dedupe_by_subset: "set (dedupe_by k seen xs) \<subseteq> set xs"
proof (induction xs arbitrary: seen)
  case (Cons x xs)
  show ?case
    using Cons.IH [of seen] Cons.IH [of "insert (k x) seen"] by auto
qed simp

lemma dedupe_by_distinct: "distinct (map k (dedupe_by k seen xs))"
proof (induction xs arbitrary: seen)
  case (Cons x xs)
  have "k x \<notin> k ` set (dedupe_by k (insert (k x) seen) xs)"
    by (simp add: dedupe_by_set_key)
  then show ?case using Cons.IH by auto
qed simp

lemma dedupe_by_id: "distinct (map k xs) \<Longrightarrow> k ` set xs \<inter> seen = {} \<Longrightarrow> dedupe_by k seen xs = xs"
  by (induction xs arbitrary: seen) auto

end
