(* ===== verification/Go_Time.thy ===== *)
theory Go_Time
  imports Go_Base
begin

text \<open>
  The part of the Go \<^verbatim>\<open>time\<close> package the reporter uses: an instant as whole seconds since the Unix
  epoch and nanoseconds within the second, the proleptic Gregorian calendar, \<^verbatim>\<open>time.Parse\<close> with
  the layout \<^verbatim>\<open>time.RFC3339Nano\<close>, \<^verbatim>\<open>Time.UnixMilli\<close> and \<^verbatim>\<open>Time.IsZero\<close>.
\<close>

record gtime =
  t_sec :: int
  t_nsec :: nat

definition unix_time :: "int \<Rightarrow> nat \<Rightarrow> gtime" where
  "unix_time s n = \<lparr>t_sec = s, t_nsec = n\<rparr>"

definition unix_milli :: "gtime \<Rightarrow> int64" where
  "unix_milli t = word_of_int (t_sec t * 1000 + int (t_nsec t div 1000000))"

text \<open>\<^verbatim>\<open>time.UnixMilli\<close>\<close>

definition time_of_millis :: "int64 \<Rightarrow> gtime" where
  "time_of_millis ms = unix_time (sint ms div 1000) (nat (sint ms mod 1000) * 1000000)"

lemma unix_milli_time_of_millis [simp]: "unix_milli (time_of_millis ms) = ms"
proof -
  have "sint ms div 1000 * 1000 + int (nat (sint ms mod 1000)) = sint ms" by simp
  then show ?thesis by (simp add: unix_milli_def time_of_millis_def unix_time_def)
qed

text \<open>The zero time is the first instant of year 1.\<close>

definition is_zero_time :: "gtime \<Rightarrow> bool" where
  "is_zero_time t \<longleftrightarrow> t_sec t = - 62135596800 \<and> t_nsec t = 0"

section \<open>The calendar\<close>

definition is_leap :: "int \<Rightarrow> bool" where
  "is_leap y \<longleftrightarrow> y mod 4 = 0 \<and> (y mod 100 \<noteq> 0 \<or> y mod 400 = 0)"

definition days_in :: "nat \<Rightarrow> int \<Rightarrow> nat" where
  "days_in m y = (if m = 2 then (if is_leap y then 29 else 28)
     else if m \<in> {4, 6, 9, 11} then 30 else 31)"

text \<open>Days from the epoch to the first day of year \<open>y\<close>.\<close>

definition year_days :: "int \<Rightarrow> int" where
  "year_days y = 365 * (y - 1970) + ((y - 1) div 4 - (y - 1) div 100 + (y - 1) div 400) - 477"

definition date_days :: "int \<Rightarrow> nat \<Rightarrow> nat \<Rightarrow> int" where
  "date_days y m d = year_days y + int (sum_list (map (\<lambda>k. days_in k y) [1..<m])) + int d - 1"

lemma epoch_is_day_zero: "date_days 1970 1 1 = 0"
  by (simp add: date_days_def year_days_def)

section \<open>Parsing an RFC 3339 timestamp\<close>

text \<open>A number of exactly two digits, or of one or two digits.\<close>

definition get_num2 :: "string \<Rightarrow> (nat \<times> string) option" where
  "get_num2 s = (case s of
     a # b # rest \<Rightarrow> if is_digit a \<and> is_digit b then Some (digit_val a * 10 + digit_val b, rest) else None
   | _ \<Rightarrow> None)"

definition get_num :: "string \<Rightarrow> (nat \<times> string) option" where
  "get_num s = (case s of
     [] \<Rightarrow> None
   | a # rest \<Rightarrow>
       if \<not> is_digit a then None
       else (case rest of
               b # rest' \<Rightarrow> if is_digit b then Some (digit_val a * 10 + digit_val b, rest')
                             else Some (digit_val a, rest)
             | [] \<Rightarrow> Some (digit_val a, rest)))"

definition get_year :: "string \<Rightarrow> (nat \<times> string) option" where
  "get_year s =
     (if 4 \<le> length s \<and> list_all is_digit (take 4 s) then Some (read_digits (take 4 s), drop 4 s) else None)"

definition get_lit :: "char \<Rightarrow> string \<Rightarrow> string option" where
  "get_lit c s = (case s of [] \<Rightarrow> None | a # rest \<Rightarrow> if a = c then Some rest else None)"

text \<open>
  The optional fraction: a period or a comma and digits, of which the first nine count.
\<close>

definition get_fraction :: "string \<Rightarrow> nat \<times> string" where
  "get_fraction s = (case s of
     a # b # rest \<Rightarrow>
       if (a = CHR ''.'' \<or> a = CHR '','') \<and> is_digit b then
         (let ds = takeWhile is_digit (b # rest); kept = take 9 ds
          in (read_digits kept * 10 ^ (9 - length kept), drop (length ds) (b # rest)))
       else (0, s)
   | _ \<Rightarrow> (0, s))"

text \<open>The zone: \<^verbatim>\<open>Z\<close> or a signed \<^verbatim>\<open>hh:mm\<close>; the result is the offset in seconds.\<close>

definition get_zone :: "string \<Rightarrow> (int \<times> string) option" where
  "get_zone s = (case s of
     [] \<Rightarrow> None
   | c # rest \<Rightarrow>
       if c = CHR ''Z'' then Some (0, rest)
       else do {
         (hh, r1) \<leftarrow> get_num2 rest;
         r2 \<leftarrow> get_lit (CHR '':'') r1;
         (mm, r3) \<leftarrow> get_num2 r2;
         if 24 < hh \<or> 60 < mm then None
         else if c = CHR ''+'' then Some (int ((hh * 60 + mm) * 60), r3)
         else if c = CHR ''-'' then Some (- int ((hh * 60 + mm) * 60), r3)
         else None
       })"

definition parse_rfc3339 :: "string \<Rightarrow> gtime option" where
  "parse_rfc3339 s = do {
     (year, s) \<leftarrow> get_year s;
     s \<leftarrow> get_lit (CHR ''-'') s;
     (month, s) \<leftarrow> get_num2 s;
     if month = 0 \<or> 12 < month then None else do {
     s \<leftarrow> get_lit (CHR ''-'') s;
     (day, s) \<leftarrow> get_num2 s;
     s \<leftarrow> get_lit (CHR ''T'') s;
     (hour, s) \<leftarrow> get_num s;
     if 24 \<le> hour then None else do {
     s \<leftarrow> get_lit (CHR '':'') s;
     (minute, s) \<leftarrow> get_num2 s;
     if 60 \<le> minute then None else do {
     s \<leftarrow> get_lit (CHR '':'') s;
     (second, s) \<leftarrow> get_num2 s;
     if 60 \<le> second then None else do {
     (offset, r) \<leftarrow> get_zone (snd (get_fraction s));
     if r \<noteq> [] \<or> day < 1 \<or> days_in month (int year) < day then None
     else Some (unix_time
            (date_days (int year) month day * 86400
               + int (hour * 3600 + minute * 60 + second) - offset)
            (fst (get_fraction s))) }}}}
   }"

text \<open>
  Every timestamp the parser accepts is far inside the range of an \<^verbatim>\<open>int64\<close> of milliseconds.
\<close>

lemma read_digits_bound: "list_all is_digit ds \<Longrightarrow> read_digits ds < 10 ^ length ds"
proof (induction ds rule: rev_induct)
  case (snoc d ds)
  have "digit_val d < 10" using snoc.prems by (auto simp: is_digit_def digit_val_def)
  then show ?case using snoc by (simp add: read_digits_def)
qed (simp add: read_digits_def)

lemma get_num2_bound: "get_num2 s = Some (n, r) \<Longrightarrow> n < 100"
  by (auto simp: get_num2_def is_digit_def digit_val_def split: list.splits if_splits)

lemma get_fraction_bound: "fst (get_fraction s) < 1000000000"
proof -
  have "read_digits (take 9 (takeWhile is_digit t)) * 10 ^ (9 - length (take 9 (takeWhile is_digit t)))
      < 1000000000" for t
  proof -
    let ?k = "take 9 (takeWhile is_digit t)"
    have "list_all is_digit ?k"
      by (auto simp: list_all_iff dest: in_set_takeD set_takeWhileD)
    then have "read_digits ?k < 10 ^ length ?k" by (rule read_digits_bound)
    then have "read_digits ?k * 10 ^ (9 - length ?k) < 10 ^ length ?k * 10 ^ (9 - length ?k)"
      by (intro mult_strict_right_mono) simp_all
    also have "(10 :: nat) ^ length ?k * 10 ^ (9 - length ?k) = 10 ^ 9"
      by (subst power_add [symmetric]) simp
    finally show ?thesis by simp
  qed
  then show ?thesis
    by (auto simp: get_fraction_def Let_def simp del: takeWhile.simps split: list.splits)
qed

lemma get_zone_bound: "get_zone s = Some (off, r) \<Longrightarrow> \<bar>off\<bar> \<le> 90000"
  by (auto simp: get_zone_def Option.bind_eq_Some_conv split: list.splits if_splits)

lemma days_in_le: "days_in m y \<le> 31"
  by (simp add: days_in_def)

lemma month_days_le: "sum_list (map (\<lambda>k. days_in k y) ks) \<le> 31 * length ks"
proof (induction ks)
  case (Cons k ks)
  then show ?case using days_in_le [of k y] by simp
qed simp

lemma year_days_bound: "0 \<le> y \<Longrightarrow> y < 10000 \<Longrightarrow> - 800000 \<le> year_days y \<and> year_days y \<le> 3000000"
proof -
  assume y: "0 \<le> y" "y < 10000"
  have d: "- 1 \<le> (y - 1) div n \<and> (y - 1) div n \<le> 10000" if "0 < n" for n :: int
  proof
    have "(- 1) div n \<le> (y - 1) div n" using y that by (intro zdiv_mono1) auto
    moreover have "(- 1) div n = - 1" using that by (simp add: div_eq_minus1)
    ultimately show "- 1 \<le> (y - 1) div n" by simp
    show "(y - 1) div n \<le> 10000"
    proof (cases "1 \<le> y")
      case True
      then have "(y - 1) div n \<le> (y - 1) div 1" using that by (intro zdiv_mono2) auto
      then show ?thesis using y by simp
    next
      case False
      then have "(y - 1) div n \<le> 0 div n" using y that by (intro zdiv_mono1) auto
      then show ?thesis by simp
    qed
  qed
  have key: "- 800000 \<le> 365 * (y - 1970) + (a - b + c) - 477 \<and> 365 * (y - 1970) + (a - b + c) - 477 \<le> 3000000"
    if "- 1 \<le> a \<and> a \<le> 10000" "- 1 \<le> b \<and> b \<le> 10000" "- 1 \<le> c \<and> c \<le> 10000" for a b c :: int
    using that y by auto
  show ?thesis
    unfolding year_days_def by (rule key; rule d; simp)
qed

lemma parse_rfc3339_bound:
  assumes "parse_rfc3339 s = Some t"
  shows "\<bar>t_sec t\<bar> < 300000000000 \<and> t_nsec t < 1000000000"
proof -
  obtain year month day h mi sec off where
    t: "t_sec t = date_days (int year) month day * 86400 + int (h * 3600 + mi * 60 + sec) - off"
    and b: "year < 10000" "month \<le> 12" "h < 24" "mi < 60" "sec < 60" "\<bar>off\<bar> \<le> 90000"
      "1 \<le> day" "day \<le> days_in month (int year)"
    and ns: "t_nsec t < 1000000000"
  proof -
    obtain a1 a2 a3 a4 a5 s1 s2 s3 s4 s5 s6 s7 s8 s9 s10 a6 off r where
      y: "get_year s = Some (a1, s1)" and m: "a2 \<noteq> 0" "\<not> 12 < a2"
      and hr: "\<not> 24 \<le> a4" "\<not> 60 \<le> a5" "\<not> 60 \<le> a6"
      and z: "get_zone (snd (get_fraction s10)) = Some (off, r)"
      and d: "\<not> (r \<noteq> [] \<or> a3 < 1 \<or> days_in a2 (int a1) < a3)"
      and t: "t = unix_time (date_days (int a1) a2 a3 * 86400 + int (a4 * 3600 + a5 * 60 + a6) - off)
                 (fst (get_fraction s10))"
      using assms unfolding parse_rfc3339_def
      by (auto simp: Option.bind_eq_Some_conv split: if_splits)
    have "a1 < 10000"
      using y read_digits_bound [of "take 4 s"] by (auto simp: get_year_def split: if_splits)
    moreover have "t_nsec t < 1000000000" using t get_fraction_bound by (simp add: unix_time_def)
    ultimately show thesis
      using that [of a1 a2 a3 a4 a5 a6 off] t m hr d get_zone_bound [OF z] by (simp add: unix_time_def)
  qed
  have "sum_list (map (\<lambda>k. days_in k (int year)) [1..<month]) \<le> 31 * length [1..<month]"
    by (rule month_days_le)
  also have "\<dots> \<le> 31 * 12" using b(2) by simp
  finally have ms: "sum_list (map (\<lambda>k. days_in k (int year)) [1..<month]) \<le> 372" by simp
  have d31: "day \<le> 31" using b(8) days_in_le le_trans by blast
  have "- 800001 \<le> date_days (int year) month day \<and> date_days (int year) month day \<le> 3000403"
    using year_days_bound [of "int year"] b(1,7) ms d31 unfolding date_days_def by linarith
  then show ?thesis using t b ns by linarith
qed

lemma unix_milli_bound:
  assumes "\<bar>t_sec t\<bar> < 300000000000" and "t_nsec t < 1000000000"
  shows "sint (unix_milli t) = t_sec t * 1000 + int (t_nsec t div 1000000)"
proof -
  have "t_nsec t div 1000000 < 1000" using assms(2) by simp
  then have "int (t_nsec t div 1000000) < 1000" by simp
  then show ?thesis unfolding unix_milli_def using assms(1) by (intro sint_of_int64) linarith+
qed

end
