(* ===== verification/Timing.thy ===== *)
theory Timing
  imports Go_Time
begin

text \<open>
  \<^verbatim>\<open>internal/timing/timing.go\<close>: the range of an Allure item in epoch milliseconds.
\<close>

record trange =
  r_start :: int64
  r_stop :: int64

definition resolve :: "string \<Rightarrow> int64 \<Rightarrow> gtime \<Rightarrow> trange" where
  "resolve timestamp duration fallback =
     (let start = (case parse_rfc3339 timestamp of Some parsed \<Rightarrow> parsed | None \<Rightarrow> fallback);
          start = (if is_zero_time start then unix_time 0 0 else start);
          duration = (if duration <s 0 then 0 else duration);
          start_ms = unix_milli start;
          stop_ms = start_ms + duration;
          stop_ms = (if stop_ms <s start_ms then start_ms else stop_ms)
      in \<lparr>r_start = start_ms, r_stop = stop_ms\<rparr>)"

definition clamp :: "trange \<Rightarrow> trange \<Rightarrow> trange" where
  "clamp child parent =
     (let child = (if r_start parent \<noteq> 0 \<and> r_start child <s r_start parent
                   then child\<lparr>r_start := r_start parent\<rparr> else child);
          child = (if r_stop parent \<noteq> 0 \<and> r_stop parent <s r_stop child
                   then child\<lparr>r_stop := r_stop parent\<rparr> else child)
      in if r_stop child <s r_start child then child\<lparr>r_stop := r_start child\<rparr> else child)"

definition ordered :: "trange \<Rightarrow> bool" where
  "ordered r \<longleftrightarrow> r_start r \<le>s r_stop r"

definition inside :: "trange \<Rightarrow> trange \<Rightarrow> bool" where
  "inside c p \<longleftrightarrow> r_start p \<le>s r_start c \<and> r_start c \<le>s r_stop c \<and> r_stop c \<le>s r_stop p"

lemma inside_trans: "inside a b \<Longrightarrow> inside b c \<Longrightarrow> inside a c"
  by (auto simp: inside_def sint_simps)

lemma ordered_inside_self: "ordered r \<longleftrightarrow> inside r r"
  by (auto simp: inside_def ordered_def sint_simps)

text \<open>The two selections \<open>resolve\<close> makes before it computes.\<close>

definition start_time :: "string \<Rightarrow> gtime \<Rightarrow> gtime" where
  "start_time timestamp fallback =
     (let t = (case parse_rfc3339 timestamp of Some parsed \<Rightarrow> parsed | None \<Rightarrow> fallback)
      in if is_zero_time t then unix_time 0 0 else t)"

lemma resolve_start: "r_start (resolve ts d fb) = unix_milli (start_time ts fb)"
  by (simp add: resolve_def start_time_def Let_def)

lemma resolve_ordered: "ordered (resolve ts d fb)"
  by (simp add: resolve_def ordered_def Let_def sint_simps)

lemma start_time_bound:
  assumes "parse_rfc3339 ts = Some t"
  shows "\<bar>t_sec (start_time ts fb)\<bar> < 300000000000 \<and> t_nsec (start_time ts fb) < 1000000000"
  using parse_rfc3339_bound [OF assms] assms by (simp add: start_time_def unix_time_def Let_def)

lemma sint_neg_iff: "(d :: int64) <s 0 \<longleftrightarrow> sint d < 0"
  by (simp add: sint_simps)

lemma resolve_stop_exact:
  assumes "sint (unix_milli (start_time ts fb)) + max 0 (sint d) < 9223372036854775808"
  shows "sint (r_stop (resolve ts d fb)) = sint (unix_milli (start_time ts fb)) + max 0 (sint d)"
proof -
  define s where "s = unix_milli (start_time ts fb)"
  define d' where "d' = (if d <s 0 then 0 else d)"
  have d': "sint d' = max 0 (sint d)" by (simp add: d'_def sint_neg_iff)
  have sum: "sint (s + d') = sint s + max 0 (sint d)"
    using assms sint64_bounds(1) [of s] d' by (subst sint_add64_exact) (auto simp: s_def)
  have "r_stop (resolve ts d fb) = (if s + d' <s s then s else s + d')"
    by (simp add: resolve_def s_def d'_def start_time_def Let_def)
  then show ?thesis using sum by (auto simp: sint_simps s_def)
qed

lemma clamp_ordered: "ordered (clamp c p)"
  by (auto simp: clamp_def ordered_def Let_def sint_simps)

text \<open>
  \<open>clamp\<close> keeps a child inside a parent whose range is known and ordered as long as the child does
  not start after the parent's stop.
\<close>

lemma clamp_inside:
  assumes "ordered p" and "r_start p \<noteq> 0" and "r_stop p \<noteq> 0" and "r_start c \<le>s r_stop p"
  shows "inside (clamp c p) p"
  using assms by (auto simp: clamp_def inside_def ordered_def Let_def sint_simps)

lemma clamp_id: "inside c p \<Longrightarrow> clamp c p = c"
  by (auto simp: clamp_def inside_def Let_def sint_simps)

section \<open>Properties\<close>

text \<open>
  C40.  The range of a result never runs backwards, whatever the timestamp, the duration and the
  fallback; and for a timestamp that parses, with a duration of at most 285 million years, it is
  exact: the start is the parsed instant in milliseconds (the epoch for the zero time) and the stop is
  the start plus the duration, a negative duration counting as zero.  Nothing wraps.
\<close>

theorem resolve_exact:
  "ordered (resolve ts d fb) \<and>
   (parse_rfc3339 ts = Some t \<and> sint d \<le> 9000000000000000000 \<longrightarrow>
      (let s = (if is_zero_time t then unix_time 0 0 else t)
       in sint (r_start (resolve ts d fb)) = t_sec s * 1000 + int (t_nsec s div 1000000) \<and>
          sint (r_stop (resolve ts d fb)) = t_sec s * 1000 + int (t_nsec s div 1000000) + max 0 (sint d)))"
proof (rule conjI [OF resolve_ordered], intro impI, elim conjE)
  assume p: "parse_rfc3339 ts = Some t" and d: "sint d \<le> 9000000000000000000"
  define s where "s = (if is_zero_time t then unix_time 0 0 else t)"
  have st: "start_time ts fb = s" using p by (simp add: start_time_def s_def)
  have b: "\<bar>t_sec s\<bar> < 300000000000 \<and> t_nsec s < 1000000000"
    using start_time_bound [OF p, of fb] st by simp
  have ms: "sint (unix_milli s) = t_sec s * 1000 + int (t_nsec s div 1000000)"
    using b by (intro unix_milli_bound) auto
  have "t_nsec s div 1000000 < 1000" using conjunct2 [OF b] by simp
  then have "int (t_nsec s div 1000000) < 1000" by simp
  then have "sint (unix_milli s) + max 0 (sint d) < 9223372036854775808"
  proof -
    have "max 0 (sint d) \<le> 9000000000000000000" using d by simp
    moreover have "t_sec s * 1000 < 300000000000000" using b by linarith
    ultimately show ?thesis using ms \<open>int (t_nsec s div 1000000) < 1000\<close> by linarith
  qed
  then have "sint (r_stop (resolve ts d fb)) = sint (unix_milli s) + max 0 (sint d)"
    using resolve_stop_exact [of ts fb d] st by simp
  then show "let s = (if is_zero_time t then unix_time 0 0 else t)
     in sint (r_start (resolve ts d fb)) = t_sec s * 1000 + int (t_nsec s div 1000000) \<and>
        sint (r_stop (resolve ts d fb)) = t_sec s * 1000 + int (t_nsec s div 1000000) + max 0 (sint d)"
    using ms st by (simp add: resolve_start Let_def s_def [symmetric])
qed

theorem resolve_exact_witness:
  "sint (r_stop (resolve ''1970-01-01T00:00:01.5Z'' 250 (unix_time 7 0))) = 1750"
proof -
  have "parse_rfc3339 ''1970-01-01T00:00:01.5Z'' = Some (unix_time 1 500000000)"
    by (simp add: parse_rfc3339_def get_year_def get_lit_def get_num2_def get_num_def get_fraction_def get_zone_def
        is_digit_def ord_def digit_val_def read_digits_def date_days_def year_days_def days_in_def is_leap_def)
  moreover have "\<not> is_zero_time (unix_time 1 500000000)" by (simp add: is_zero_time_def unix_time_def)
  ultimately show ?thesis
    using resolve_exact [of "''1970-01-01T00:00:01.5Z''" 250 "unix_time 7 0" "unix_time 1 500000000"]
    by (simp add: Let_def unix_time_def)
qed

text \<open>
  Clamping always gives an ordered range, keeps a child inside a parent with a known ordered
  range as long as the child does not start after the parent's stop, and leaves a child that is
  already inside unchanged.
\<close>

theorem clamp_spec:
  "ordered (clamp c p) \<and> (inside c p \<longrightarrow> clamp c p = c) \<and>
   (ordered p \<and> r_start p \<noteq> 0 \<and> r_stop p \<noteq> 0 \<and> r_start c \<le>s r_stop p \<longrightarrow> inside (clamp c p) p)"
  using clamp_ordered clamp_id clamp_inside by blast

theorem clamp_spec_witness:
  "inside (clamp \<lparr>r_start = 5, r_stop = 90\<rparr> \<lparr>r_start = 10, r_stop = 20\<rparr>) \<lparr>r_start = 10, r_stop = 20\<rparr>"
  using clamp_spec [of "\<lparr>r_start = 5, r_stop = 90\<rparr>" "\<lparr>r_start = 10, r_stop = 20\<rparr>"]
  by (simp add: ordered_def)

text \<open>
  A child that starts after its parent's stop is moved out of the parent: clamping cuts its stop
  to the parent's and then raises it back to the child's own start.
\<close>

theorem clamp_late_child:
  assumes "r_start p \<noteq> 0" and "r_stop p \<noteq> 0" and "ordered p" and "ordered c" and "r_stop p <s r_start c"
  shows "clamp c p = \<lparr>r_start = r_start c, r_stop = r_start c\<rparr> \<and> \<not> inside (clamp c p) p"
  using assms by (auto simp: clamp_def inside_def ordered_def Let_def sint_simps)

theorem clamp_late_child_witness:
  "\<not> inside (clamp \<lparr>r_start = 30, r_stop = 40\<rparr> \<lparr>r_start = 10, r_stop = 20\<rparr>) \<lparr>r_start = 10, r_stop = 20\<rparr>"
  by (rule conjunct2 [OF clamp_late_child]) (simp_all add: ordered_def)

end
