(* ===== verification/Go_Strings.thy ===== *)
theory Go_Strings
  imports Go_Base
begin

text \<open>
  The operations of Go's \<^verbatim>\<open>strings\<close> and \<^verbatim>\<open>unicode/utf8\<close> packages the program calls, over byte
  strings, with the facts on prefixes, splitting, trimming and replacing that the components
  share.  Unicode's case tables are data the program only looks up: they are the fields of
  \<open>unicode\<close>, read outside ASCII only.
\<close>

section \<open>Prefixes, suffixes, substrings\<close>

definition has_prefix :: "string \<Rightarrow> string \<Rightarrow> bool" where
  "has_prefix s p = prefix p s"

definition has_suffix :: "string \<Rightarrow> string \<Rightarrow> bool" where
  "has_suffix s p = suffix p s"

definition trim_prefix :: "string \<Rightarrow> string \<Rightarrow> string" where
  "trim_prefix s p = (if has_prefix s p then drop (length p) s else s)"

definition trim_suffix :: "string \<Rightarrow> string \<Rightarrow> string" where
  "trim_suffix s p = (if has_suffix s p then take (length s - length p) s else s)"

definition contains :: "string \<Rightarrow> string \<Rightarrow> bool" where
  "contains s t = sublist t s"

lemma has_prefix_append [simp]: "has_prefix (p @ s) p"
  by (simp add: has_prefix_def)

lemma trim_prefix_append [simp]: "trim_prefix (p @ s) p = s"
  by (simp add: trim_prefix_def)

lemma trim_suffix_append [simp]: "trim_suffix (s @ p) p = s"
  by (simp add: trim_suffix_def has_suffix_def suffix_def)

lemma contains_append: "contains (xs @ t @ ys) t"
  by (auto simp: contains_def sublist_def)

lemma containsE:
  assumes "contains s t"
  obtains xs ys where "s = xs @ t @ ys"
  using assms by (auto simp: contains_def sublist_def)

section \<open>Replace, split, join, cut\<close>

text \<open>
  \<^verbatim>\<open>strings.ReplaceAll(s, old, new)\<close>, leftmost and not overlapping.  Every call of the program
  has a nonempty \<open>old\<close>; for the empty one the model returns \<open>s\<close>.
\<close>

function replace_all :: "string \<Rightarrow> string \<Rightarrow> string \<Rightarrow> string" where
  "replace_all [] old new = []"
| "replace_all (c # cs) old new =
     (if old \<noteq> [] \<and> prefix old (c # cs) then new @ replace_all (drop (length old) (c # cs)) old new
      else c # replace_all cs old new)"
  by pat_completeness auto
termination
  by (relation "measure (\<lambda>(s, old, new). length s)")
    (auto simp: less_Suc_eq_le neq_Nil_conv)

text \<open>\<^verbatim>\<open>strings.ReplaceAll\<close> of one byte by one byte.\<close>

definition replace_char :: "char \<Rightarrow> char \<Rightarrow> string \<Rightarrow> string" where
  "replace_char a b s = map (\<lambda>c. if c = a then b else c) s"

text \<open>\<^verbatim>\<open>strings.Split\<close> on a one-byte separator: always at least one piece.\<close>

fun split_on :: "char \<Rightarrow> string \<Rightarrow> string list" where
  "split_on sep [] = [[]]"
| "split_on sep (c # cs) =
     (if c = sep then [] # split_on sep cs
      else (case split_on sep cs of [] \<Rightarrow> [[c]] | p # ps \<Rightarrow> (c # p) # ps))"

text \<open>\<^verbatim>\<open>strings.Join\<close>.\<close>

fun join :: "string \<Rightarrow> string list \<Rightarrow> string" where
  "join sep [] = []"
| "join sep [p] = p"
| "join sep (p # q # ps) = p @ sep @ join sep (q # ps)"

text \<open>\<^verbatim>\<open>strings.Cut\<close> with a nonempty separator: \<^const>\<open>None\<close> when it does not occur.\<close>

fun cut :: "string \<Rightarrow> string \<Rightarrow> (string \<times> string) option" where
  "cut sep [] = None"
| "cut sep (c # cs) =
     (if prefix sep (c # cs) then Some ([], drop (length sep) (c # cs))
      else map_option (\<lambda>(a, b). (c # a, b)) (cut sep cs))"

lemma replace_char_absent: "a \<noteq> b \<Longrightarrow> a \<notin> set (replace_char a b s)"
  by (auto simp: replace_char_def)

lemma split_on_nonempty [simp]: "split_on sep s \<noteq> []"
  by (induction s) (auto split: list.splits)

lemma split_on_no_sep: "\<forall>p \<in> set (split_on sep s). sep \<notin> set p"
  by (induction s) (auto split: list.splits)

lemma join_split [simp]: "join [sep] (split_on sep s) = s"
proof (induction s)
  case (Cons c cs)
  obtain p ps where ps: "split_on sep cs = p # ps" by (cases "split_on sep cs") auto
  with Cons.IH show ?case by (cases ps) auto
qed simp

lemma split_on_append_sep:
  "sep \<notin> set p \<Longrightarrow> split_on sep (p @ sep # s) = p # split_on sep s"
  by (induction p) auto

lemma split_on_single: "sep \<notin> set p \<Longrightarrow> split_on sep p = [p]"
  by (induction p) auto

lemma split_join:
  "ps \<noteq> [] \<Longrightarrow> \<forall>p \<in> set ps. sep \<notin> set p \<Longrightarrow> split_on sep (join [sep] ps) = ps"
  by (induction "[sep]" ps rule: join.induct) (auto simp: split_on_append_sep split_on_single)

lemma join_eq_Nil_iff: "join sep ps = [] \<longleftrightarrow> ps = [] \<or> ps = [[]] \<or> (sep = [] \<and> concat ps = [])"
  by (induction sep ps rule: join.induct) auto

lemma set_join: "set (join sep ps) \<subseteq> set sep \<union> (\<Union>p \<in> set ps. set p)"
  by (induction sep ps rule: join.induct) auto

lemma cut_SomeD: "cut sep s = Some (a, b) \<Longrightarrow> s = a @ sep @ b"
proof (induction s arbitrary: a)
  case (Cons c cs)
  show ?case
  proof (cases "prefix sep (c # cs)")
    case True
    with Cons.prems have "a = []" "b = drop (length sep) (c # cs)" by auto
    moreover from True obtain r where "c # cs = sep @ r" by (auto simp: prefix_def)
    ultimately show ?thesis by simp
  next
    case False
    with Cons show ?thesis by auto
  qed
qed simp

text \<open>A replaced string is the pieces between the occurrences joined with the replacement.\<close>

lemma replace_all_Nil_iff_absent: "\<not> contains s old \<Longrightarrow> replace_all s old new = s"
proof (induction s old new rule: replace_all.induct)
  case (2 c cs old new)
  have "\<not> prefix old (c # cs)"
    using "2.prems" prefix_imp_sublist by (auto simp: contains_def)
  moreover have "\<not> contains cs old"
    using "2.prems" by (simp add: contains_def sublist_Cons_right)
  ultimately show ?case using "2.IH"(2) by simp
qed simp

text \<open>
  When the searched string shares no byte with a nonempty replacement, nothing of it is left
  in the output, and no other string that shares no byte with the replacement appears anew: an
  occurrence in the output lies inside one of the pieces kept from the input.
\<close>

lemma prefix_replace_all:
  "prefix t (replace_all s old new) \<Longrightarrow> set t \<inter> set new = {} \<Longrightarrow> new \<noteq> [] \<Longrightarrow> prefix t s"
proof (induction s old new arbitrary: t rule: replace_all.induct)
  case (2 c cs old new)
  show ?case
  proof (cases t)
    case (Cons a t')
    show ?thesis
    proof (cases "old \<noteq> [] \<and> prefix old (c # cs)")
      case True
      with "2.prems"(1) Cons have "a = hd new"
        using "2.prems"(3) by (cases new) auto
      with "2.prems"(2,3) Cons show ?thesis by auto
    next
      case False
      with "2.prems" Cons "2.IH"(2) [OF False, of t'] show ?thesis by auto
    qed
  qed simp
qed simp

lemma sublist_appendD:
  "sublist t (m @ ys) \<Longrightarrow> set t \<inter> set m = {} \<Longrightarrow> t \<noteq> [] \<Longrightarrow> sublist t ys"
proof (induction m)
  case (Cons x m)
  from Cons.prems(2,3) have "\<not> prefix t (x # m @ ys)" by (cases t) auto
  with Cons show ?case by (simp add: sublist_Cons_right)
qed simp

lemma sublist_replace_all:
  "sublist t (replace_all s old new) \<Longrightarrow> set t \<inter> set new = {} \<Longrightarrow> new \<noteq> [] \<Longrightarrow> t \<noteq> []
    \<Longrightarrow> sublist t s"
proof (induction s old new rule: replace_all.induct)
  case (2 c cs old new)
  show ?case
  proof (cases "old \<noteq> [] \<and> prefix old (c # cs)")
    case True
    with "2.prems" have "sublist t (replace_all (drop (length old) (c # cs)) old new)"
      by (auto dest: sublist_appendD)
    then have "sublist t (drop (length old) (c # cs))"
      using "2.IH"(1) [OF True] "2.prems" by blast
    then show ?thesis by (rule sublist_order.order_trans) simp
  next
    case False
    with "2.prems"(1) have "prefix t (c # replace_all cs old new) \<or> sublist t (replace_all cs old new)"
      by (simp add: sublist_Cons_right)
    then show ?thesis
    proof
      assume "prefix t (c # replace_all cs old new)"
      with False have "prefix t (replace_all (c # cs) old new)" by auto
      then have "prefix t (c # cs)" using "2.prems"(2,3) by (rule prefix_replace_all)
      then show ?thesis by (rule prefix_imp_sublist)
    next
      assume "sublist t (replace_all cs old new)"
      then have "sublist t cs" using "2.IH"(2) [OF False] "2.prems" by blast
      then show ?thesis by (simp add: sublist_Cons_right)
    qed
  qed
qed simp

lemma replace_all_removes:
  "old \<noteq> [] \<Longrightarrow> set old \<inter> set new = {} \<Longrightarrow> new \<noteq> [] \<Longrightarrow> \<not> sublist old (replace_all s old new)"
proof (induction s old new rule: replace_all.induct)
  case (2 c cs old new)
  show ?case
  proof (cases "prefix old (c # cs)")
    case True
    with "2.prems" "2.IH"(1) show ?thesis by (auto dest: sublist_appendD)
  next
    case False
    then have "\<not> prefix old (replace_all (c # cs) old new)"
      using "2.prems" prefix_replace_all by blast
    with False "2.prems" "2.IH"(2) show ?thesis by (simp add: sublist_Cons_right)
  qed
qed simp

section \<open>White space\<close>

text \<open>
  The UTF-8 encodings of the code points \<^verbatim>\<open>unicode.IsSpace\<close> accepts.  A lead byte never occurs
  inside another rune, so white space can be recognised on the bytes.
\<close>

definition spaces :: "string list" where
  "spaces =
     [[CHR 0x09], [CHR 0x0A], [CHR 0x0B], [CHR 0x0C], [CHR 0x0D], [CHR 0x20],
      [CHR 0xC2, CHR 0x85], [CHR 0xC2, CHR 0xA0], [CHR 0xE1, CHR 0x9A, CHR 0x80],
      [CHR 0xE2, CHR 0x80, CHR 0x80], [CHR 0xE2, CHR 0x80, CHR 0x81],
      [CHR 0xE2, CHR 0x80, CHR 0x82], [CHR 0xE2, CHR 0x80, CHR 0x83],
      [CHR 0xE2, CHR 0x80, CHR 0x84], [CHR 0xE2, CHR 0x80, CHR 0x85],
      [CHR 0xE2, CHR 0x80, CHR 0x86], [CHR 0xE2, CHR 0x80, CHR 0x87],
      [CHR 0xE2, CHR 0x80, CHR 0x88], [CHR 0xE2, CHR 0x80, CHR 0x89],
      [CHR 0xE2, CHR 0x80, CHR 0x8A], [CHR 0xE2, CHR 0x80, CHR 0xA8],
      [CHR 0xE2, CHR 0x80, CHR 0xA9], [CHR 0xE2, CHR 0x80, CHR 0xAF],
      [CHR 0xE2, CHR 0x81, CHR 0x9F], [CHR 0xE3, CHR 0x80, CHR 0x80]]"

text \<open>The length of the white-space rune at the start or the end of a string, 0 for none.\<close>

definition lead_space :: "string \<Rightarrow> nat" where
  "lead_space s = (case List.find (\<lambda>w. prefix w s) spaces of None \<Rightarrow> 0 | Some w \<Rightarrow> length w)"

definition trail_space :: "string \<Rightarrow> nat" where
  "trail_space s = (case List.find (\<lambda>w. suffix w s) spaces of None \<Rightarrow> 0 | Some w \<Rightarrow> length w)"

function trim_left :: "string \<Rightarrow> string" where
  "trim_left s = (if lead_space s = 0 \<or> s = [] then s else trim_left (drop (lead_space s) s))"
  by pat_completeness auto
termination
  by (relation "measure length") auto

function trim_right :: "string \<Rightarrow> string" where
  "trim_right s =
     (if trail_space s = 0 \<or> s = [] then s else trim_right (take (length s - trail_space s) s))"
  by pat_completeness auto
termination
  by (relation "measure length") auto

declare trim_left.simps [simp del] trim_right.simps [simp del]

text \<open>\<^verbatim>\<open>strings.TrimSpace\<close>.\<close>

definition trim_space :: "string \<Rightarrow> string" where
  "trim_space s = trim_right (trim_left s)"

text \<open>\<^verbatim>\<open>strings.Fields\<close>: the maximal runs without white space.\<close>

function word_fields :: "string \<Rightarrow> string \<Rightarrow> string list" where
  "word_fields word [] = (if word = [] then [] else [word])"
| "word_fields word (c # cs) =
     (let n = lead_space (c # cs) in
      if n = 0 then word_fields (word @ [c]) cs
      else (if word = [] then [] else [word]) @ word_fields [] (drop n (c # cs)))"
  by pat_completeness auto
termination
  by (relation "measure (\<lambda>(w, s). length s)") auto

definition str_fields :: "string \<Rightarrow> string list" where
  "str_fields s = word_fields [] s"

lemma set_trim_left: "set (trim_left s) \<subseteq> set s"
proof (induction s rule: trim_left.induct)
  case (1 s)
  then show ?case by (subst trim_left.simps) (auto dest: in_set_dropD)
qed

lemma set_trim_right: "set (trim_right s) \<subseteq> set s"
proof (induction s rule: trim_right.induct)
  case (1 s)
  then show ?case by (subst trim_right.simps) (auto dest: in_set_takeD)
qed

lemma set_trim_space: "set (trim_space s) \<subseteq> set s"
  unfolding trim_space_def using set_trim_left set_trim_right by blast

lemma trim_left_Nil [simp]: "trim_left [] = []"
  by (subst trim_left.simps) simp

lemma trim_right_Nil [simp]: "trim_right [] = []"
  by (subst trim_right.simps) simp

lemma trim_space_Nil [simp]: "trim_space [] = []"
  by (simp add: trim_space_def)

lemma length_trim_right: "length (trim_right s) \<le> length s"
proof (induction s rule: trim_right.induct)
  case (1 s)
  then show ?case by (subst trim_right.simps) auto
qed

lemma length_trim_left: "length (trim_left s) \<le> length s"
proof (induction s rule: trim_left.induct)
  case (1 s)
  then show ?case by (subst trim_left.simps) auto
qed

lemma length_trim_space: "length (trim_space s) \<le> length s"
  unfolding trim_space_def using length_trim_left length_trim_right le_trans by blast

section \<open>UTF-8 and case\<close>

text \<open>
  \<^verbatim>\<open>utf8.DecodeRuneInString\<close>: the rune and its width; an invalid sequence is \<^verbatim>\<open>RuneError\<close> of
  width 1.
\<close>

definition rune_error :: nat where "rune_error = 0xFFFD"

definition cont_in :: "nat \<Rightarrow> nat \<Rightarrow> nat \<Rightarrow> bool" where
  "cont_in lo hi b \<longleftrightarrow> lo \<le> b \<and> b \<le> hi"

fun decode_rune :: "nat list \<Rightarrow> nat \<times> nat" where
  "decode_rune [] = (rune_error, 0)"
| "decode_rune (a # bs) =
     (if a < 0x80 then (a, 1)
      else if cont_in 0xC2 0xDF a then
        (case bs of b # _ \<Rightarrow>
            if cont_in 0x80 0xBF b then ((a - 0xC0) * 64 + (b - 0x80), 2) else (rune_error, 1)
          | _ \<Rightarrow> (rune_error, 1))
      else if cont_in 0xE0 0xEF a then
        (case bs of b # c # _ \<Rightarrow>
            if cont_in (if a = 0xE0 then 0xA0 else 0x80) (if a = 0xED then 0x9F else 0xBF) b
               \<and> cont_in 0x80 0xBF c
            then ((a - 0xE0) * 4096 + (b - 0x80) * 64 + (c - 0x80), 3) else (rune_error, 1)
          | _ \<Rightarrow> (rune_error, 1))
      else if cont_in 0xF0 0xF4 a then
        (case bs of b # c # d # _ \<Rightarrow>
            if cont_in (if a = 0xF0 then 0x90 else 0x80) (if a = 0xF4 then 0x8F else 0xBF) b
               \<and> cont_in 0x80 0xBF c \<and> cont_in 0x80 0xBF d
            then ((a - 0xF0) * 262144 + (b - 0x80) * 4096 + (c - 0x80) * 64 + (d - 0x80), 4)
            else (rune_error, 1)
          | _ \<Rightarrow> (rune_error, 1))
      else (rune_error, 1))"

text \<open>\<^verbatim>\<open>utf8.AppendRune\<close>; surrogates and values past U+10FFFF become \<^verbatim>\<open>RuneError\<close>.\<close>

definition encode_rune :: "nat \<Rightarrow> string" where
  "encode_rune r =
     (let r = (if cont_in 0xD800 0xDFFF r \<or> 0x10FFFF < r then rune_error else r) in
      map chr
       (if r < 0x80 then [r]
        else if r < 0x800 then [0xC0 + r div 64, 0x80 + r mod 64]
        else if r < 0x10000 then [0xE0 + r div 4096, 0x80 + r div 64 mod 64, 0x80 + r mod 64]
        else [0xF0 + r div 262144, 0x80 + r div 4096 mod 64, 0x80 + r div 64 mod 64,
              0x80 + r mod 64]))"

lemma decode_rune_width: "bs \<noteq> [] \<Longrightarrow> 1 \<le> snd (decode_rune bs) \<and> snd (decode_rune bs) \<le> length bs"
  by (cases bs) (auto split: list.splits)

text \<open>The runes a \<^verbatim>\<open>for range\<close> over a string visits, each with the bytes it takes.\<close>

function runes :: "string \<Rightarrow> (nat \<times> string) list" where
  "runes [] = []"
| "runes (c # cs) =
     (let (r, w) = decode_rune (map ord (c # cs))
      in (r, take w (c # cs)) # runes (drop (max 1 w) (c # cs)))"
  by pat_completeness auto
termination
  by (relation "measure length") (auto simp: less_Suc_eq_le)

definition is_ascii :: "string \<Rightarrow> bool" where
  "is_ascii s = list_all (\<lambda>c. ord c < 128) s"

lemma is_ascii_append [simp]: "is_ascii (s @ t) \<longleftrightarrow> is_ascii s \<and> is_ascii t"
  by (simp add: is_ascii_def)

lemma is_ascii_subset: "set s \<subseteq> set t \<Longrightarrow> is_ascii t \<Longrightarrow> is_ascii s"
  by (auto simp: is_ascii_def list_all_iff)

lemma runes_ascii: "is_ascii s \<Longrightarrow> runes s = map (\<lambda>c. (ord c, [c])) s"
  by (induction s rule: runes.induct) (auto simp: is_ascii_def)

lemma runes_concat: "concat (map snd (runes s)) = s"
proof (induction s rule: runes.induct)
  case (2 c cs)
  obtain r w where rw: "decode_rune (map ord (c # cs)) = (r, w)" by fastforce
  have "1 \<le> w" using decode_rune_width [of "map ord (c # cs)"] rw by simp
  with 2 [OF rw [symmetric] refl] rw show ?case
    by (simp add: max_def del: drop_Cons take_Cons decode_rune.simps)
qed simp

text \<open>
  Unicode's lower-case mapping and simple case folding outside ASCII: tables of the
  \<^verbatim>\<open>unicode\<close> package, taken as data.  \<open>u_fold a b\<close>, for \<open>a < b\<close> and \<open>b\<close> not ASCII, says
  that \<open>b\<close> is in the folding orbit of \<open>a\<close>.
\<close>

record unicode =
  u_lower :: "nat \<Rightarrow> nat"
  u_fold :: "nat \<Rightarrow> nat \<Rightarrow> bool"

definition lower_ascii :: "nat \<Rightarrow> nat" where
  "lower_ascii r = (if cont_in 65 90 r then r + 32 else r)"

definition lower_rune :: "'a unicode_scheme \<Rightarrow> nat \<Rightarrow> nat" where
  "lower_rune u r = (if r < 128 then lower_ascii r else u_lower u r)"

text \<open>\<^verbatim>\<open>strings.ToLower\<close>: ASCII strings byte by byte, others rune by rune.\<close>

definition to_lower :: "'a unicode_scheme \<Rightarrow> string \<Rightarrow> string" where
  "to_lower u s =
     (if is_ascii s then map (\<lambda>c. chr (lower_ascii (ord c))) s
      else concat (map (\<lambda>(r, w). encode_rune (lower_rune u r)) (runes s)))"

text \<open>\<^verbatim>\<open>strings.EqualFold\<close>.\<close>

definition rune_fold_eq :: "'a unicode_scheme \<Rightarrow> nat \<Rightarrow> nat \<Rightarrow> bool" where
  "rune_fold_eq u a b =
     (let lo = min a b; hi = max a b in
      lo = hi \<or> (if hi < 128 then cont_in 65 90 lo \<and> hi = lo + 32 else u_fold u lo hi))"

definition equal_fold :: "'a unicode_scheme \<Rightarrow> string \<Rightarrow> string \<Rightarrow> bool" where
  "equal_fold u s t = list_all2 (rune_fold_eq u) (map fst (runes s)) (map fst (runes t))"

lemma length_to_lower_ascii: "is_ascii s \<Longrightarrow> length (to_lower u s) = length s"
  by (simp add: to_lower_def)

lemma equal_fold_refl [simp]: "equal_fold u s s"
  by (simp add: equal_fold_def list_all2_same rune_fold_eq_def)

section \<open>First non-empty value\<close>

text \<open>
  The variadic \<^verbatim>\<open>first\<close> helpers of packages \<^verbatim>\<open>metadata\<close>, \<^verbatim>\<open>collector\<close> and \<^verbatim>\<open>app\<close>: the first
  string that is not empty.  Package \<^verbatim>\<open>mapping\<close> has its own, which skips white space too.
\<close>

fun first_nonempty :: "string list \<Rightarrow> string" where
  "first_nonempty [] = []"
| "first_nonempty (v # vs) = (if v \<noteq> [] then v else first_nonempty vs)"

lemma first_nonempty_in: "first_nonempty vs \<noteq> [] \<Longrightarrow> first_nonempty vs \<in> set vs"
  by (induction vs) auto

lemma first_nonempty_eq_Nil: "first_nonempty vs = [] \<longleftrightarrow> (\<forall>v \<in> set vs. v = [])"
  by (induction vs) auto

end
