(* ===== verification/Gauge_Proto.thy ===== *)
theory Gauge_Proto
  imports Go_Base
begin

text \<open>
  The Gauge protocol messages the reporter reads, with the fields it reads.  The message types
  are generated from \<^verbatim>\<open>gauge_messages\<close>, which is not part of the repository; only their shape is
  used: a message field is a pointer (an option), a repeated message field is a list of pointers,
  a \<^verbatim>\<open>bytes\<close> field is a byte string, an enum is open (an unknown number is possible).
\<close>

section \<open>Enums\<close>

datatype execution_status = NotExecuted | Passed_exec | Failed_exec | Skipped_exec | Other_exec int32

datatype error_type = Assertion_error | Verification_error | Other_error int32

datatype item_type =
  Step_item | Comment_item | Concept_item | Scenario_item | Table_driven_item | Table_item | Tags_item
  | Other_item int32

datatype fragment_type = Text_fragment | Parameter_fragment | Other_fragment int32

datatype parameter_type =
  Static_param | Dynamic_param | Special_string | Special_table | Table_param | Multiline_string
  | Other_param int32

datatype spec_error_type = Parse_error | Validation_error | Other_spec_error int32

section \<open>Execution results\<close>

record execution_result =
  er_failed :: bool
  er_recoverable :: bool
  er_message :: string
  er_trace :: string
  er_time :: int64
  er_messages :: "string list"
  er_type :: error_type
  er_failure_shot :: string
  er_shot :: string
  er_shots :: "string list"
  er_failure_file :: string
  er_files :: "string list"
  er_skip_scenario :: bool

record hook_failure =
  hf_message :: string
  hf_trace :: string
  hf_shot :: string
  hf_failure_shot :: string
  hf_failure_file :: string

record step_exec =
  se_result :: "execution_result option"
  se_pre_failure :: "hook_failure option"
  se_post_failure :: "hook_failure option"
  se_skipped :: bool
  se_skipped_reason :: string

section \<open>Tables, parameters, steps\<close>

type_synonym proto_row = "string list"

record proto_table =
  pt_headers :: "proto_row option"
  pt_rows :: "proto_row option list"

record proto_parameter =
  pp_type :: parameter_type
  pp_name :: string
  pp_value :: string
  pp_table :: "proto_table option"

record fragment =
  fr_type :: fragment_type
  fr_parameter :: "proto_parameter option"

record hook_scope =
  hs_pre_messages :: "string list"
  hs_post_messages :: "string list"
  hs_pre_shots :: "string list"
  hs_post_shots :: "string list"
  hs_pre_files :: "string list"
  hs_post_files :: "string list"

text \<open>
  \<open>hook_scope\<close> collects the six fields of hook messages and screenshots that the step, scenario,
  specification and suite messages share.
\<close>

record proto_step =
  st_actual :: string
  st_parsed :: string
  st_fragments :: "fragment option list"
  st_exec :: "step_exec option"
  st_hooks :: hook_scope

record span =
  sp_start :: int64
  sp_end :: int64

record scenario_fields =
  sc_id :: string
  sc_heading :: string
  sc_status :: execution_status
  sc_skip_errors :: "string list"
  sc_pre_failure :: "hook_failure option"
  sc_post_failure :: "hook_failure option"
  sc_tags :: "string list"
  sc_time :: int64
  sc_retries_count :: int64
  sc_span :: "span option"
  sc_hooks :: hook_scope

record table_driven_fields =
  td_row_index :: int32
  td_is_scenario_table :: bool
  td_scenario_row_index :: int32
  td_data_table :: "proto_table option"
  td_table_row :: "proto_table option"

section \<open>Items: steps nested in concepts, concepts and scenarios in items\<close>

datatype proto_item = Proto_item
  (pi_type: item_type) (pi_step: "proto_step option") (pi_concept: "proto_concept option")
  (pi_scenario: "proto_scenario option") (pi_table_driven: "proto_table_driven option")
  (pi_comment: "string option") (pi_table: "proto_table option") (pi_tags: "string list option")
  (pi_file: string)
and proto_concept = Proto_concept
  (pc_step: "proto_step option") (pc_items: "proto_item option list") (pc_exec: "step_exec option")
and proto_scenario = Proto_scenario
  (ps_fields: scenario_fields) (ps_contexts: "proto_item option list")
  (ps_items: "proto_item option list") (ps_teardown: "proto_item option list")
and proto_table_driven = Proto_table_driven
  (ptd_scenario: "proto_scenario option") (ptd_fields: table_driven_fields)

abbreviation items_size :: "proto_item option list \<Rightarrow> nat" where
  "items_size \<equiv> size_list (size_option size)"

lemma concept_items_smaller [termination_simp]:
  "pi_concept it = Some c \<Longrightarrow> items_size (pc_items c) < size it"
  by (cases it; cases c) auto

section \<open>Specifications, suites and lifecycle requests\<close>

record proto_spec =
  pr_heading :: string
  pr_file :: string
  pr_tags :: "string list"
  pr_items :: "proto_item option list"
  pr_table_driven :: bool
  pr_pre_failures :: "hook_failure option list"
  pr_post_failures :: "hook_failure option list"
  pr_hooks :: hook_scope

record spec_error =
  ge_type :: spec_error_type
  ge_file :: string
  ge_line :: int32
  ge_message :: string

record spec_result =
  sr_spec :: "proto_spec option"
  sr_errors :: "spec_error option list"
  sr_timestamp :: string
  sr_time :: int64

record suite_result =
  su_specs :: "spec_result option list"
  su_pre_failure :: "hook_failure option"
  su_post_failure :: "hook_failure option"
  su_failed :: bool
  su_time :: int64
  su_timestamp :: string
  su_project :: string
  su_environment :: string
  su_hooks :: hook_scope

record spec_info =
  ci_name :: string
  ci_file :: string
  ci_tags :: "string list"

record scenario_info =
  cs_name :: string
  cs_retry :: "int32 option"

text \<open>
  \<open>cs_retry\<close> is the current retry of the \<^verbatim>\<open>retries\<close> message, when there is one; \<open>xi_step\<close> is the
  parsed text of the current step's request.
\<close>

record execution_info =
  xi_spec :: "spec_info option"
  xi_scenario :: "scenario_info option"
  xi_step :: "string option"
  xi_project :: string
  xi_streams :: int32
  xi_runner :: int32

record event_request =
  ev_stream :: int32
  ev_info :: "execution_info option"
  ev_suite :: "suite_result option"

record scenario_result =
  sn_item :: "proto_item option"
  sn_time :: int64
  sn_timestamp :: string

record scenario_ending =
  sg_stream :: int32
  sg_info :: "execution_info option"
  sg_result :: "scenario_result option"

text \<open>The retry number a lifecycle event carries; zero when it carries none.\<close>

definition current_retry :: "execution_info option \<Rightarrow> int32" where
  "current_retry info =
     (case info of None \<Rightarrow> 0 | Some i \<Rightarrow>
        (case xi_scenario i of None \<Rightarrow> 0 | Some s \<Rightarrow>
           (case cs_retry s of None \<Rightarrow> 0 | Some r \<Rightarrow> r)))"

section \<open>Zero messages\<close>

definition no_hooks :: hook_scope where
  "no_hooks = \<lparr>hs_pre_messages = [], hs_post_messages = [], hs_pre_shots = [], hs_post_shots = [],
     hs_pre_files = [], hs_post_files = []\<rparr>"

definition no_execution :: execution_result where
  "no_execution = \<lparr>er_failed = False, er_recoverable = False, er_message = [], er_trace = [], er_time = 0,
     er_messages = [], er_type = Assertion_error, er_failure_shot = [], er_shot = [], er_shots = [],
     er_failure_file = [], er_files = [], er_skip_scenario = False\<rparr>"

definition no_scenario_fields :: scenario_fields where
  "no_scenario_fields = \<lparr>sc_id = [], sc_heading = [], sc_status = NotExecuted, sc_skip_errors = [],
     sc_pre_failure = None, sc_post_failure = None, sc_tags = [], sc_time = 0, sc_retries_count = 0,
     sc_span = None, sc_hooks = no_hooks\<rparr>"

definition no_spec :: proto_spec where
  "no_spec = \<lparr>pr_heading = [], pr_file = [], pr_tags = [], pr_items = [], pr_table_driven = False,
     pr_pre_failures = [], pr_post_failures = [], pr_hooks = no_hooks\<rparr>"

end
