(* ===== verification/Allure_Model.thy ===== *)
theory Allure_Model
  imports Go_Base
begin

text \<open>
  The Allure artifacts the reporter builds, with the fields it sets.  The types come from
  \<^verbatim>\<open>allure-go\<close>, which is not part of the repository; the stage of every item the reporter builds is
  \<^verbatim>\<open>finished\<close> and is left out.
\<close>

datatype status = Passed | Failed | Broken | Skipped

text \<open>The order of severity: a passed item is the least severe, a broken one the most.\<close>

fun severity :: "status \<Rightarrow> nat" where
  "severity Passed = 0"
| "severity Skipped = 1"
| "severity Failed = 2"
| "severity Broken = 3"

lemma severity_inj: "severity a = severity b \<Longrightarrow> a = b"
  by (cases a; cases b) simp_all

instantiation status :: linorder
begin

definition less_eq_status :: "status \<Rightarrow> status \<Rightarrow> bool" where
  "a \<le> b \<longleftrightarrow> severity a \<le> severity b"

definition less_status :: "status \<Rightarrow> status \<Rightarrow> bool" where
  "a < b \<longleftrightarrow> severity a < severity b"

instance
  by standard (auto simp: less_eq_status_def less_status_def severity_inj)

end

record details =
  d_message :: string
  d_trace :: string

record label =
  l_name :: string
  l_value :: string

record link =
  k_type :: string
  k_name :: string
  k_url :: string

datatype parameter_mode = Default_mode | Masked | Hidden

record parameter =
  p_name :: string
  p_value :: string
  p_excluded :: bool
  p_mode :: parameter_mode

record attachment =
  a_name :: string
  a_type :: string
  a_source :: string

datatype step_result = Step_result
  (s_name: string) (s_status: status) (s_details: "details option") (s_params: "parameter list")
  (s_start: int64) (s_stop: int64) (s_steps: "step_result list") (s_attachments: "attachment list")

definition set_status :: "status \<Rightarrow> step_result \<Rightarrow> step_result" where
  "set_status v s = Step_result (s_name s) v (s_details s) (s_params s) (s_start s) (s_stop s)
     (s_steps s) (s_attachments s)"

definition set_attachments :: "attachment list \<Rightarrow> step_result \<Rightarrow> step_result" where
  "set_attachments v s = Step_result (s_name s) (s_status s) (s_details s) (s_params s) (s_start s)
     (s_stop s) (s_steps s) v"

lemma set_status_sel [simp]:
  "s_name (set_status v s) = s_name s" "s_status (set_status v s) = v"
  "s_start (set_status v s) = s_start s" "s_stop (set_status v s) = s_stop s"
  "s_steps (set_status v s) = s_steps s" "s_details (set_status v s) = s_details s"
  "s_params (set_status v s) = s_params s" "s_attachments (set_status v s) = s_attachments s"
  by (simp_all add: set_status_def)

lemma set_attachments_sel [simp]:
  "s_name (set_attachments v s) = s_name s" "s_status (set_attachments v s) = s_status s"
  "s_start (set_attachments v s) = s_start s" "s_stop (set_attachments v s) = s_stop s"
  "s_steps (set_attachments v s) = s_steps s" "s_details (set_attachments v s) = s_details s"
  "s_params (set_attachments v s) = s_params s" "s_attachments (set_attachments v s) = v"
  by (simp_all add: set_attachments_def)

record test_result =
  t_uuid :: string
  t_name :: string
  t_full_name :: string
  t_case_id :: string
  t_history_id :: string
  t_description :: string
  t_status :: status
  t_details :: "details option"
  t_labels :: "label list"
  t_links :: "link list"
  t_params :: "parameter list"
  t_start :: int64
  t_stop :: int64
  t_steps :: "step_result list"
  t_attachments :: "attachment list"

record fixture_result =
  f_name :: string
  f_status :: status
  f_details :: "details option"
  f_start :: int64
  f_stop :: int64
  f_steps :: "step_result list"
  f_attachments :: "attachment list"

record container =
  o_uuid :: string
  o_name :: string
  o_children :: "string list"
  o_befores :: "fixture_result list"
  o_afters :: "fixture_result list"
  o_start :: int64
  o_stop :: int64

record executor =
  e_name :: string
  e_type :: string
  e_build_name :: string
  e_build_order :: int64
  e_build_url :: string
  e_report_name :: string
  e_report_url :: string

record category =
  cat_name :: string
  cat_statuses :: "status list"

end
