(* ===== verification/Status.thy ===== *)
theory Status
  imports Go_Strings Gauge_Proto Allure_Model
begin

text \<open>
  \<^verbatim>\<open>internal/status/status.go\<close>: from Gauge verdicts to Allure statuses, the classification of a
  failure by its diagnostic, and the bounded status details.
\<close>

section \<open>Details\<close>

definition truncation_mark :: string where
  "truncation_mark = newline # map chr [0xE2, 0x80, 0xA6] @ '' truncated by allure-report''"

definition truncate_text :: "string \<Rightarrow> nat \<Rightarrow> string" where
  "truncate_text value maximum =
     (if length value \<le> maximum then value else take maximum value @ truncation_mark)"

definition message_limit :: nat where "message_limit = 16 * 1024"
definition trace_limit :: nat where "trace_limit = 256 * 1024"

definition failure_details :: "string \<Rightarrow> string \<Rightarrow> details option" where
  "failure_details message trace =
     (let message = truncate_text (trim_space message) message_limit;
          trace = truncate_text (trim_space trace) trace_limit
      in if message = [] \<and> trace = [] then None else Some \<lparr>d_message = message, d_trace = trace\<rparr>)"

lemma length_truncate: "length (truncate_text v n) \<le> n + length truncation_mark"
  by (simp add: truncate_text_def)

lemma truncate_Nil_iff [simp]: "truncate_text v n = [] \<longleftrightarrow> v = []"
  by (auto simp: truncate_text_def truncation_mark_def)

lemma truncate_id: "length v \<le> n \<Longrightarrow> truncate_text v n = v"
  by (simp add: truncate_text_def)

lemma prefix_truncate: "prefix (take n v) (truncate_text v n)"
  by (simp add: truncate_text_def)

lemma length_mark: "length truncation_mark = 31"
  by (simp add: truncation_mark_def)

section \<open>Kinds of failure\<close>

datatype error_kind =
  Error_none | Error_assertion | Error_verification | Error_unexpected | Error_hook | Error_parse
  | Error_validation | Error_protocol | Error_internal

definition assertion_markers :: "string list" where
  "assertion_markers =
     [''assertionerror'', ''assertion failed'', ''assert failed'', ''[err_assertion]'',
      ''assertionfailederror'', ''comparisonfailure'', ''comparison failure'',
      ''expected:'', ''expected '', '' but got '', '' but was '', ''should equal'',
      ''should be'', ''verification failed'', newline # ''e   assert '']"

definition failure_kind :: "'u unicode_scheme \<Rightarrow> execution_result option \<Rightarrow> error_kind" where
  "failure_kind u value =
     (case value of
        None \<Rightarrow> Error_protocol
      | Some v \<Rightarrow>
          if er_recoverable v \<or> er_type v = Verification_error then Error_verification
          else
            let diagnostic = to_lower u (er_message v @ newline # er_trace v)
            in if list_ex (\<lambda>marker. contains diagnostic marker) assertion_markers then Error_assertion
               else Error_unexpected)"

section \<open>Statuses\<close>

definition from_execution_status :: "execution_status \<Rightarrow> string \<Rightarrow> error_kind \<Rightarrow> status" where
  "from_execution_status value skip_reason kind =
     (if trim_space skip_reason \<noteq> [] \<or> value = Skipped_exec then Skipped
      else (case value of
              Passed_exec \<Rightarrow> Passed
            | Failed_exec \<Rightarrow>
                if kind = Error_assertion \<or> kind = Error_verification then Failed else Broken
            | NotExecuted \<Rightarrow> Broken
            | _ \<Rightarrow> Broken))"

definition no_step_result :: details where
  "no_step_result = \<lparr>d_message = ''Gauge did not provide a step execution result'', d_trace = []\<rparr>"

definition no_execution_result :: details where
  "no_execution_result = \<lparr>d_message = ''Gauge did not provide an execution result'', d_trace = []\<rparr>"

definition from_step :: "'u unicode_scheme \<Rightarrow> step_exec option \<Rightarrow> status \<times> details option" where
  "from_step u value =
     (case value of
        None \<Rightarrow> (Broken, Some no_step_result)
      | Some v \<Rightarrow>
          if se_skipped v then (Skipped, failure_details (se_skipped_reason v) [])
          else if se_pre_failure v \<noteq> None \<or> se_post_failure v \<noteq> None then
            (let failure = (if se_pre_failure v = None then se_post_failure v else se_pre_failure v)
             in (Broken, failure_details (nget [] hf_message failure) (nget [] hf_trace failure)))
          else (case se_result v of
                  None \<Rightarrow> (Broken, Some no_execution_result)
                | Some execution \<Rightarrow>
                    if er_skip_scenario execution then
                      (Skipped, failure_details (er_message execution) (er_trace execution))
                    else if \<not> er_failed execution then (Passed, None)
                    else (from_execution_status Failed_exec [] (failure_kind u (Some execution)),
                          failure_details (er_message execution) (er_trace execution))))"

section \<open>What a verdict rests on\<close>

lemma from_execution_status_passed_iff:
  "from_execution_status v r k = Passed \<longleftrightarrow> v = Passed_exec \<and> trim_space r = []"
  by (auto simp: from_execution_status_def split: execution_status.splits if_splits)

lemma from_execution_status_failed:
  "from_execution_status Failed_exec [] k
     = (if k = Error_assertion \<or> k = Error_verification then Failed else Broken)"
  by (simp add: from_execution_status_def)

lemma failure_kind_cases:
  "failure_kind u (Some v) \<in> {Error_verification, Error_assertion, Error_unexpected}"
  by (simp add: failure_kind_def Let_def)


text \<open>
  A step is \<^verbatim>\<open>failed\<close> (a product defect) only on evidence: Gauge delivered a failed execution
  whose error is recoverable, or typed as a verification failure, or whose lowercased diagnostic
  contains one of the assertion markers.  Hook failures, missing results and exceptions without a
  marker are \<^verbatim>\<open>broken\<close>.
\<close>

theorem from_step_failed_iff:
  "fst (from_step u value) = Failed \<longleftrightarrow>
     (\<exists>v e. value = Some v \<and> \<not> se_skipped v \<and> se_pre_failure v = None \<and> se_post_failure v = None \<and>
        se_result v = Some e \<and> \<not> er_skip_scenario e \<and> er_failed e \<and>
        (er_recoverable e \<or> er_type e = Verification_error \<or>
         (\<exists>m \<in> set assertion_markers. contains (to_lower u (er_message e @ newline # er_trace e)) m)))"
proof -
  have kind: "failure_kind u (Some e) = Error_assertion \<or> failure_kind u (Some e) = Error_verification \<longleftrightarrow>
      er_recoverable e \<or> er_type e = Verification_error \<or>
      (\<exists>m \<in> set assertion_markers. contains (to_lower u (er_message e @ newline # er_trace e)) m)" for e
    by (auto simp: failure_kind_def Let_def list_ex_iff)
  show ?thesis
    by (cases "value")
      (auto simp: from_step_def Let_def from_execution_status_failed kind [symmetric]
        split: option.splits if_splits)
qed

lemma failure_details_bounds_aux:
  "failure_details m t = Some d \<Longrightarrow>
     length (d_message d) \<le> message_limit + 31 \<and> length (d_trace d) \<le> trace_limit + 31 \<and>
     (d_message d \<noteq> [] \<or> d_trace d \<noteq> [])"
  using length_truncate length_mark
  by (auto simp: failure_details_def Let_def split: if_splits)

lemma failure_details_None_iff: "failure_details m t = None \<longleftrightarrow> trim_space m = [] \<and> trim_space t = []"
  by (auto simp: failure_details_def Let_def)

end
