(* ===== verification/Go_Path.thy ===== *)
theory Go_Path
  imports Go_Strings
begin

text \<open>
  The functions of \<^verbatim>\<open>path/filepath\<close> the program calls, in their Unix form (separator \<^verbatim>\<open>/\<close>, no
  volume names): \<^verbatim>\<open>Clean\<close>, \<^verbatim>\<open>Join\<close>, \<^verbatim>\<open>Base\<close>, \<^verbatim>\<open>Ext\<close>, \<^verbatim>\<open>IsAbs\<close>, \<^verbatim>\<open>Rel\<close> and the glob matcher
  \<^verbatim>\<open>Match\<close>, with the shape of cleaned paths and a characterisation of \<^verbatim>\<open>Rel\<close> by path components.
\<close>

abbreviation slash :: char where "slash \<equiv> CHR ''/''"

section \<open>Clean, Join, Base, Ext, IsAbs\<close>

text \<open>The element loop of \<^verbatim>\<open>Clean\<close>; the output is kept in reverse.\<close>

fun clean_segs :: "bool \<Rightarrow> string list \<Rightarrow> string list \<Rightarrow> string list" where
  "clean_segs rooted out [] = rev out"
| "clean_segs rooted out (s # ss) =
     (if s = [] \<or> s = ''.'' then clean_segs rooted out ss
      else if s = ''..'' then
        (case out of
           [] \<Rightarrow> clean_segs rooted (if rooted then [] else [''..'']) ss
         | p # ps \<Rightarrow> clean_segs rooted (if p = ''..'' then ''..'' # out else ps) ss)
      else clean_segs rooted (s # out) ss)"

definition is_abs :: "string \<Rightarrow> bool" where
  "is_abs p = has_prefix p ''/''"

definition clean :: "string \<Rightarrow> string" where
  "clean p =
     (if p = [] then ''.''
      else let body = join ''/'' (clean_segs (is_abs p) [] (split_on slash p)) in
        if is_abs p then slash # body else if body = [] then ''.'' else body)"

definition path_join :: "string list \<Rightarrow> string" where
  "path_join es = (case dropWhile (\<lambda>e. e = []) es of [] \<Rightarrow> [] | e # rest \<Rightarrow> clean (join ''/'' (e # rest)))"

definition base :: "string \<Rightarrow> string" where
  "base p =
     (if p = [] then ''.''
      else let q = rev (dropWhile (\<lambda>c. c = slash) (rev p)) in
        if q = [] then ''/'' else last (split_on slash q))"

definition ext :: "string \<Rightarrow> string" where
  "ext p =
     (let e = last (split_on slash p) in
      if CHR ''.'' \<in> set e then CHR ''.'' # rev (takeWhile (\<lambda>c. c \<noteq> CHR ''.'') (rev e)) else [])"

text \<open>A segment that is a real name: not empty, not a dot segment, without separator.\<close>

definition plain_seg :: "string \<Rightarrow> bool" where
  "plain_seg s \<longleftrightarrow> s \<noteq> [] \<and> s \<noteq> ''.'' \<and> s \<noteq> ''..'' \<and> slash \<notin> set s"

lemma clean_segs_plain:
  "\<forall>s \<in> set out. plain_seg s \<Longrightarrow> \<forall>s \<in> set ss. slash \<notin> set s
    \<Longrightarrow> \<forall>s \<in> set (clean_segs True out ss). plain_seg s"
proof (induction ss arbitrary: out)
  case (Cons s ss)
  consider "s = [] \<or> s = ''.''" | "s = ''..''" "out = []"
    | p ps where "s = ''..''" "out = p # ps" | "plain_seg s"
    using Cons.prems(2) by (cases out) (auto simp: plain_seg_def)
  then show ?case
  proof cases
    case 1
    then show ?thesis using Cons.IH [of out] Cons.prems by auto
  next
    case 2
    then show ?thesis using Cons.IH [of "[]"] Cons.prems by simp
  next
    case 3
    then have "p \<noteq> ''..''" using Cons.prems(1) by (simp add: plain_seg_def)
    then show ?thesis using 3 Cons.IH [of ps] Cons.prems by simp
  next
    case 4
    then have eq: "clean_segs True out (s # ss) = clean_segs True (s # out) ss"
      by (simp add: plain_seg_def)
    have "\<forall>x \<in> set (clean_segs True (s # out) ss). plain_seg x"
      by (rule Cons.IH) (use Cons.prems 4 in simp_all)
    then show ?thesis by (simp only: eq)
  qed
qed simp

lemma plain_segD:
  "plain_seg s \<Longrightarrow> s \<noteq> []" "plain_seg s \<Longrightarrow> s \<noteq> ''.''" "plain_seg s \<Longrightarrow> s \<noteq> ''..''"
  "plain_seg s \<Longrightarrow> slash \<notin> set s"
  by (simp_all add: plain_seg_def)

lemma plain_segI: "slash \<notin> set s \<Longrightarrow> s \<noteq> [] \<Longrightarrow> s \<noteq> ''.'' \<Longrightarrow> s \<noteq> ''..'' \<Longrightarrow> plain_seg s"
  by (simp only: plain_seg_def) blast

lemma clean_segs_Cons_plain:
  "plain_seg s \<Longrightarrow> clean_segs r out (s # ss) = clean_segs r (s # out) ss"
  by (simp add: plain_segD)

lemma clean_segs_id:
  "\<forall>s \<in> set ss. plain_seg s \<Longrightarrow> clean_segs r out ss = rev out @ ss"
proof (induction ss arbitrary: out)
  case (Cons s ss)
  then show ?case by (simp add: clean_segs_Cons_plain del: clean_segs.simps(2))
qed simp

text \<open>The components of a cleaned absolute path, and the path of given components.\<close>

definition comps :: "string \<Rightarrow> string list" where
  "comps p = clean_segs True [] (split_on slash p)"

definition abs_path :: "string list \<Rightarrow> string" where
  "abs_path cs = slash # join ''/'' cs"

lemma comps_plain: "\<forall>s \<in> set (comps p). plain_seg s"
  unfolding comps_def by (rule clean_segs_plain) (use split_on_no_sep in auto)

lemma clean_abs: "is_abs p \<Longrightarrow> clean p = abs_path (comps p)"
  by (auto simp: clean_def comps_def abs_path_def is_abs_def has_prefix_def Let_def)

lemma is_abs_abs_path [simp]: "is_abs (abs_path cs)"
  by (simp add: is_abs_def has_prefix_def abs_path_def)

lemma comps_abs_path: "\<forall>s \<in> set cs. plain_seg s \<Longrightarrow> comps (abs_path cs) = cs"
proof (cases cs)
  case Nil
  then show ?thesis by (simp add: comps_def abs_path_def)
next
  case (Cons c cs')
  assume plain: "\<forall>s \<in> set cs. plain_seg s"
  have "split_on slash (join ''/'' cs) = cs"
    using Cons plain by (intro split_join) (simp_all add: plain_segD)
  then show ?thesis
    using plain by (simp add: comps_def abs_path_def clean_segs_id)
qed

lemma comps_clean_abs: "is_abs p \<Longrightarrow> comps (clean p) = comps p"
  by (simp add: clean_abs comps_abs_path comps_plain)

lemma clean_idem_abs: "is_abs p \<Longrightarrow> clean (clean p) = clean p"
  by (simp add: clean_abs comps_abs_path comps_plain)

lemma clean_nonempty [simp]: "clean p \<noteq> []"
  by (simp add: clean_def Let_def)

lemma abs_path_inj:
  "\<forall>s \<in> set cs. plain_seg s \<Longrightarrow> \<forall>s \<in> set ds. plain_seg s \<Longrightarrow> abs_path cs = abs_path ds \<longleftrightarrow> cs = ds"
  by (metis comps_abs_path)

lemma is_abs_clean: "is_abs p \<Longrightarrow> is_abs (clean p)"
  by (simp add: clean_abs)

lemma is_abs_path_join: "is_abs a \<Longrightarrow> is_abs (path_join (a # es))"
proof -
  assume a: "is_abs a"
  then have ne: "a \<noteq> []" by (auto simp: is_abs_def has_prefix_def)
  have "is_abs (join ''/'' (a # es))"
    using a by (cases es) (auto simp: is_abs_def has_prefix_def)
  then show ?thesis using ne by (simp add: path_join_def is_abs_clean)
qed

lemma split_on_append: "split_on sep (a @ sep # b) = split_on sep a @ split_on sep b"
  by (induction a) (auto split: list.splits)

lemma clean_segs_append: "clean_segs r out (xs @ ys) = clean_segs r (rev (clean_segs r out xs)) ys"
  by (induction xs arbitrary: out) (auto split: list.splits)

lemma comps_child: "plain_seg x \<Longrightarrow> comps (p @ slash # x) = comps p @ [x]"
  unfolding comps_def split_on_append clean_segs_append
  by (simp add: split_on_single plain_segD)

lemma path_join_child:
  assumes "\<forall>s \<in> set cs. plain_seg s" and "plain_seg x"
  shows "path_join [abs_path cs, x] = abs_path (cs @ [x])"
proof -
  have "path_join [abs_path cs, x] = clean (abs_path cs @ slash # x)"
    by (simp add: path_join_def abs_path_def)
  also have "\<dots> = abs_path (comps (abs_path cs @ slash # x))"
    by (rule clean_abs) (simp add: abs_path_def is_abs_def has_prefix_def)
  also have "comps (abs_path cs @ slash # x) = cs @ [x]"
    using comps_child [OF assms(2)] comps_abs_path [OF assms(1)] by simp
  finally show ?thesis .
qed

lemma last_split_snoc: "c \<noteq> sep \<Longrightarrow> last (split_on sep (q @ [c])) \<noteq> []"
  by (induction q) (auto split: list.splits)

lemma base_nonempty: "base p \<noteq> []"
proof -
  define q where "q = rev (dropWhile (\<lambda>c. c = slash) (rev p))"
  have "last (split_on slash q) \<noteq> []" if ne: "q \<noteq> []"
  proof -
    from ne have "dropWhile (\<lambda>c. c = slash) (rev p) \<noteq> []" by (simp add: q_def)
    then obtain c cs where c: "dropWhile (\<lambda>c. c = slash) (rev p) = c # cs"
      by (cases "dropWhile (\<lambda>c. c = slash) (rev p)") auto
    then have "c \<noteq> slash" by (simp add: dropWhile_eq_Cons_conv)
    with c show ?thesis by (simp add: q_def last_split_snoc)
  qed
  then show ?thesis unfolding base_def Let_def q_def [symmetric] by simp
qed

lemma base_no_slash: "base p \<noteq> ''/'' \<Longrightarrow> slash \<notin> set (base p)"
proof -
  have "slash \<notin> set (last (split_on slash q))" for q
    using split_on_no_sep [of slash q] last_in_set [of "split_on slash q"] by simp
  then show "base p \<noteq> ''/'' \<Longrightarrow> slash \<notin> set (base p)"
    unfolding base_def Let_def by (simp split: if_splits)
qed

text \<open>A name that is its own base name has no separator, unless it is the root.\<close>

lemma base_id_no_slash: "base s = s \<Longrightarrow> s \<noteq> ''/'' \<Longrightarrow> slash \<notin> set s"
  by (metis base_no_slash)

lemma base_id_if_no_slash: "slash \<notin> set s \<Longrightarrow> s \<noteq> [] \<Longrightarrow> base s = s"
proof -
  assume a: "slash \<notin> set s" "s \<noteq> []"
  then have "dropWhile (\<lambda>c. c = slash) (rev s) = rev s"
    by (intro dropWhile_eq_self_iff [THEN iffD2]) (metis hd_in_set set_rev)
  with a show ?thesis by (simp add: base_def split_on_single)
qed

section \<open>Rel\<close>

fun strip_common :: "string list \<Rightarrow> string list \<Rightarrow> string list \<times> string list" where
  "strip_common (b # bs) (t # ts) = (if b = t then strip_common bs ts else (b # bs, t # ts))"
| "strip_common bs ts = (bs, ts)"

text \<open>The elements \<^verbatim>\<open>Rel\<close> compares: those of the path without its leading separator.\<close>

definition rel_elems :: "string \<Rightarrow> string list" where
  "rel_elems p = (let q = trim_prefix p ''/'' in if q = [] then [] else split_on slash q)"

definition rel :: "string \<Rightarrow> string \<Rightarrow> string option" where
  "rel basepath targpath =
     (let b = clean basepath; t = clean targpath in
      if t = b then Some ''.''
      else let b = (if b = ''.'' then [] else b) in
        if is_abs b \<noteq> is_abs t then None
        else (case strip_common (rel_elems b) (rel_elems t) of (bs, ts) \<Rightarrow>
          if bs \<noteq> [] \<and> ts \<noteq> [] \<and> hd bs = ''..'' then None
          else Some (join ''/'' (map (\<lambda>_. ''..'') bs @ ts))))"

lemma strip_common_prefix:
  "strip_common bs ts = ([], us) \<longleftrightarrow> ts = bs @ us"
  by (induction bs ts rule: strip_common.induct) auto

lemma strip_common_snd: "strip_common bs ts = (cs, us) \<Longrightarrow> set us \<subseteq> set ts"
  by (induction bs ts rule: strip_common.induct) (auto split: if_splits)

lemma strip_common_fst: "strip_common bs ts = (cs, us) \<Longrightarrow> set cs \<subseteq> set bs"
  by (induction bs ts rule: strip_common.induct) (auto split: if_splits)

lemma rel_elems_abs_path: "\<forall>s \<in> set cs. plain_seg s \<Longrightarrow> rel_elems (abs_path cs) = cs"
proof (cases "cs = []")
  case False
  assume plain: "\<forall>s \<in> set cs. plain_seg s"
  then have "split_on slash (join ''/'' cs) = cs"
    using False by (intro split_join) (simp_all add: plain_segD)
  moreover have "join ''/'' cs \<noteq> []"
    using False plain plain_segD(1) by (cases cs rule: remdups_adj.cases) auto
  ultimately show ?thesis
    by (simp add: rel_elems_def abs_path_def trim_prefix_def has_prefix_def)
qed (simp add: rel_elems_def abs_path_def trim_prefix_def has_prefix_def)

text \<open>Between absolute paths: go up from what the base has left, then down.\<close>

lemma rel_abs:
  assumes "is_abs b" and "is_abs t"
  shows "rel b t =
    (if comps t = comps b then Some ''.''
     else case strip_common (comps b) (comps t) of (bs, ts) \<Rightarrow>
       Some (join ''/'' (map (\<lambda>_. ''..'') bs @ ts)))"
proof -
  have eq: "clean t = clean b \<longleftrightarrow> comps t = comps b"
    using assms by (simp add: clean_abs abs_path_inj comps_plain)
  have ne: "clean b \<noteq> ''.''"
    using assms by (simp add: clean_abs abs_path_def)
  have el: "rel_elems (clean b) = comps b" "rel_elems (clean t) = comps t"
    using assms by (simp_all add: clean_abs rel_elems_abs_path comps_plain)
  obtain bs ts where st: "strip_common (comps b) (comps t) = (bs, ts)" by fastforce
  have dd: "\<not> (bs \<noteq> [] \<and> ts \<noteq> [] \<and> hd bs = ''..'')"
    using strip_common_fst [OF st] comps_plain [of b] hd_in_set [of bs] plain_segD(3) by blast
  show ?thesis
  proof (cases "comps t = comps b")
    case True
    with eq show ?thesis by (simp add: rel_def)
  next
    case False
    with eq have "clean t \<noteq> clean b" by simp
    moreover have "is_abs (clean b)" "is_abs (clean t)"
      using assms by (simp_all add: is_abs_clean)
    ultimately show ?thesis
      using False ne dd by (simp add: rel_def el st)
  qed
qed

section \<open>Match\<close>

text \<open>
  \<^verbatim>\<open>getEsc\<close>: one, possibly escaped, rune of a character class; \<^const>\<open>None\<close> is
  \<^verbatim>\<open>ErrBadPattern\<close>.
\<close>

definition get_esc :: "string \<Rightarrow> (nat \<times> string) option" where
  "get_esc chunk =
     (case chunk of
        [] \<Rightarrow> None
      | c # cs \<Rightarrow>
          if c = CHR ''-'' \<or> c = CHR '']'' then None
          else let body = (if c = backslash then cs else chunk) in
            if body = [] then None
            else (case decode_rune (map ord body) of (r, n) \<Rightarrow>
              if (r = rune_error \<and> n = 1) \<or> drop n body = [] then None
              else Some (r, drop n body)))"

lemma get_esc_shorter: "get_esc chunk = Some (r, rest) \<Longrightarrow> length rest < length chunk"
proof -
  assume a: "get_esc chunk = Some (r, rest)"
  then obtain c cs where chunk: "chunk = c # cs" by (cases chunk) (auto simp: get_esc_def)
  define body where "body = (if c = backslash then cs else chunk)"
  with a chunk obtain n where n: "decode_rune (map ord body) = (r, n)" "rest = drop n body" "body \<noteq> []"
    by (auto simp: get_esc_def Let_def split: if_splits prod.splits)
  then have "1 \<le> n" using decode_rune_width [of "map ord body"] by simp
  with n have "length rest < length body" by (cases body) auto
  also have "length body \<le> length chunk" by (simp add: body_def chunk)
  finally show ?thesis .
qed

text \<open>The ranges of a class after \<^verbatim>\<open>[\<close> and \<^verbatim>\<open>^\<close>: the rest after \<^verbatim>\<open>]\<close> and whether \<open>r\<close> is in.\<close>

function class_ranges :: "string \<Rightarrow> nat \<Rightarrow> bool \<Rightarrow> bool \<Rightarrow> (string \<times> bool) option" where
  "class_ranges chunk r some_range hit =
     (if chunk \<noteq> [] \<and> hd chunk = CHR '']'' \<and> some_range then Some (tl chunk, hit)
      else (case get_esc chunk of
          None \<Rightarrow> None
        | Some (lo, rest) \<Rightarrow>
            if hd rest = CHR ''-'' then
              (case get_esc (tl rest) of
                 None \<Rightarrow> None
               | Some (hi, rest') \<Rightarrow> class_ranges rest' r True (hit \<or> (lo \<le> r \<and> r \<le> hi)))
            else class_ranges rest r True (hit \<or> r = lo)))"
  by pat_completeness auto
termination
proof (relation "measure (\<lambda>(c, r, s, h). length c)", goal_cases)
  case (2 chunk r some_range hit x lo rest y hi rest')
  then have "length rest' < length (tl rest)" "length rest < length chunk"
    by (auto dest: get_esc_shorter)
  then show ?case by simp
next
  case (3 chunk r some_range hit x lo rest)
  then show ?case by (auto dest: get_esc_shorter)
qed simp

declare class_ranges.simps [simp del]

lemma class_ranges_shorter:
  "class_ranges chunk r some_range hit = Some (rest, m) \<Longrightarrow> length rest < length chunk"
proof (induction chunk r some_range hit rule: class_ranges.induct)
  case (1 chunk r some_range hit)
  show ?case
  proof (cases "chunk \<noteq> [] \<and> hd chunk = CHR '']'' \<and> some_range")
    case True
    with "1.prems" show ?thesis by (subst (asm) class_ranges.simps) (cases chunk, auto)
  next
    case False
    with "1.prems" obtain lo rest1 where g: "get_esc chunk = Some (lo, rest1)"
      by (subst (asm) class_ranges.simps) (auto split: option.splits)
    note less = get_esc_shorter [OF g]
    show ?thesis
    proof (cases "hd rest1 = CHR ''-''")
      case True
      with "1.prems" False g obtain hi rest2 where g2: "get_esc (tl rest1) = Some (hi, rest2)"
        and c: "class_ranges rest2 r True (hit \<or> (lo \<le> r \<and> r \<le> hi)) = Some (rest, m)"
        by (subst (asm) class_ranges.simps) (auto split: option.splits)
      from "1.IH"(1) [OF False g refl True g2 refl c] get_esc_shorter [OF g2] less
      show ?thesis by simp
    next
      case F: False
      with "1.prems" False g have "class_ranges rest1 r True (hit \<or> r = lo) = Some (rest, m)"
        by (subst (asm) class_ranges.simps) auto
      from "1.IH"(2) [OF False g refl F this] less show ?thesis by simp
    qed
  qed
qed

text \<open>
  \<^verbatim>\<open>matchChunk\<close>: the rest of the name after the chunk, \<^const>\<open>None\<close> when it does not match.
  A malformed chunk never matches, so \<^verbatim>\<open>ErrBadPattern\<close> and a failed match, which the only
  caller treats alike, are the same \<^const>\<open>None\<close>.
\<close>

function match_chunk :: "string \<Rightarrow> string \<Rightarrow> string option" where
  "match_chunk [] s = Some s"
| "match_chunk (c # cs) s =
     (if s = [] then None
      else if c = CHR ''['' then
        (case decode_rune (map ord s) of (r, n) \<Rightarrow>
          let neg = (cs \<noteq> [] \<and> hd cs = CHR ''^''); body = (if neg then tl cs else cs) in
          (case class_ranges body r False False of
             None \<Rightarrow> None
           | Some (rest, hit) \<Rightarrow> if hit = neg then None else match_chunk rest (drop n s)))
      else if c = CHR ''?'' then
        (if hd s = slash then None else match_chunk cs (drop (snd (decode_rune (map ord s))) s))
      else if c = backslash then
        (case cs of [] \<Rightarrow> None | d # ds \<Rightarrow> if d \<noteq> hd s then None else match_chunk ds (tl s))
      else if c \<noteq> hd s then None
      else match_chunk cs (tl s))"
  by pat_completeness auto
termination
proof (relation "measure (\<lambda>(c, s). length c)", goal_cases)
  case (2 c cs s r n neg body y rest hit)
  then have "length rest < length body" by (auto dest: class_ranges_shorter)
  moreover have "length body \<le> length cs" using 2 by simp
  ultimately show ?case by simp
qed auto

text \<open>\<^verbatim>\<open>scanChunk\<close>: whether the pattern starts with \<^verbatim>\<open>*\<close>, the next chunk, the rest.\<close>

fun scan_rest :: "bool \<Rightarrow> string \<Rightarrow> string \<times> string" where
  "scan_rest inrange [] = ([], [])"
| "scan_rest inrange (c # cs) =
     (if c = backslash then
        (case cs of [] \<Rightarrow> ([c], [])
         | d # ds \<Rightarrow> (case scan_rest inrange ds of (a, b) \<Rightarrow> (c # d # a, b)))
      else if c = CHR ''*'' \<and> \<not> inrange then ([], c # cs)
      else (case scan_rest (if c = CHR ''['' then True else if c = CHR '']'' then False else inrange) cs
            of (a, b) \<Rightarrow> (c # a, b)))"

definition scan_chunk :: "string \<Rightarrow> bool \<times> string \<times> string" where
  "scan_chunk p = (p \<noteq> [] \<and> hd p = CHR ''*'', scan_rest False (dropWhile (\<lambda>c. c = CHR ''*'') p))"

lemma scan_rest_split: "scan_rest inr p = (a, b) \<Longrightarrow> p = a @ b"
  by (induction inr p arbitrary: a b rule: scan_rest.induct)
    (auto split: if_splits list.splits prod.splits)

lemma scan_rest_nonempty: "scan_rest False p = ([], b) \<Longrightarrow> p = [] \<or> hd p = CHR ''*''"
  by (cases p) (auto split: if_splits list.splits prod.splits)

lemma scan_chunk_shorter:
  assumes "p \<noteq> []" and "scan_chunk p = (star, chunk, rest)"
  shows "length rest < length p"
proof -
  let ?q = "dropWhile (\<lambda>c. c = CHR ''*'') p"
  from assms(2) have s: "scan_rest False ?q = (chunk, rest)" by (simp add: scan_chunk_def)
  then have q: "?q = chunk @ rest" by (rule scan_rest_split)
  show ?thesis
  proof (cases "hd p = CHR ''*''")
    case True
    then have "length ?q < length p"
      using assms(1) by (cases p) (auto simp: le_imp_less_Suc length_dropWhile_le)
    with q show ?thesis by simp
  next
    case False
    then have "?q = p" using assms(1) by (cases p) auto
    moreover have "chunk \<noteq> []" using s scan_rest_nonempty False assms(1) \<open>?q = p\<close> by metis
    ultimately show ?thesis using q by (cases chunk) auto
  qed
qed

text \<open>The suffixes a star may leave: the bytes skipped hold no separator.\<close>

fun skips :: "string \<Rightarrow> string list" where
  "skips [] = []"
| "skips (c # cs) = (if c = slash then [] else cs # skips cs)"

fun first_match :: "string \<Rightarrow> bool \<Rightarrow> string list \<Rightarrow> string option" where
  "first_match chunk last_chunk [] = None"
| "first_match chunk last_chunk (s # ss) =
     (case match_chunk chunk s of
        Some t \<Rightarrow> if t = [] \<or> \<not> last_chunk then Some t else first_match chunk last_chunk ss
      | None \<Rightarrow> first_match chunk last_chunk ss)"

function glob_match :: "string \<Rightarrow> string \<Rightarrow> bool" where
  "glob_match p name =
     (if p = [] then name = []
      else (case scan_chunk p of (star, chunk, rest) \<Rightarrow>
        if star \<and> chunk = [] then slash \<notin> set name
        else (case first_match chunk (rest = []) (name # (if star then skips name else [])) of
            None \<Rightarrow> False
          | Some t \<Rightarrow> glob_match rest t)))"
  by pat_completeness auto
termination
  by (relation "measure (\<lambda>(p, n). length p)") (auto dest: scan_chunk_shorter [OF _ sym])

declare glob_match.simps [simp del]

end
