(* ===== verification/World.thy ===== *)
theory World
  imports Go_Time Go_Path "HOL-Library.AList"
begin

text \<open>
  The environment of the process: clock, randomness, cancellation of contexts, failures of system
  calls and the file system.  Every interaction consumes one tick; what the environment answers at
  tick \<open>n\<close> is an arbitrary function of \<open>n\<close>, so a theorem about all worlds is a theorem about every
  sequence of answers.  The file system is a table from resolved paths (component lists) to nodes.
\<close>

section \<open>Errors\<close>

text \<open>
  An error value.  \<open>Errorf\<close> and \<open>Wrapf\<close> carry the format literal of the source and its arguments;
  \<open>Wrapf\<close> is \<^verbatim>\<open>fmt.Errorf\<close> with a \<^verbatim>\<open>%w\<close>, \<open>Join_err\<close> is \<^verbatim>\<open>errors.Join\<close>.  The same type carries the
  warnings the reporter collects, which are the texts of errors.
\<close>

datatype err =
  Os_error string
| Not_exist
| Cancelled string
| Errorf string "string list"
| Wrapf string "string list" err
| Join_err "err list"

text \<open>\<^verbatim>\<open>errors.Is(err, os.ErrNotExist)\<close>.\<close>

fun is_not_exist :: "err \<Rightarrow> bool" where
  "is_not_exist Not_exist = True"
| "is_not_exist (Wrapf f as e) = is_not_exist e"
| "is_not_exist _ = False"

section \<open>Nodes and the file table\<close>

datatype node = Dir_node | File_node (file_data: string) | Link_node string | Special_node

type_synonym fs = "(string list \<times> node) list"

text \<open>The root directory always exists.\<close>

definition lookup :: "fs \<Rightarrow> string list \<Rightarrow> node option" where
  "lookup fs p = (if p = [] then Some Dir_node else map_of fs p)"

definition put_node :: "string list \<Rightarrow> node \<Rightarrow> fs \<Rightarrow> fs" where
  "put_node p n fs = (if p = [] then fs else AList.update p n fs)"

definition drop_node :: "string list \<Rightarrow> fs \<Rightarrow> fs" where
  "drop_node p fs = AList.delete p fs"

lemma lookup_put: "p \<noteq> [] \<Longrightarrow> lookup (put_node p n fs) q = (if q = p then Some n else lookup fs q)"
  by (simp add: lookup_def put_node_def update_conv')

lemma lookup_drop: "p \<noteq> [] \<Longrightarrow> lookup (drop_node p fs) q = (if q = p then None else lookup fs q)"
  by (simp add: lookup_def drop_node_def delete_conv')

section \<open>Path resolution\<close>

text \<open>
  The resolution of a path by the kernel: \<open>here\<close> is the resolved prefix, the list the components
  still to walk, \<open>n\<close> the number of symbolic links that may still be followed.  A missing last
  component is not an error here; the operation decides.
\<close>

function walk :: "nat \<Rightarrow> fs \<Rightarrow> bool \<Rightarrow> string list \<Rightarrow> string list \<Rightarrow> err + string list" where
  "walk n fs follow here [] = Inr here"
| "walk n fs follow here (s # rest) =
     (if s = [] \<or> s = ''.'' then walk n fs follow here rest
      else if s = ''..'' then walk n fs follow (butlast here) rest
      else (case lookup fs (here @ [s]) of
              None \<Rightarrow> if rest = [] then Inr (here @ [s]) else Inl Not_exist
            | Some Dir_node \<Rightarrow> walk n fs follow (here @ [s]) rest
            | Some (Link_node target) \<Rightarrow>
                if rest = [] \<and> \<not> follow then Inr (here @ [s])
                else if n = 0 then Inl (Os_error ''too many levels of symbolic links'')
                else walk (n - 1) fs follow (if is_abs target then [] else here)
                       (split_on slash target @ rest)
            | Some _ \<Rightarrow> if rest = [] then Inr (here @ [s]) else Inl (Os_error ''not a directory'')))"
  by pat_completeness auto
termination
  by (relation "inv_image (less_than <*lex*> less_than) (\<lambda>(n, fs, follow, here, rest). (n, length rest))")
    auto

definition link_limit :: nat where "link_limit = 40"

definition resolve_at :: "fs \<Rightarrow> bool \<Rightarrow> string \<Rightarrow> err + string list" where
  "resolve_at fs follow p = walk link_limit fs follow [] (split_on slash p)"

text \<open>The node a path names, following a final link (\<^verbatim>\<open>stat\<close>) or not (\<^verbatim>\<open>lstat\<close>).\<close>

definition node_at :: "fs \<Rightarrow> bool \<Rightarrow> string \<Rightarrow> err + node" where
  "node_at fs follow p =
     (case resolve_at fs follow p of
        Inl e \<Rightarrow> Inl e
      | Inr q \<Rightarrow> (case lookup fs q of None \<Rightarrow> Inl Not_exist | Some n \<Rightarrow> Inr n))"

text \<open>The entries of a directory, sorted by name as \<^verbatim>\<open>os.ReadDir\<close> does.\<close>

definition dir_entries :: "fs \<Rightarrow> string list \<Rightarrow> (string \<times> node) list" where
  "dir_entries fs d =
     map (\<lambda>s. (s, the (lookup fs (d @ [s]))))
       (sort (remdups (map last (filter (\<lambda>k. k \<noteq> [] \<and> butlast k = d) (map fst fs)))))"

lemma dir_entries_iff: "(s, n) \<in> set (dir_entries fs d) \<longleftrightarrow> lookup fs (d @ [s]) = Some n"
proof -
  have "s \<in> set (map last (filter (\<lambda>k. k \<noteq> [] \<and> butlast k = d) (map fst fs))) \<longleftrightarrow> d @ [s] \<in> set (map fst fs)"
  proof
    assume "s \<in> set (map last (filter (\<lambda>k. k \<noteq> [] \<and> butlast k = d) (map fst fs)))"
    then obtain k where "k \<in> set (map fst fs)" "k \<noteq> []" "butlast k = d" "s = last k" by auto
    then show "d @ [s] \<in> set (map fst fs)" by (metis append_butlast_last_id)
  next
    assume "d @ [s] \<in> set (map fst fs)"
    then show "s \<in> set (map last (filter (\<lambda>k. k \<noteq> [] \<and> butlast k = d) (map fst fs)))"
      by (force simp: image_iff)
  qed
  moreover have "d @ [s] \<in> set (map fst fs) \<longleftrightarrow> lookup fs (d @ [s]) \<noteq> None"
    by (simp add: lookup_def map_of_eq_None_iff)
  ultimately have dom: "s \<in> set (map last (filter (\<lambda>k. k \<noteq> [] \<and> butlast k = d) (map fst fs)))
      \<longleftrightarrow> lookup fs (d @ [s]) \<noteq> None" by blast
  have "(s, n) \<in> set (dir_entries fs d) \<longleftrightarrow>
      s \<in> set (map last (filter (\<lambda>k. k \<noteq> [] \<and> butlast k = d) (map fst fs))) \<and> n = the (lookup fs (d @ [s]))"
    by (auto simp: dir_entries_def)
  then show ?thesis using dom by auto
qed

section \<open>The world\<close>

record world =
  w_tick :: nat
  w_now_at :: "nat \<Rightarrow> gtime"
  w_rand_at :: "nat \<Rightarrow> err + (nat \<Rightarrow> 8 word)"
  w_temp_at :: "nat \<Rightarrow> nat \<Rightarrow> nat"
  w_fault_at :: "nat \<Rightarrow> err option"
  w_done_at :: "nat \<Rightarrow> nat \<Rightarrow> err option"
  w_cwd :: string
  w_home :: string
  w_fs :: fs

definition tick :: "world \<Rightarrow> world" where
  "tick w = w\<lparr>w_tick := Suc (w_tick w)\<rparr>"

text \<open>The part of a world that no operation changes: the answers of the environment.\<close>

definition same_env :: "world \<Rightarrow> world \<Rightarrow> bool" where
  "same_env w v \<longleftrightarrow> w_now_at v = w_now_at w \<and> w_rand_at v = w_rand_at w \<and> w_temp_at v = w_temp_at w \<and>
     w_fault_at v = w_fault_at w \<and> w_done_at v = w_done_at w \<and> w_cwd v = w_cwd w \<and> w_home v = w_home w"

text \<open>\<open>advances w v\<close>: a world \<open>v\<close> later than \<open>w\<close>, with the same file system.\<close>

definition advances :: "world \<Rightarrow> world \<Rightarrow> bool" where
  "advances w v \<longleftrightarrow> same_env w v \<and> w_tick w \<le> w_tick v"

definition quiet :: "world \<Rightarrow> world \<Rightarrow> bool" where
  "quiet w v \<longleftrightarrow> advances w v \<and> w_fs v = w_fs w"

lemma same_env_refl [simp]: "same_env w w" by (simp add: same_env_def)

lemma same_env_trans: "same_env a b \<Longrightarrow> same_env b c \<Longrightarrow> same_env a c"
  by (simp add: same_env_def)

lemma advances_refl [simp, world_frame]: "advances w w" by (simp add: advances_def)

lemma advances_trans [world_frame]: "advances a b \<Longrightarrow> advances b c \<Longrightarrow> advances a c"
  by (auto simp: advances_def intro: same_env_trans)

lemma quiet_refl [simp, world_frame]: "quiet w w" by (simp add: quiet_def)

lemma quiet_trans [world_frame]: "quiet a b \<Longrightarrow> quiet b c \<Longrightarrow> quiet a c"
  by (auto simp: quiet_def intro: advances_trans)

lemma quiet_advances: "quiet a b \<Longrightarrow> advances a b" by (simp add: quiet_def)

lemma quiet_tick [simp, world_frame]: "quiet w (tick w)"
  by (simp add: quiet_def advances_def same_env_def tick_def)

lemma tick_simps [simp]:
  "w_fs (tick w) = w_fs w" "w_tick (tick w) = Suc (w_tick w)" "w_rand_at (tick w) = w_rand_at w"
  "w_fault_at (tick w) = w_fault_at w" "w_done_at (tick w) = w_done_at w" "w_now_at (tick w) = w_now_at w"
  "w_temp_at (tick w) = w_temp_at w" "w_cwd (tick w) = w_cwd w" "w_home (tick w) = w_home w"
  by (simp_all add: tick_def)

definition set_fs :: "fs \<Rightarrow> world \<Rightarrow> world" where
  "set_fs fs w = w\<lparr>w_fs := fs\<rparr>"

lemma set_fs_simps [simp]:
  "w_fs (set_fs fs w) = fs" "w_tick (set_fs fs w) = w_tick w" "w_rand_at (set_fs fs w) = w_rand_at w"
  "w_fault_at (set_fs fs w) = w_fault_at w" "w_done_at (set_fs fs w) = w_done_at w"
  "w_now_at (set_fs fs w) = w_now_at w" "w_temp_at (set_fs fs w) = w_temp_at w"
  "w_cwd (set_fs fs w) = w_cwd w" "w_home (set_fs fs w) = w_home w"
  by (simp_all add: set_fs_def)

lemma advances_set_fs [simp, world_frame]: "advances w (set_fs fs w)"
  by (simp add: advances_def same_env_def)

section \<open>Clock and cancellation\<close>

definition now :: "world \<Rightarrow> gtime \<times> world" where
  "now w = (w_now_at w (w_tick w), tick w)"

text \<open>A context is \<^const>\<open>None\<close> for a nil \<^verbatim>\<open>context.Context\<close>, otherwise the identity of the context.\<close>

type_synonym ctx = "nat option"

definition context_error :: "ctx \<Rightarrow> world \<Rightarrow> err option \<times> world" where
  "context_error c w =
     (case c of None \<Rightarrow> (None, w) | Some i \<Rightarrow> (w_done_at w (w_tick w) i, tick w))"

lemma quiet_now [world_frame]: "quiet w (snd (now w))" by (simp add: now_def)

lemma quiet_context [world_frame]: "quiet w (snd (context_error c w))"
  by (simp add: context_error_def split: option.split)

section \<open>System calls\<close>

text \<open>
  A system call fails with the fault the environment injects at its tick, otherwise it does what its
  argument says on the file system.
\<close>

definition sys_call :: "(fs \<Rightarrow> (err + 'a) \<times> fs) \<Rightarrow> world \<Rightarrow> (err + 'a) \<times> world" where
  "sys_call f w =
     (case w_fault_at w (w_tick w) of
        Some e \<Rightarrow> (Inl e, tick w)
      | None \<Rightarrow> (case f (w_fs w) of (r, fs) \<Rightarrow> (r, set_fs fs (tick w))))"

definition sys_read :: "(fs \<Rightarrow> err + 'a) \<Rightarrow> world \<Rightarrow> (err + 'a) \<times> world" where
  "sys_read f w =
     (case w_fault_at w (w_tick w) of
        Some e \<Rightarrow> (Inl e, tick w)
      | None \<Rightarrow> (f (w_fs w), tick w))"

lemma quiet_sys_read [world_frame]: "quiet w (snd (sys_read f w))"
  by (simp add: sys_read_def split: option.split)

lemma advances_tick: "advances w (tick w)"
  using quiet_tick quiet_advances by blast

lemma advances_sys_call [world_frame]: "advances w (snd (sys_call f w))"
proof -
  have "advances w (set_fs fs (tick w))" for fs
    using advances_tick advances_set_fs advances_trans by blast
  then show ?thesis
    using advances_tick by (auto simp: sys_call_def split: option.split prod.split)
qed

definition os_lstat :: "string \<Rightarrow> world \<Rightarrow> (err + node) \<times> world" where
  "os_lstat p = sys_read (\<lambda>fs. node_at fs False p)"

definition os_stat :: "string \<Rightarrow> world \<Rightarrow> (err + node) \<times> world" where
  "os_stat p = sys_read (\<lambda>fs. node_at fs True p)"

definition os_read_file :: "string \<Rightarrow> world \<Rightarrow> (err + string) \<times> world" where
  "os_read_file p = sys_read (\<lambda>fs. case node_at fs True p of
       Inl e \<Rightarrow> Inl e
     | Inr (File_node data) \<Rightarrow> Inr data
     | Inr Dir_node \<Rightarrow> Inl (Os_error ''is a directory'')
     | Inr _ \<Rightarrow> Inl (Os_error ''not readable''))"

text \<open>\<^verbatim>\<open>filepath.EvalSymlinks\<close>: the resolved path, which must exist.\<close>

definition eval_symlinks :: "string \<Rightarrow> world \<Rightarrow> (err + string) \<times> world" where
  "eval_symlinks p = sys_read (\<lambda>fs. case resolve_at fs True p of
       Inl e \<Rightarrow> Inl e
     | Inr q \<Rightarrow> (case lookup fs q of None \<Rightarrow> Inl Not_exist | Some _ \<Rightarrow> Inr (abs_path q)))"

definition os_read_dir :: "string \<Rightarrow> world \<Rightarrow> (err + (string \<times> node) list) \<times> world" where
  "os_read_dir p = sys_read (\<lambda>fs. case resolve_at fs True p of
       Inl e \<Rightarrow> Inl e
     | Inr q \<Rightarrow> (case lookup fs q of
          None \<Rightarrow> Inl Not_exist
        | Some Dir_node \<Rightarrow> Inr (dir_entries fs q)
        | Some _ \<Rightarrow> Inl (Os_error ''not a directory'')))"

text \<open>\<^verbatim>\<open>os.MkdirAll\<close>: the missing directories of the path, outermost first.\<close>

fun mkdirs :: "string list \<Rightarrow> string list \<Rightarrow> fs \<Rightarrow> (err + unit) \<times> fs" where
  "mkdirs here [] fs = (Inr (), fs)"
| "mkdirs here (s # rest) fs =
     (case walk link_limit fs True here [s] of
        Inl e \<Rightarrow> (Inl e, fs)
      | Inr q \<Rightarrow>
          (case lookup fs q of
             Some Dir_node \<Rightarrow> mkdirs q rest fs
           | Some _ \<Rightarrow> (Inl (Os_error ''not a directory''), fs)
           | None \<Rightarrow>
               if q = here @ [s] then mkdirs q rest (put_node q Dir_node fs)
               else (Inl (Os_error ''file exists''), fs)))"

definition os_mkdir_all :: "string \<Rightarrow> world \<Rightarrow> (err + unit) \<times> world" where
  "os_mkdir_all p = sys_call (mkdirs [] (comps p))"

text \<open>\<^verbatim>\<open>os.Remove\<close> of a file or a link, or of an empty directory.\<close>

definition remove_node :: "string \<Rightarrow> fs \<Rightarrow> (err + unit) \<times> fs" where
  "remove_node p fs =
     (case resolve_at fs False p of
        Inl e \<Rightarrow> (Inl e, fs)
      | Inr q \<Rightarrow> (case lookup fs q of
          None \<Rightarrow> (Inl Not_exist, fs)
        | Some Dir_node \<Rightarrow>
            if q = [] \<or> dir_entries fs q \<noteq> [] then (Inl (Os_error ''directory not empty''), fs)
            else (Inr (), drop_node q fs)
        | Some _ \<Rightarrow> (Inr (), drop_node q fs)))"

definition os_remove :: "string \<Rightarrow> world \<Rightarrow> (err + unit) \<times> world" where
  "os_remove p = sys_call (remove_node p)"

text \<open>\<^verbatim>\<open>os.WriteFile\<close>: create or truncate, following a final link.\<close>

definition write_node :: "string \<Rightarrow> string \<Rightarrow> fs \<Rightarrow> (err + unit) \<times> fs" where
  "write_node p data fs =
     (case resolve_at fs True p of
        Inl e \<Rightarrow> (Inl e, fs)
      | Inr q \<Rightarrow> (case lookup fs q of
          Some Dir_node \<Rightarrow> (Inl (Os_error ''is a directory''), fs)
        | Some Special_node \<Rightarrow> (Inr (), fs)
        | Some (Link_node _) \<Rightarrow> (Inl (Os_error ''too many levels of symbolic links''), fs)
        | _ \<Rightarrow> (Inr (), put_node q (File_node data) fs)))"

definition os_write_file :: "string \<Rightarrow> string \<Rightarrow> world \<Rightarrow> (err + unit) \<times> world" where
  "os_write_file p data = sys_call (write_node p data)"

text \<open>
  \<^verbatim>\<open>os.CreateTemp\<close>: an empty file whose name is the prefix and a number the environment chooses; a
  name in use is refused by the exclusive creation, and the next suffix is tried, 10000 times at most.
\<close>

function try_temp :: "nat \<Rightarrow> (nat \<Rightarrow> nat) \<Rightarrow> string list \<Rightarrow> string \<Rightarrow> fs \<Rightarrow> (err + string) \<times> fs" where
  "try_temp attempt pick d pre fs =
     (if 10000 \<le> int attempt then (Inl (Os_error ''file exists''), fs)
      else let name = pre @ show_nat (pick attempt) in
        if lookup fs (d @ [name]) = None then (Inr name, put_node (d @ [name]) (File_node []) fs)
        else try_temp (Suc attempt) pick d pre fs)"
  by pat_completeness auto
termination
  by (relation "measure (\<lambda>(attempt, pick, d, pre, fs). 10000 - attempt)") auto

declare try_temp.simps [simp del]

definition create_temp :: "(nat \<Rightarrow> nat) \<Rightarrow> string \<Rightarrow> string \<Rightarrow> fs \<Rightarrow> (err + string) \<times> fs" where
  "create_temp pick d pre fs =
     (if slash \<in> set pre then (Inl (Os_error ''pattern contains path separator''), fs)
      else case resolve_at fs True d of
        Inl e \<Rightarrow> (Inl e, fs)
      | Inr q \<Rightarrow>
          if lookup fs q = Some Dir_node then
            (case try_temp 0 pick q pre fs of
               (Inl e, fs') \<Rightarrow> (Inl e, fs')
             | (Inr name, fs') \<Rightarrow> (Inr (path_join [d, name]), fs'))
          else (Inl Not_exist, fs))"

definition os_create_temp :: "string \<Rightarrow> string \<Rightarrow> world \<Rightarrow> (err + string) \<times> world" where
  "os_create_temp d pre w = sys_call (create_temp (w_temp_at w (w_tick w)) d pre) w"

text \<open>Writing to an open file; what has been written when a fault strikes is lost with the file.\<close>

definition append_node :: "string \<Rightarrow> string \<Rightarrow> fs \<Rightarrow> (err + unit) \<times> fs" where
  "append_node p data fs =
     (case resolve_at fs False p of
        Inl e \<Rightarrow> (Inl e, fs)
      | Inr q \<Rightarrow> (case lookup fs q of
          Some (File_node old) \<Rightarrow> (Inr (), put_node q (File_node (old @ data)) fs)
        | _ \<Rightarrow> (Inl (Os_error ''bad file descriptor''), fs)))"

definition os_append :: "string \<Rightarrow> string \<Rightarrow> world \<Rightarrow> (err + unit) \<times> world" where
  "os_append p data = sys_call (append_node p data)"

text \<open>\<^verbatim>\<open>os.Rename\<close>: one atomic step of the file table; a directory is not replaced.\<close>

definition rename_node :: "string \<Rightarrow> string \<Rightarrow> fs \<Rightarrow> (err + unit) \<times> fs" where
  "rename_node src dst fs =
     (case (resolve_at fs False src, resolve_at fs False dst) of
        (Inr p, Inr q) \<Rightarrow>
          (case lookup fs p of
             None \<Rightarrow> (Inl Not_exist, fs)
           | Some n \<Rightarrow>
               if lookup fs q = Some Dir_node then (Inl (Os_error ''file exists''), fs)
               else (Inr (), put_node q n (drop_node p fs)))
      | (Inl e, _) \<Rightarrow> (Inl e, fs)
      | (_, Inl e) \<Rightarrow> (Inl e, fs))"

definition os_rename :: "string \<Rightarrow> string \<Rightarrow> world \<Rightarrow> (err + unit) \<times> world" where
  "os_rename src dst = sys_call (rename_node src dst)"

text \<open>A call that only succeeds or fails (\<^verbatim>\<open>Chmod\<close>, \<^verbatim>\<open>Sync\<close>, \<^verbatim>\<open>Close\<close>).\<close>

definition os_check :: "world \<Rightarrow> (err + unit) \<times> world" where
  "os_check = sys_read (\<lambda>fs. Inr ())"

lemma quiet_reads [world_frame]:
  "quiet w (snd (os_lstat p w))" "quiet w (snd (os_stat p w))" "quiet w (snd (os_read_file p w))"
  "quiet w (snd (eval_symlinks p w))" "quiet w (snd (os_read_dir p w))" "quiet w (snd (os_check w))"
  by (simp_all add: os_lstat_def os_stat_def os_read_file_def eval_symlinks_def os_read_dir_def
      os_check_def quiet_sys_read)

lemma advances_calls [world_frame]:
  "advances w (snd (os_mkdir_all p w))" "advances w (snd (os_remove p w))"
  "advances w (snd (os_write_file p data w))" "advances w (snd (os_create_temp d pre w))"
  "advances w (snd (os_append p data w))" "advances w (snd (os_rename src dst w))"
  by (simp_all add: os_mkdir_all_def os_remove_def os_write_file_def os_create_temp_def os_append_def
      os_rename_def advances_sys_call)

text \<open>\<^verbatim>\<open>filepath.Abs\<close>: only a relative path needs the working directory.\<close>

definition filepath_abs :: "string \<Rightarrow> world \<Rightarrow> (err + string) \<times> world" where
  "filepath_abs p w =
     (if is_abs p then (Inr (clean p), w)
      else sys_read (\<lambda>fs. Inr (path_join [w_cwd w, p])) w)"

lemma quiet_filepath_abs [world_frame]: "quiet w (snd (filepath_abs p w))"
  by (simp add: filepath_abs_def quiet_sys_read)

section \<open>Facts on path resolution\<close>

text \<open>
  Resolution consults directories and links only, so a change of the table that keeps them keeps every
  successful resolution of a directory.
\<close>

definition keeps_dirs :: "fs \<Rightarrow> fs \<Rightarrow> bool" where
  "keeps_dirs fs fs' \<longleftrightarrow>
     (\<forall>q. lookup fs q = Some Dir_node \<or> (\<exists>t. lookup fs q = Some (Link_node t)) \<longrightarrow> lookup fs' q = lookup fs q)"

lemma keeps_dirs_refl [simp]: "keeps_dirs fs fs" by (simp add: keeps_dirs_def)

lemma keeps_dirs_trans: "keeps_dirs a b \<Longrightarrow> keeps_dirs b c \<Longrightarrow> keeps_dirs a c"
  by (simp add: keeps_dirs_def)

lemma walk_keeps:
  "keeps_dirs fs fs' \<Longrightarrow> walk n fs True here xs = Inr d \<Longrightarrow> lookup fs d = Some Dir_node
     \<Longrightarrow> walk n fs' True here xs = Inr d"
proof (induction n fs True here xs rule: walk.induct)
  case (2 n fs here s rest)
  have k: "lookup fs q = Some Dir_node \<or> (\<exists>t. lookup fs q = Some (Link_node t)) \<Longrightarrow> lookup fs' q = lookup fs q" for q
    using "2.prems"(1) unfolding keeps_dirs_def by blast
  show ?case
  proof (cases "s = [] \<or> s = ''.'' \<or> s = ''..''")
    case True
    then show ?thesis using 2 by auto
  next
    case False
    then show ?thesis
      using 2 k [of "here @ [s]"] by (auto split: option.splits node.splits if_splits)
  qed
qed simp

lemma walk_child:
  assumes "plain_seg s"
  shows "walk n fs True here xs = Inr d \<Longrightarrow> lookup fs d = Some Dir_node \<Longrightarrow> walk n fs False here (xs @ [s]) = Inr (d @ [s])"
proof (induction n fs True here xs rule: walk.induct)
  case (1 n fs here)
  then show ?case using plain_segD [OF assms] by (auto split: option.split node.split)
next
  case (2 n fs here x rest)
  show ?case
  proof (cases "x = [] \<or> x = ''.'' \<or> x = ''..''")
    case True
    then show ?thesis using 2 by auto
  next
    case False
    then show ?thesis
      using 2 by (auto split: option.splits node.splits if_splits)
  qed
qed

lemma walk_child_inv:
  assumes "plain_seg s"
  shows "walk n fs True here (xs @ [s]) = Inr q \<Longrightarrow>
    \<exists>d. walk n fs True here xs = Inr d \<and>
        ((q = d @ [s] \<and> (\<forall>t. lookup fs q \<noteq> Some (Link_node t))) \<or> (\<exists>t. lookup fs (d @ [s]) = Some (Link_node t)))"
proof (induction n fs True here xs rule: walk.induct)
  case (1 n fs here)
  then show ?case using plain_segD [OF assms] by (auto split: option.splits node.splits)
next
  case (2 n fs here x rest)
  show ?case
  proof (cases "x = [] \<or> x = ''.'' \<or> x = ''..''")
    case True
    then show ?thesis using 2 by auto
  next
    case False
    then show ?thesis
      using 2 by (auto split: option.splits node.splits if_splits)
  qed
qed

lemma walk_skip_slash: "walk n fs f here ([] # xs) = walk n fs f here xs"
  by simp

lemma resolve_abs_path:
  assumes "\<forall>s \<in> set cs. plain_seg s"
  shows "resolve_at fs f (abs_path cs) = walk link_limit fs f [] cs"
proof (cases "cs = []")
  case True
  then show ?thesis by (simp add: resolve_at_def abs_path_def)
next
  case False
  have ns: "\<forall>s \<in> set cs. slash \<notin> set s"
    using assms by (auto dest: plain_segD(4))
  have "split_on slash (abs_path cs) = [] # cs"
    using split_join [OF False ns] by (simp add: abs_path_def split: list.split)
  then show ?thesis by (simp add: resolve_at_def)
qed

section \<open>What system calls do to the file table\<close>

lemma sys_callE:
  assumes "sys_call f w = (r, w')"
  obtains (fault) e where "r = Inl e" "w_fs w' = w_fs w" "w_fault_at w (w_tick w) = Some e"
  | (ran) "f (w_fs w) = (r, w_fs w')"
  using assms by (auto simp: sys_call_def split: option.splits prod.splits)

text \<open>
  \<open>grown fs fs' q\<close>: at \<open>q\<close> nothing changed, except that a directory may have been created.
\<close>

definition grown :: "fs \<Rightarrow> fs \<Rightarrow> string list \<Rightarrow> bool" where
  "grown fs fs' q \<longleftrightarrow> lookup fs' q = lookup fs q \<or> (lookup fs q = None \<and> lookup fs' q = Some Dir_node)"

lemma grown_refl [simp]: "grown fs fs q" by (simp add: grown_def)

lemma grown_trans: "grown a b q \<Longrightarrow> grown b c q \<Longrightarrow> grown a c q"
  by (auto simp: grown_def)

lemma grown_same: "grown a b q \<Longrightarrow> lookup c q = lookup b q \<Longrightarrow> grown a c q"
  by (simp add: grown_def)

lemma grown_None: "grown a b q \<Longrightarrow> lookup b q = None \<Longrightarrow> lookup a q = None"
  by (auto simp: grown_def)

lemma grown_keeps_dirs: "(\<And>q. grown a b q) \<Longrightarrow> keeps_dirs a b"
  unfolding grown_def keeps_dirs_def by (metis option.distinct(1))

lemma mkdirs_grown: "mkdirs here xs fs = (r, fs') \<Longrightarrow> grown fs fs' q"
proof (induction here xs fs arbitrary: r fs' rule: mkdirs.induct)
  case (2 here s rest fs)
  show ?case
  proof (cases "walk link_limit fs True here [s]")
    case (Inl e)
    then show ?thesis using "2.prems" by simp
  next
    case (Inr p)
    note walk = this
    show ?thesis
    proof (cases "lookup fs p")
      case None
      show ?thesis
      proof (cases "p = here @ [s]")
        case True
        have "grown (put_node p Dir_node fs) fs' q"
          using "2.IH"(1) [OF walk None True] "2.prems" walk None True by simp
        moreover have "grown fs (put_node p Dir_node fs) q"
          using None True by (simp add: grown_def lookup_put)
        ultimately show ?thesis by (rule grown_trans [rotated])
      next
        case False
        then show ?thesis using "2.prems" walk None by simp
      qed
    next
      case (Some n)
      then show ?thesis using 2 walk by (cases n) auto
    qed
  qed
qed simp

lemma os_mkdir_all_grown: "os_mkdir_all p w = (r, w') \<Longrightarrow> grown (w_fs w) (w_fs w') q"
  unfolding os_mkdir_all_def by (erule sys_callE) (auto intro: mkdirs_grown)

text \<open>Well-formed tables: every component of every path is a plain name.\<close>

definition fs_ok :: "fs \<Rightarrow> bool" where
  "fs_ok fs \<longleftrightarrow> (\<forall>q n. lookup fs q = Some n \<longrightarrow> (\<forall>s \<in> set q. plain_seg s))"

lemma fs_ok_put: "fs_ok fs \<Longrightarrow> \<forall>s \<in> set p. plain_seg s \<Longrightarrow> fs_ok (put_node p n fs)"
  unfolding fs_ok_def by (metis lookup_put put_node_def)

lemma mkdirs_fs_ok:
  "mkdirs here xs fs = (r, fs') \<Longrightarrow> fs_ok fs \<Longrightarrow> \<forall>s \<in> set here. plain_seg s \<Longrightarrow> \<forall>s \<in> set xs. plain_seg s
     \<Longrightarrow> fs_ok fs'"
proof (induction here xs fs arbitrary: r fs' rule: mkdirs.induct)
  case (2 here s rest fs)
  show ?case
  proof (cases "walk link_limit fs True here [s]")
    case (Inl e)
    then show ?thesis using "2.prems" by simp
  next
    case (Inr p)
    note walk = this
    show ?thesis
    proof (cases "lookup fs p")
      case None
      show ?thesis
      proof (cases "p = here @ [s]")
        case True
        then have plain: "\<forall>x \<in> set p. plain_seg x" using "2.prems"(3,4) by simp
        then show ?thesis
          using "2.IH"(1) [OF walk None True _ fs_ok_put [OF "2.prems"(2) plain] plain] "2.prems" walk None True by simp
      next
        case False
        then show ?thesis using "2.prems" walk None by simp
      qed
    next
      case (Some n)
      then have "\<forall>x \<in> set p. plain_seg x" using "2.prems"(2) unfolding fs_ok_def by blast
      then show ?thesis using 2 walk Some by (cases n) auto
    qed
  qed
qed simp

text \<open>The path of a child of a directory that resolves, in any table that keeps the directories.\<close>

lemma resolve_child:
  assumes "\<forall>s \<in> set ds. plain_seg s" and "plain_seg x"
    and "resolve_at fs True (abs_path ds) = Inr d" and "lookup fs d = Some Dir_node" and "keeps_dirs fs fs'"
  shows "resolve_at fs' False (path_join [abs_path ds, x]) = Inr (d @ [x])"
proof -
  have "walk link_limit fs True [] ds = Inr d"
    using assms(3) resolve_abs_path [OF assms(1)] by simp
  then have "walk link_limit fs' True [] ds = Inr d"
    using walk_keeps assms(4,5) by blast
  moreover have "lookup fs' d = Some Dir_node"
    using assms(4,5) unfolding keeps_dirs_def by simp
  ultimately have "walk link_limit fs' False [] (ds @ [x]) = Inr (d @ [x])"
    using walk_child [OF assms(2)] by blast
  moreover have "\<forall>s \<in> set (ds @ [x]). plain_seg s" using assms(1,2) by simp
  ultimately show ?thesis
    using resolve_abs_path [of "ds @ [x]"] path_join_child [OF assms(1,2)] by simp
qed

lemma resolve_keeps:
  assumes "\<forall>s \<in> set ds. plain_seg s" and "resolve_at fs True (abs_path ds) = Inr d"
    and "lookup fs d = Some Dir_node" and "keeps_dirs fs fs'"
  shows "resolve_at fs' True (abs_path ds) = Inr d"
  using walk_keeps assms resolve_abs_path [OF assms(1)] by metis

lemma try_temp_Inr:
  "try_temp n pick d pre fs = (Inr name, fs') \<Longrightarrow>
     (\<exists>k. name = pre @ show_nat k) \<and> lookup fs (d @ [name]) = None \<and>
     fs' = put_node (d @ [name]) (File_node []) fs"
proof (induction n pick d pre fs rule: try_temp.induct)
  case (1 n pick d pre fs)
  then show ?case
    by (subst (asm) (2) try_temp.simps) (auto simp: Let_def split: if_splits)
qed

lemma try_temp_Inl: "try_temp n pick d pre fs = (Inl e, fs') \<Longrightarrow> fs' = fs"
proof (induction n pick d pre fs rule: try_temp.induct)
  case (1 n pick d pre fs)
  then show ?case
    by (subst (asm) (2) try_temp.simps) (auto simp: Let_def split: if_splits)
qed

lemma create_temp_Inr:
  assumes "create_temp pick dir pre fs = (Inr p, fs')"
  obtains d name k where "resolve_at fs True dir = Inr d" "lookup fs d = Some Dir_node" "name = pre @ show_nat k"
    "p = path_join [dir, name]" "lookup fs (d @ [name]) = None" "fs' = put_node (d @ [name]) (File_node []) fs"
    "slash \<notin> set pre"
  using assms unfolding create_temp_def
  by (auto split: if_splits sum.splits prod.splits dest!: try_temp_Inr)

lemma create_temp_Inl: "create_temp pick dir pre fs = (Inl e, fs') \<Longrightarrow> fs' = fs"
  unfolding create_temp_def
  by (auto split: if_splits sum.splits prod.splits dest!: try_temp_Inl)

lemma sys_read_fs: "w_fs (snd (sys_read f w)) = w_fs w"
  using quiet_sys_read [of w f] by (simp add: quiet_def)

lemma world_step:
  "os_mkdir_all p w = (r1, v) \<Longrightarrow> advances w v" "os_remove p w = (r2, v) \<Longrightarrow> advances w v"
  "os_write_file p data w = (r3, v) \<Longrightarrow> advances w v" "os_create_temp d pre w = (r4, v) \<Longrightarrow> advances w v"
  "os_append p data w = (r5, v) \<Longrightarrow> advances w v" "os_rename src dst w = (r6, v) \<Longrightarrow> advances w v"
  "os_check w = (r7, v) \<Longrightarrow> advances w v" "context_error c w = (r8, v) \<Longrightarrow> advances w v"
  "os_read_file p w = (r9, v) \<Longrightarrow> advances w v" "os_read_dir p w = (r10, v) \<Longrightarrow> advances w v"
  "os_lstat p w = (r11, v) \<Longrightarrow> advances w v" "os_stat p w = (r12, v) \<Longrightarrow> advances w v"
  "eval_symlinks p w = (r13, v) \<Longrightarrow> advances w v" "filepath_abs p w = (r14, v) \<Longrightarrow> advances w v"
  "now w = (r15, v) \<Longrightarrow> advances w v"
  using advances_calls [of w] quiet_reads [of w] quiet_context [of w] quiet_filepath_abs [of w] quiet_now [of w]
    quiet_advances
  by (metis snd_conv)+

lemma advances_env:
  "advances w v \<Longrightarrow> w_fault_at v = w_fault_at w" "advances w v \<Longrightarrow> w_rand_at v = w_rand_at w"
  "advances w v \<Longrightarrow> w_now_at v = w_now_at w" "advances w v \<Longrightarrow> w_done_at v = w_done_at w"
  "advances w v \<Longrightarrow> w_tick w \<le> w_tick v" "advances w v \<Longrightarrow> w_home v = w_home w"
  by (simp_all add: advances_def same_env_def)

text \<open>
  A concrete environment for the witnesses: nothing fails, nothing is cancelled, time stands one
  second after the epoch, and the random bytes count the ticks.
\<close>

definition calm_world :: "fs \<Rightarrow> world" where
  "calm_world fs = \<lparr>w_tick = 0, w_now_at = \<lambda>t. unix_time 1 0,
     w_rand_at = \<lambda>t. Inr (\<lambda>i. word_of_nat (t + i)), w_temp_at = \<lambda>t i. t + i,
     w_fault_at = \<lambda>t. None, w_done_at = \<lambda>t i. None, w_cwd = ''/'', w_home = ''/home'', w_fs = fs\<rparr>"

definition ascii_tables :: unicode where
  "ascii_tables = \<lparr>u_lower = \<lambda>r. r, u_fold = \<lambda>a b. False\<rparr>"

end
