(* ===== verification/Go_Codec.thy ===== *)
theory Go_Codec
  imports Go_Strings
begin

unbundle bit_operations_syntax

text \<open>
  The encoders of the standard library the program calls: SHA-256 (\<^verbatim>\<open>crypto/sha256\<close>), hexadecimal
  (\<^verbatim>\<open>encoding/hex\<close> and \<^verbatim>\<open>%x\<close>), URL escaping (\<^verbatim>\<open>net/url\<close>) and JSON strings
  (\<^verbatim>\<open>encoding/json\<close>).  All are executable; the lemmas give the shape of their output.
\<close>

section \<open>SHA-256\<close>

definition sha_k :: "32 word list" where
  "sha_k =
     [0x428A2F98, 0x71374491, 0xB5C0FBCF, 0xE9B5DBA5, 0x3956C25B, 0x59F111F1, 0x923F82A4, 0xAB1C5ED5,
      0xD807AA98, 0x12835B01, 0x243185BE, 0x550C7DC3, 0x72BE5D74, 0x80DEB1FE, 0x9BDC06A7, 0xC19BF174,
      0xE49B69C1, 0xEFBE4786, 0x0FC19DC6, 0x240CA1CC, 0x2DE92C6F, 0x4A7484AA, 0x5CB0A9DC, 0x76F988DA,
      0x983E5152, 0xA831C66D, 0xB00327C8, 0xBF597FC7, 0xC6E00BF3, 0xD5A79147, 0x06CA6351, 0x14292967,
      0x27B70A85, 0x2E1B2138, 0x4D2C6DFC, 0x53380D13, 0x650A7354, 0x766A0ABB, 0x81C2C92E, 0x92722C85,
      0xA2BFE8A1, 0xA81A664B, 0xC24B8B70, 0xC76C51A3, 0xD192E819, 0xD6990624, 0xF40E3585, 0x106AA070,
      0x19A4C116, 0x1E376C08, 0x2748774C, 0x34B0BCB5, 0x391C0CB3, 0x4ED8AA4A, 0x5B9CCA4F, 0x682E6FF3,
      0x748F82EE, 0x78A5636F, 0x84C87814, 0x8CC70208, 0x90BEFFFA, 0xA4506CEB, 0xBEF9A3F7, 0xC67178F2]"

definition sha_init :: "32 word list" where
  "sha_init = [0x6A09E667, 0xBB67AE85, 0x3C6EF372, 0xA54FF53A,
      0x510E527F, 0x9B05688C, 0x1F83D9AB, 0x5BE0CD19]"

definition be_bytes :: "nat \<Rightarrow> nat \<Rightarrow> nat list" where
  "be_bytes k n = map (\<lambda>i. n div 256 ^ (k - 1 - i) mod 256) [0..<k]"

definition sha_pad :: "nat list \<Rightarrow> nat list" where
  "sha_pad m = m @ [128] @ replicate ((119 - length m mod 64) mod 64) 0 @ be_bytes 8 (8 * length m)"

fun be_words :: "nat list \<Rightarrow> 32 word list" where
  "be_words (a # b # c # d # rest) =
     word_of_nat (((a * 256 + b) * 256 + c) * 256 + d) # be_words rest"
| "be_words _ = []"

text \<open>The message schedule, newest word first.\<close>

definition sched_step :: "32 word list \<Rightarrow> 32 word list" where
  "sched_step ws =
     (let w2 = ws ! 1; w15 = ws ! 14;
          s0 = word_rotr 7 w15 XOR word_rotr 18 w15 XOR drop_bit 3 w15;
          s1 = word_rotr 17 w2 XOR word_rotr 19 w2 XOR drop_bit 10 w2
      in (ws ! 15 + s0 + ws ! 6 + s1) # ws)"

definition schedule :: "32 word list \<Rightarrow> 32 word list" where
  "schedule block = rev ((sched_step ^^ 48) (rev block))"

definition sha_round :: "32 word list \<Rightarrow> 32 word \<times> 32 word \<Rightarrow> 32 word list" where
  "sha_round st kw =
     (case st of
        [a, b, c, d, e, f, g, h] \<Rightarrow>
          let s1 = word_rotr 6 e XOR word_rotr 11 e XOR word_rotr 25 e;
              ch = (e AND f) XOR (NOT e AND g);
              t1 = h + s1 + ch + fst kw + snd kw;
              s0 = word_rotr 2 a XOR word_rotr 13 a XOR word_rotr 22 a;
              maj = (a AND b) XOR (a AND c) XOR (b AND c)
          in [t1 + s0 + maj, a, b, c, d + t1, e, f, g]
      | _ \<Rightarrow> st)"

definition sha_block :: "32 word list \<Rightarrow> 32 word list \<Rightarrow> 32 word list" where
  "sha_block st block =
     map2 (+) st (foldl sha_round st (zip sha_k (schedule block)))"

fun chunks16 :: "nat \<Rightarrow> 32 word list \<Rightarrow> 32 word list list" where
  "chunks16 0 ws = []"
| "chunks16 (Suc n) ws = take 16 ws # chunks16 n (drop 16 ws)"

definition sha256 :: "string \<Rightarrow> nat list" where
  "sha256 s =
     (let m = sha_pad (map ord s)
      in concat (map (\<lambda>w. be_bytes 4 (unat w))
           (foldl sha_block sha_init (chunks16 (length m div 64) (be_words m)))))"

lemma length_be_bytes [simp]: "length (be_bytes k n) = k"
  by (simp add: be_bytes_def)

lemma be_bytes_bound: "b \<in> set (be_bytes k n) \<Longrightarrow> b < 256"
  by (auto simp: be_bytes_def)

lemma length_sha_round: "length (sha_round st kw) = length st"
  by (auto simp: sha_round_def Let_def split: list.splits)

lemma length_fold_sha_round: "length (foldl sha_round st kws) = length st"
  by (induction kws arbitrary: st) (simp_all add: length_sha_round)

lemma length_fold_sha_block: "length (foldl sha_block st bs) = length st"
  by (induction bs arbitrary: st) (simp_all add: sha_block_def length_fold_sha_round)

lemma length_concat_const: "\<forall>x \<in> set xs. length (f x) = n \<Longrightarrow> length (concat (map f xs)) = n * length xs"
  by (induction xs) auto

lemma length_sha256 [simp]: "length (sha256 s) = 32"
  by (simp add: sha256_def Let_def length_concat_const [where n = 4] length_fold_sha_block
      sha_init_def)

lemma sha256_bytes: "b \<in> set (sha256 s) \<Longrightarrow> b < 256"
  by (auto simp: sha256_def Let_def dest: be_bytes_bound)

section \<open>Hexadecimal\<close>

definition hex_digit :: "nat \<Rightarrow> char" where
  "hex_digit n = (if n < 10 then chr (48 + n) else chr (87 + n))"

definition upper_hex_digit :: "nat \<Rightarrow> char" where
  "upper_hex_digit n = (if n < 10 then chr (48 + n) else chr (55 + n))"

definition hex_bytes :: "nat list \<Rightarrow> string" where
  "hex_bytes bs = concat (map (\<lambda>b. [hex_digit (b div 16), hex_digit (b mod 16)]) bs)"

definition is_lower_hex :: "char \<Rightarrow> bool" where
  "is_lower_hex c \<longleftrightarrow> is_digit c \<or> cont_in 97 102 (ord c)"

lemma is_lower_hex_digit: "n < 16 \<Longrightarrow> is_lower_hex (hex_digit n)"
  by (auto simp: is_lower_hex_def hex_digit_def is_digit_def cont_in_def ord_chr)

lemma length_hex_bytes [simp]: "length (hex_bytes bs) = 2 * length bs"
  by (simp add: hex_bytes_def length_concat_const [where n = 2])

lemma hex_bytes_lower: "\<forall>b \<in> set bs. b < 256 \<Longrightarrow> c \<in> set (hex_bytes bs) \<Longrightarrow> is_lower_hex c"
  by (fastforce simp: hex_bytes_def intro: is_lower_hex_digit)

lemma hex_digit_inj: "m < 16 \<Longrightarrow> n < 16 \<Longrightarrow> hex_digit m = hex_digit n \<longleftrightarrow> m = n"
  by (auto simp: hex_digit_def chr_inj)

lemma hex_bytes_inj:
  "\<forall>b \<in> set as. b < 256 \<Longrightarrow> \<forall>b \<in> set bs. b < 256 \<Longrightarrow> hex_bytes as = hex_bytes bs \<Longrightarrow> as = bs"
proof (induction as arbitrary: bs)
  case Nil
  then show ?case by (cases bs) (simp_all add: hex_bytes_def)
next
  case (Cons a as)
  then obtain b bs' where bs: "bs = b # bs'" by (cases bs) (auto simp: hex_bytes_def)
  have lt: "a div 16 < 16" "b div 16 < 16" using Cons.prems(1,2) bs by auto
  from Cons.prems(3) bs have "hex_digit (a div 16) = hex_digit (b div 16)"
    "hex_digit (a mod 16) = hex_digit (b mod 16)" "hex_bytes as = hex_bytes bs'"
    by (simp_all add: hex_bytes_def)
  then have "a div 16 = b div 16" "a mod 16 = b mod 16" "as = bs'"
    using lt Cons bs by (simp_all add: hex_digit_inj)
  then show ?case using bs by (metis div_mult_mod_eq)
qed

text \<open>\<^verbatim>\<open>hex.EncodeToString(sha256.Sum256([]byte(s))[:])\<close>.\<close>

definition sha256_hex :: "string \<Rightarrow> string" where
  "sha256_hex s = hex_bytes (sha256 s)"

lemma sha256_hex_shape: "length (sha256_hex s) = 64 \<and> (\<forall>c \<in> set (sha256_hex s). is_lower_hex c)"
  using hex_bytes_lower sha256_bytes by (auto simp: sha256_hex_def)

section \<open>URL escaping\<close>

definition is_alnum :: "char \<Rightarrow> bool" where
  "is_alnum c \<longleftrightarrow> is_digit c \<or> cont_in 65 90 (ord c) \<or> cont_in 97 122 (ord c)"

definition percent :: "char \<Rightarrow> string" where
  "percent c = [CHR ''%'', upper_hex_digit (ord c div 16), upper_hex_digit (ord c mod 16)]"

text \<open>\<^verbatim>\<open>url.PathEscape\<close> and \<^verbatim>\<open>url.QueryEscape\<close>.\<close>

definition path_escape :: "string \<Rightarrow> string" where
  "path_escape s =
     concat (map (\<lambda>c. if is_alnum c \<or> c \<in> set ''-_.~$&+=:@'' then [c] else percent c) s)"

definition query_escape :: "string \<Rightarrow> string" where
  "query_escape s =
     concat (map (\<lambda>c. if is_alnum c \<or> c \<in> set ''-_.~'' then [c]
                       else if c = CHR '' '' then ''+'' else percent c) s)"

lemma path_escape_no_slash: "CHR ''/'' \<notin> set (path_escape s)"
proof -
  have "CHR ''/'' \<noteq> upper_hex_digit n" if "n < 16" for n
    using that by (auto simp: upper_hex_digit_def chr_def ord_def dest: arg_cong [where f = "of_char :: char \<Rightarrow> nat"])
  moreover have "ord c div 16 < 16" for c using ord_less_256 [of c] by simp
  ultimately show ?thesis
    by (auto simp: path_escape_def percent_def is_alnum_def is_digit_def cont_in_def ord_def)
qed

section \<open>JSON strings\<close>

definition json_u :: "nat \<Rightarrow> string" where
  "json_u r = [backslash, CHR ''u''] @ map (\<lambda>k. hex_digit (r div 16 ^ k mod 16)) [3, 2, 1, 0]"

definition json_rune :: "nat \<times> string \<Rightarrow> string" where
  "json_rune rw =
     (case rw of (r, w) \<Rightarrow>
       if r = 0x22 \<or> r = 0x5C then [backslash, chr r]
       else if r = 8 then [backslash, CHR ''b'']
       else if r = 12 then [backslash, CHR ''f'']
       else if r = 10 then [backslash, CHR ''n'']
       else if r = 13 then [backslash, CHR ''r'']
       else if r = 9 then [backslash, CHR ''t'']
       else if r < 0x20 \<or> r = 0x3C \<or> r = 0x3E \<or> r = 0x26 \<or> r = 0x2028 \<or> r = 0x2029 then json_u r
       else if r = rune_error \<and> length w = 1 then json_u rune_error
       else w)"

definition json_string :: "string \<Rightarrow> string" where
  "json_string s = [CHR 0x22] @ concat (map json_rune (runes s)) @ [CHR 0x22]"

text \<open>
  \<^verbatim>\<open>json.Marshal\<close> of a \<^verbatim>\<open>[][]string\<close>.  The rows come from decoded protobuf messages, where an
  empty repeated field is a nil slice: such a row is \<^verbatim>\<open>null\<close>.
\<close>

definition json_row :: "string list \<Rightarrow> string" where
  "json_row cells =
     (if cells = [] then ''null'' else ''['' @ join '','' (map json_string cells) @ '']'')"

definition json_rows :: "string list list \<Rightarrow> string" where
  "json_rows rows = ''['' @ join '','' (map json_row rows) @ '']''"

end
