(* ===== verification/Identity.thy ===== *)
theory Identity
  imports World Go_Codec
begin

unbundle bit_operations_syntax

text \<open>
  \<^verbatim>\<open>internal/identity/identity.go\<close>: canonical specification paths, the canonical identity of a
  scenario, its digests, attempt keys and random UUIDs.
\<close>

section \<open>Random UUIDs\<close>

definition uuid_bytes :: "(nat \<Rightarrow> 8 word) \<Rightarrow> 8 word list" where
  "uuid_bytes r =
     (let v = map r [0..<16];
          v = v[6 := (v ! 6 AND 0x0F) OR 0x40]
      in v[8 := (v ! 8 AND 0x3F) OR 0x80])"

text \<open>\<^verbatim>\<open>%x\<close> of a byte slice \<^verbatim>\<open>v[lo:hi]\<close>.\<close>

definition hex_slice :: "8 word list \<Rightarrow> nat \<Rightarrow> nat \<Rightarrow> string" where
  "hex_slice v lo hi = hex_bytes (map unat (take (hi - lo) (drop lo v)))"

definition uuid_text :: "8 word list \<Rightarrow> string" where
  "uuid_text v = join ''-'' [hex_slice v 0 4, hex_slice v 4 6, hex_slice v 6 8, hex_slice v 8 10, hex_slice v 10 16]"

definition uuid_new :: "world \<Rightarrow> (err + string) \<times> world" where
  "uuid_new w =
     (case w_rand_at w (w_tick w) of
        Inl e \<Rightarrow> (Inl (Wrapf ''generate UUID: %w'' [] e), tick w)
      | Inr r \<Rightarrow> (Inr (uuid_text (uuid_bytes r)), tick w))"

section \<open>Canonical paths\<close>

definition windows_abs :: "string \<Rightarrow> bool" where
  "windows_abs s = (case s of
     a # b # c # _ \<Rightarrow> (cont_in 65 90 (ord a) \<or> cont_in 97 122 (ord a)) \<and> b = CHR '':'' \<and> (c = backslash \<or> c = slash)
   | _ \<Rightarrow> False)"

text \<open>The loop over the parts; \<open>..\<close> drops the part before it, when there is one.\<close>

fun path_parts :: "string list \<Rightarrow> string list \<Rightarrow> string list" where
  "path_parts parts [] = parts"
| "path_parts parts (part # rest) =
     (if part = [] \<or> part = ''.'' then path_parts parts rest
      else if part = ''..'' then path_parts (if parts = [] then parts else butlast parts) rest
      else path_parts (parts @ [part]) rest)"

text \<open>What happens after the project root has been cut off.\<close>

definition canonical_tail :: "string \<Rightarrow> string" where
  "canonical_tail clean_name =
     (let clean_name = trim_prefix clean_name ''./'';
          clean_name = (if has_prefix clean_name ''/'' \<or> windows_abs clean_name then base clean_name else clean_name);
          parts = path_parts [] (split_on slash clean_name)
      in if parts = [] then ''unknown.spec'' else join ''/'' parts)"

text \<open>
  \<open>canonical_path\<close> is \<^const>\<open>None\<close> when the slice of the name at the length of the root panics: the
  prefix is compared on lowercased strings, whose lengths can differ from those of the originals.
\<close>

definition canonical_path :: "'u unicode_scheme \<Rightarrow> string \<Rightarrow> string \<Rightarrow> string option" where
  "canonical_path u project_root name =
     (let clean_name = trim_space (replace_char backslash slash name);
          clean_root = trim_suffix (replace_char backslash slash (clean project_root)) ''/''
      in if clean_root \<noteq> ''.'' \<and> clean_root \<noteq> [] then
           (let lower_name = to_lower u clean_name; lower_root = to_lower u clean_root
            in if lower_name = lower_root then Some ''.''
               else if has_prefix lower_name (lower_root @ ''/'') then
                 map_option canonical_tail (slice_from clean_name (length clean_root + 1))
               else Some (canonical_tail clean_name))
         else Some (canonical_tail clean_name))"

section \<open>Identities, digests, keys\<close>

definition normalize_text :: "string \<Rightarrow> string" where
  "normalize_text v = join '' '' (str_fields v)"

definition scenario_identity_text :: "string \<Rightarrow> string \<Rightarrow> string \<Rightarrow> string \<Rightarrow> int64 \<Rightarrow> int64 \<Rightarrow> string" where
  "scenario_identity_text project spec_path scenario_id heading start stop =
     (let project = normalize_text project;
          project = (if project = [] then ''Gauge project'' else project);
          stable = trim_space scenario_id;
          stable = (if stable = [] then
                      ''L'' @ show_int (sint start) @ ''-L'' @ show_int (sint stop) @ '':'' @ normalize_text heading
                    else stable)
      in project @ ''::'' @ spec_path @ ''::'' @ stable)"

definition test_case_id :: "string \<Rightarrow> string" where
  "test_case_id canonical = sha256_hex canonical"

definition history_text :: "string \<Rightarrow> (string \<times> string) list \<Rightarrow> string" where
  "history_text case_id parameters =
     case_id @ concat (map (\<lambda>(n, v). nul # n @ ''='' @ v) parameters)"

definition history_id :: "string \<Rightarrow> (string \<times> string) list \<Rightarrow> string" where
  "history_id case_id parameters = sha256_hex (history_text case_id parameters)"

definition attempt_key :: "string \<Rightarrow> int32 \<Rightarrow> int32 \<Rightarrow> int32 \<Rightarrow> string" where
  "attempt_key canonical spec_row scenario_row retry =
     canonical @ ''#spec-row='' @ show_int (sint spec_row) @ ''#scenario-row='' @ show_int (sint scenario_row)
       @ ''#retry='' @ show_int (sint retry)"

section \<open>UUIDs have the shape of version 4\<close>

lemma length_uuid_bytes [simp]: "length (uuid_bytes r) = 16"
  by (simp add: uuid_bytes_def Let_def)

lemma length_hex_slice: "hi \<le> length v \<Longrightarrow> length (hex_slice v lo hi) = 2 * (hi - lo)"
  by (simp add: hex_slice_def)

lemma unat_byte [simp]: "unat (b :: 8 word) < 256"
  using unsigned_less [of b] by simp

lemma hex_slice_lower: "c \<in> set (hex_slice v lo hi) \<Longrightarrow> is_lower_hex c"
proof -
  assume c: "c \<in> set (hex_slice v lo hi)"
  have "\<forall>b \<in> set (map unat (take (hi - lo) (drop lo v))). b < 256"
    by auto
  then show ?thesis using c hex_bytes_lower unfolding hex_slice_def by blast
qed

definition uuid_groups :: "string \<Rightarrow> string list" where
  "uuid_groups = split_on (CHR ''-'')"

lemma not_hex_dash: "\<not> is_lower_hex (CHR ''-'')"
  by (simp add: is_lower_hex_def is_digit_def cont_in_def ord_def)

lemma uuid_groups_text:
  "uuid_groups (uuid_text v) = [hex_slice v 0 4, hex_slice v 4 6, hex_slice v 6 8, hex_slice v 8 10, hex_slice v 10 16]"
proof -
  have "CHR ''-'' \<notin> set (hex_slice v lo hi)" for lo hi
    using hex_slice_lower not_hex_dash by blast
  then show ?thesis
    unfolding uuid_groups_def uuid_text_def by (intro split_join) auto
qed

lemma hex_bytes_append: "hex_bytes (xs @ ys) = hex_bytes xs @ hex_bytes ys"
  by (simp add: hex_bytes_def)

lemma concat_uuid_groups:
  assumes "length v = 16"
  shows "concat (uuid_groups (uuid_text v)) = hex_bytes (map unat v)"
proof -
  have "take 4 (drop 0 v) @ take 2 (drop 4 v) @ take 2 (drop 6 v) @ take 2 (drop 8 v) @ take 6 (drop 10 v)
      = take (4 + 2 + 2 + 2 + 6) v"
    by (simp only: take_add) simp
  then have v: "take 4 (drop 0 v) @ take 2 (drop 4 v) @ take 2 (drop 6 v) @ take 2 (drop 8 v) @ take 6 (drop 10 v) = v"
    using assms by simp
  have "concat (uuid_groups (uuid_text v)) = hex_bytes (map unat (take 4 (drop 0 v) @ take 2 (drop 4 v)
      @ take 2 (drop 6 v) @ take 2 (drop 8 v) @ take 6 (drop 10 v)))"
    by (simp add: uuid_groups_text hex_slice_def hex_bytes_append)
  then show ?thesis by (simp only: v)
qed

lemma uuid_text_inj:
  assumes "length v = 16" and "length v' = 16" and "uuid_text v = uuid_text v'"
  shows "v = v'"
proof -
  have "hex_bytes (map unat v) = hex_bytes (map unat v')"
    using assms concat_uuid_groups by metis
  then have "map unat v = map unat v'" by (intro hex_bytes_inj) auto
  moreover have "inj (unat :: 8 word \<Rightarrow> nat)" by (rule injI) (rule unsigned_word_eqI)
  ultimately show ?thesis by (metis inj_map_eq_map)
qed

lemma nibble_six: "unat ((x AND 0x0F) OR 0x40 :: 8 word) div 16 = 4"
proof -
  have "unat ((x AND 0x0F) OR 0x40 :: 8 word) div 16 = drop_bit 4 ((unat x AND 15) OR 64)"
    by (simp add: unsigned_or_eq unsigned_and_eq drop_bit_eq_div)
  also have "\<dots> = 4" by (simp add: drop_bit_or drop_bit_and)
  finally show ?thesis .
qed

lemma nibble_eight: "unat ((x AND 0x3F) OR 0x80 :: 8 word) div 16 \<in> {8, 9, 10, 11}"
proof -
  define k where "k = drop_bit 4 (unat x)"
  have "unat ((x AND 0x3F) OR 0x80 :: 8 word) div 16 = drop_bit 4 ((unat x AND 63) OR 128)"
    by (simp add: unsigned_or_eq unsigned_and_eq drop_bit_eq_div)
  also have "\<dots> = (k AND 3) OR 8"
    by (simp add: k_def drop_bit_or drop_bit_and)
  also have "k AND 3 = k mod 4"
    using take_bit_eq_mask [of 2 k] by (simp add: take_bit_eq_mod mask_eq_exp_minus_1)
  finally have e: "unat ((x AND 0x3F) OR 0x80 :: 8 word) div 16 = (k mod 4) OR 8" .
  have "k mod 4 = 0 \<or> k mod 4 = 1 \<or> k mod 4 = 2 \<or> k mod 4 = 3" by presburger
  then show ?thesis unfolding e by (elim disjE) simp_all
qed

lemma uuid_bytes_nth:
  "uuid_bytes r ! 6 = (r 6 AND 0x0F) OR 0x40" "uuid_bytes r ! 8 = (r 8 AND 0x3F) OR 0x80"
  by (simp_all add: uuid_bytes_def Let_def)

lemma hd_hex_slice:
  "lo < hi \<Longrightarrow> lo < length v \<Longrightarrow> hex_slice v lo hi \<noteq> [] \<and> hd (hex_slice v lo hi) = hex_digit (unat (v ! lo) div 16)"
proof -
  assume a: "lo < hi" "lo < length v"
  then have "drop lo v = v ! lo # drop (Suc lo) v" by (simp add: Cons_nth_drop_Suc)
  then show ?thesis using a by (simp add: hex_slice_def hex_bytes_def take_Cons')
qed

text \<open>The shape of an RFC 4122 version 4 UUID, as five groups.\<close>

definition uuid_v4 :: "string \<Rightarrow> bool" where
  "uuid_v4 u \<longleftrightarrow> map length (uuid_groups u) = [8, 4, 4, 4, 12] \<and>
     (\<forall>g \<in> set (uuid_groups u). \<forall>c \<in> set g. is_lower_hex c) \<and>
     hd (uuid_groups u ! 2) = CHR ''4'' \<and> hd (uuid_groups u ! 3) \<in> set ''89ab''"

lemma hex_digit_values:
  "hex_digit 4 = CHR ''4''" "hex_digit 8 = CHR ''8''" "hex_digit 9 = CHR ''9''" "hex_digit 10 = CHR ''a''"
  "hex_digit 11 = CHR ''b''"
  by code_simp+

lemma uuid_v4_text: "uuid_v4 (uuid_text (uuid_bytes r))"
proof -
  have six: "hd (hex_slice (uuid_bytes r) 6 8) = CHR ''4''"
    using hd_hex_slice [of 6 8 "uuid_bytes r"] nibble_six [of "r 6"]
    by (simp add: uuid_bytes_nth hex_digit_values)
  have eight: "hd (hex_slice (uuid_bytes r) 8 10) \<in> set ''89ab''"
    using hd_hex_slice [of 8 10 "uuid_bytes r"] nibble_eight [of "r 8"]
    by (auto simp: uuid_bytes_nth hex_digit_values)
  show ?thesis
    unfolding uuid_v4_def uuid_groups_text
    using six eight hex_slice_lower by (auto simp: length_hex_slice)
qed

lemma uuid_text_nonempty [simp]: "uuid_text v \<noteq> []"
  by (simp add: uuid_text_def)

lemma uuid_text_no_slash: "slash \<notin> set (uuid_text v)"
proof -
  have "slash \<notin> set (hex_slice v lo hi)" for lo hi
    using hex_slice_lower [of slash v lo hi] by (auto simp: is_lower_hex_def is_digit_def cont_in_def ord_def)
  then show ?thesis by (simp add: uuid_text_def)
qed

lemma uuid_new_Inr:
  "uuid_new w = (Inr u, w') \<Longrightarrow> \<exists>r. w_rand_at w (w_tick w) = Inr r \<and> u = uuid_text (uuid_bytes r) \<and> w' = tick w"
  by (auto simp: uuid_new_def split: sum.splits)

lemma quiet_uuid_new [world_frame]: "quiet w (snd (uuid_new w))"
  by (simp add: uuid_new_def split: sum.split)

section \<open>Canonical paths have no traversal and no checkout prefix\<close>

lemma path_parts_plain:
  "\<forall>s \<in> set parts. plain_seg s \<Longrightarrow> \<forall>s \<in> set ss. slash \<notin> set s \<Longrightarrow> \<forall>s \<in> set (path_parts parts ss). plain_seg s"
proof (induction ss arbitrary: parts)
  case (Cons s ss)
  have rest: "\<forall>x \<in> set ss. slash \<notin> set x" and s: "slash \<notin> set s" using Cons.prems(2) by simp_all
  consider "s = [] \<or> s = ''.''" | "s \<noteq> []" "s \<noteq> ''.''" "s = ''..''" | "s \<noteq> []" "s \<noteq> ''.''" "s \<noteq> ''..''" by blast
  then show ?case
  proof cases
    case 1
    then have "path_parts parts (s # ss) = path_parts parts ss" by simp
    then show ?thesis using Cons.IH [OF Cons.prems(1) rest] by (simp only:)
  next
    case 2
    let ?b = "if parts = [] then parts else butlast parts"
    have "path_parts parts (s # ss) = path_parts ?b ss" using 2 by simp
    moreover have "\<forall>x \<in> set ?b. plain_seg x"
    proof
      fix x assume "x \<in> set ?b"
      then have "x \<in> set parts" by (metis in_set_butlastD)
      then show "plain_seg x" using Cons.prems(1) by (rule bspec [rotated])
    qed
    ultimately show ?thesis using Cons.IH [OF _ rest] by (simp only:)
  next
    case 3
    then have "path_parts parts (s # ss) = path_parts (parts @ [s]) ss" by simp
    moreover have "plain_seg s" using s 3 by (rule plain_segI)
    moreover from this have "\<forall>x \<in> set (parts @ [s]). plain_seg x" using Cons.prems(1) by simp
    ultimately show ?thesis using Cons.IH [OF _ rest] by (simp only:)
  qed
qed simp

text \<open>A canonical path: relative, every segment a plain name.\<close>

definition canonical :: "string \<Rightarrow> bool" where
  "canonical p \<longleftrightarrow> (\<forall>s \<in> set (split_on slash p). plain_seg s)"

lemma plain_no_slash: "\<forall>s \<in> set ps. plain_seg s \<Longrightarrow> \<forall>s \<in> set ps. slash \<notin> set s"
  by (rule ballI) (rule plain_segD(4), rule bspec)

lemma canonical_join:
  assumes "ps \<noteq> []" and "\<forall>s \<in> set ps. plain_seg s"
  shows "canonical (join ''/'' ps)"
proof -
  have "split_on slash (join ''/'' ps) = ps"
    using assms(1) plain_no_slash [OF assms(2)] by (rule split_join)
  then show ?thesis using assms(2) by (simp only: canonical_def)
qed

lemma plain_unknown: "plain_seg ''unknown.spec''"
  by (rule plain_segI) simp_all

lemma canonical_tail_canonical: "canonical (canonical_tail n)"
proof -
  have unknown: "canonical ''unknown.spec''"
    using canonical_join [of "[''unknown.spec'']"] plain_unknown by simp
  have parts: "canonical (join ''/'' (path_parts [] (split_on slash m)))"
    if "path_parts [] (split_on slash m) \<noteq> []" for m
  proof (rule canonical_join [OF that])
    show "\<forall>s \<in> set (path_parts [] (split_on slash m)). plain_seg s"
      by (rule path_parts_plain) (use split_on_no_sep in auto)
  qed
  show ?thesis
    unfolding canonical_tail_def Let_def using unknown parts by (simp only: if_split) blast
qed

lemma canonical_not_abs: "canonical p \<Longrightarrow> \<not> is_abs p"
proof
  assume c: "canonical p" and "is_abs p"
  then obtain q where "p = slash # q" by (auto simp: is_abs_def has_prefix_def prefix_def)
  then have "[] \<in> set (split_on slash p)" by (simp split: list.split)
  then have "plain_seg []" using c unfolding canonical_def by (rule bspec [rotated])
  then show False using plain_segD(1) by blast
qed

lemma canonical_path_cases:
  "canonical_path u r n = Some p \<Longrightarrow> p = ''.'' \<or> (\<exists>m. p = canonical_tail m)"
  by (auto simp: canonical_path_def Let_def split: if_splits)

lemma not_plain_Nil [simp]: "\<not> plain_seg []"
  using plain_segD(1) by blast

lemma canonical_nonempty: "canonical p \<Longrightarrow> p \<noteq> []"
  by (auto simp: canonical_def)

section \<open>When canonicalisation succeeds\<close>

lemma set_clean_segs: "set (clean_segs r out ss) \<subseteq> set out \<union> set ss \<union> {''..''}"
proof (induction ss arbitrary: out)
  case (Cons s ss)
  have t: "set (tl out) \<subseteq> set out" by (cases out) auto
  show ?case
    using Cons.IH [of out] Cons.IH [of "s # out"] Cons.IH [of "''..'' # out"] Cons.IH [of "tl out"] t
    by (auto split: list.splits)
qed auto

lemma set_clean: "set (clean p) \<subseteq> set p \<union> set ''./''"
proof -
  have elems: "(\<Union>s \<in> set (split_on slash p). set s) \<subseteq> set p"
  proof -
    have "x \<in> set (join ''/'' ss)" if "s \<in> set ss" "x \<in> set s" for x s ss
      using that by (induction "''/''" ss rule: join.induct) auto
    then show ?thesis using join_split [of slash p] by (metis UN_least subsetI)
  qed
  have "set (join ''/'' (clean_segs (is_abs p) [] (split_on slash p)))
      \<subseteq> set ''/'' \<union> (\<Union>s \<in> set (clean_segs (is_abs p) [] (split_on slash p)). set s)"
    by (rule set_join)
  also have "\<dots> \<subseteq> set ''/'' \<union> (\<Union>s \<in> set (split_on slash p) \<union> {''..''}. set s)"
    using set_clean_segs [of "is_abs p" "[]" "split_on slash p"] by auto
  also have "\<dots> \<subseteq> set p \<union> set ''./''" using elems by auto
  finally show ?thesis by (auto simp: clean_def Let_def)
qed

lemma is_ascii_clean: "is_ascii p \<Longrightarrow> is_ascii (clean p)"
  using set_clean [of p] by (auto simp: is_ascii_def list_all_iff ord_def)

lemma is_ascii_replace_char: "is_ascii s \<Longrightarrow> ord b < 128 \<Longrightarrow> is_ascii (replace_char a b s)"
  by (auto simp: is_ascii_def list_all_iff replace_char_def)

lemma is_ascii_trim_suffix: "is_ascii s \<Longrightarrow> is_ascii (trim_suffix s p)"
  by (rule is_ascii_subset [of _ s]) (auto simp: trim_suffix_def dest: in_set_takeD)

lemma ord_slash: "ord slash = 47" by (simp add: ord_def)

lemma canonical_path_total:
  assumes "is_ascii r" and "is_ascii n"
  shows "\<exists>p. canonical_path u r n = Some p"
proof -
  let ?n = "trim_space (replace_char backslash slash n)"
  let ?r = "trim_suffix (replace_char backslash slash (clean r)) ''/''"
  have n: "is_ascii ?n"
    using is_ascii_subset [OF set_trim_space is_ascii_replace_char] assms(2) by (simp add: ord_slash)
  have r: "is_ascii ?r"
    using assms(1) by (intro is_ascii_trim_suffix is_ascii_replace_char is_ascii_clean) (simp_all add: ord_slash)
  have "length ?r + 1 \<le> length ?n" if "has_prefix (to_lower u ?n) (to_lower u ?r @ ''/'')"
  proof -
    have "length (to_lower u ?r @ ''/'') \<le> length (to_lower u ?n)"
      using that unfolding has_prefix_def by (rule prefix_length_le)
    then show ?thesis by (simp add: length_to_lower_ascii n r)
  qed
  then show ?thesis by (auto simp: canonical_path_def Let_def slice_from_def)
qed

section \<open>Keys and histories determine their parts\<close>

lemma append_sep_unique:
  assumes "a @ c # s = b @ c # t" and "c \<notin> set s" and "c \<notin> set t"
  shows "a = b \<and> s = t"
proof -
  have "rev s @ c # rev a = rev t @ c # rev b"
    using arg_cong [OF assms(1), of rev] by simp
  moreover have "takeWhile (\<lambda>x. x \<noteq> c) (rev s @ c # rev a) = rev s"
    "takeWhile (\<lambda>x. x \<noteq> c) (rev t @ c # rev b) = rev t"
    using assms(2,3) by (auto simp: takeWhile_tail)
  ultimately have "s = t" by (metis rev_rev_ident)
  with assms(1) show ?thesis by simp
qed

lemma hash_not_num: "CHR ''#'' \<notin> set (show_int i)"
  using show_int_chars [of i] by (auto simp: num_char_def is_digit_def ord_def)

lemma sint_inj32: "sint (a :: int32) = sint b \<longleftrightarrow> a = b"
  by (auto intro: signed_word_eqI)

lemma attempt_key_inj_aux:
  assumes "attempt_key c a b r = attempt_key c' a' b' r'"
  shows "c = c' \<and> a = a' \<and> b = b' \<and> r = r'"
proof -
  let ?p = "\<lambda>c a. c @ CHR ''#'' # ''spec-row='' @ show_int (sint (a :: int32))"
  let ?q = "\<lambda>c a b. ?p c a @ CHR ''#'' # ''scenario-row='' @ show_int (sint (b :: int32))"
  have "?q c a b @ CHR ''#'' # ''retry='' @ show_int (sint r) = ?q c' a' b' @ CHR ''#'' # ''retry='' @ show_int (sint r')"
    using assms by (simp add: attempt_key_def)
  then have 1: "?q c a b = ?q c' a' b' \<and> ''retry='' @ show_int (sint r) = ''retry='' @ show_int (sint r')"
    by (rule append_sep_unique) (simp_all add: hash_not_num)
  have "?p c a @ CHR ''#'' # ''scenario-row='' @ show_int (sint b) = ?p c' a' @ CHR ''#'' # ''scenario-row='' @ show_int (sint b')"
    using 1 by simp
  then have 2: "?p c a = ?p c' a' \<and> ''scenario-row='' @ show_int (sint b) = ''scenario-row='' @ show_int (sint b')"
    by (rule append_sep_unique) (simp_all add: hash_not_num)
  have "c @ CHR ''#'' # ''spec-row='' @ show_int (sint a) = c' @ CHR ''#'' # ''spec-row='' @ show_int (sint a')"
    using 2 by simp
  then have 3: "c = c' \<and> ''spec-row='' @ show_int (sint a) = ''spec-row='' @ show_int (sint a')"
    by (rule append_sep_unique) (simp_all add: hash_not_num)
  show ?thesis using 1 2 3 by (simp add: sint_inj32)
qed

section \<open>The interface of a UUID generator\<close>

text \<open>
  What the clients of \<^verbatim>\<open>identity.UUIDGenerator\<close> rely on: a generator touches no file, and an identifier
  it returns is not empty and has no path separator.  Names built from it are plain names.
\<close>

locale uuid_source =
  fixes new :: "world \<Rightarrow> (err + string) \<times> world"
  assumes new_quiet: "new w = (r, w') \<Longrightarrow> quiet w w'"
    and new_plain: "new w = (Inr u, w') \<Longrightarrow> u \<noteq> [] \<and> slash \<notin> set u"
begin

lemma new_advances: "new w = (r, w') \<Longrightarrow> advances w w'"
  using new_quiet quiet_advances by blast

lemma new_fs: "new w = (r, w') \<Longrightarrow> w_fs w' = w_fs w"
  using new_quiet unfolding quiet_def by blast

lemma artifact_name_plain:
  assumes "new w = (Inr u, w')" and "2 \<le> length sfx" and "slash \<notin> set sfx"
  shows "plain_seg (u @ sfx)"
proof (rule plain_segI)
  have "3 \<le> length (u @ sfx)" using new_plain [OF assms(1)] assms(2) by (cases u) simp_all
  moreover have "length ''.'' < 3" "length ''..'' < 3" by simp_all
  ultimately show "u @ sfx \<noteq> []" "u @ sfx \<noteq> ''.''" "u @ sfx \<noteq> ''..''" by fastforce+
  show "slash \<notin> set (u @ sfx)" using new_plain [OF assms(1)] assms(3) by simp
qed

end

interpretation random_uuids: uuid_source uuid_new
  proof unfold_locales
  show "uuid_new w = (r, w') \<Longrightarrow> quiet w w'" for w r w'
    using quiet_uuid_new [of w] by simp
  show "uuid_new w = (Inr u, w') \<Longrightarrow> u \<noteq> [] \<and> slash \<notin> set u" for w u w'
    using uuid_new_Inr [of w u w'] uuid_text_no_slash uuid_text_nonempty by metis
qed

section \<open>Properties\<close>

text \<open>
  C3.  A canonical path is \<^verbatim>\<open>.\<close> or a relative path whose segments are all plain names: nonempty,
  not \<^verbatim>\<open>.\<close> or \<^verbatim>\<open>..\<close>, without slash.  No absolute checkout path and no traversal is ever returned, and
  for an ASCII root and name a path is returned.
\<close>

theorem canonical_path_safe:
  "(\<forall>p. canonical_path u r n = Some p \<longrightarrow> p = ''.'' \<or> (canonical p \<and> \<not> is_abs p)) \<and>
   (is_ascii r \<and> is_ascii n \<longrightarrow> (\<exists>p. canonical_path u r n = Some p))"
  using canonical_path_cases [of u r n] canonical_tail_canonical canonical_not_abs canonical_path_total [of r n u]
  by metis

theorem canonical_path_safe_witness:
  "\<exists>p. canonical_path \<lparr>u_lower = \<lambda>r. r, u_fold = \<lambda>a b. False\<rparr> ''/w'' ''/w/a/../../b'' = Some p \<and>
     (p = ''.'' \<or> (canonical p \<and> \<not> is_abs p))"
proof -
  have "is_ascii ''/w'' \<and> is_ascii ''/w/a/../../b''" by code_simp
  then show ?thesis
    using canonical_path_safe [of "\<lparr>u_lower = \<lambda>r. r, u_fold = \<lambda>a b. False\<rparr>" "''/w''" "''/w/a/../../b''"]
    by blast
qed

text \<open>A project root as \<^verbatim>\<open>app\<close> detects it: absolute, clean, not the file-system root.\<close>

definition checkout :: "string \<Rightarrow> bool" where
  "checkout r \<longleftrightarrow> is_ascii r \<and> is_abs r \<and> clean r = r \<and> \<not> has_suffix r ''/'' \<and> backslash \<notin> set r"

lemma replace_char_id: "a \<notin> set s \<Longrightarrow> replace_char a b s = s"
  unfolding replace_char_def by (intro map_idI) auto

lemma canonical_under_root:
  assumes r: "checkout r" and s: "is_ascii s" "backslash \<notin> set s" and t: "trim_space (r @ slash # s) = r @ slash # s"
  shows "canonical_path u r (r @ slash # s) = Some (canonical_tail s)"
proof -
  have root: "trim_suffix (replace_char backslash slash (clean r)) ''/'' = r"
    using r by (simp add: checkout_def replace_char_id trim_suffix_def)
  have name: "trim_space (replace_char backslash slash (r @ slash # s)) = r @ slash # s"
    using r s t by (simp add: checkout_def replace_char_id)
  have abs: "r \<noteq> []" "r \<noteq> ''.''" using r by (auto simp: checkout_def is_abs_def has_prefix_def)
  have ascii: "is_ascii (r @ slash # s)"
    using r s by (simp add: checkout_def is_ascii_def ord_slash)
  have lower: "to_lower u (r @ slash # s) = to_lower u r @ slash # to_lower u s"
    using ascii r s by (simp add: to_lower_def checkout_def lower_ascii_def cont_in_def ord_slash)
      (metis chr_ord ord_slash)
  have "has_prefix (to_lower u (r @ slash # s)) (to_lower u r @ ''/'')"
    unfolding lower by (simp add: has_prefix_def)
  moreover have "to_lower u (r @ slash # s) \<noteq> to_lower u r" unfolding lower by simp
  ultimately show ?thesis
    by (simp add: canonical_path_def Let_def root name abs slice_from_def)
qed

text \<open>
  Canonical paths do not depend on the checkout: the same file below two project roots has the
  same canonical path, hence the same test case and history identifiers.
\<close>

theorem canonical_path_checkout_independent:
  assumes "checkout r" and "checkout r'" and "is_ascii s" and "backslash \<notin> set s"
    and "trim_space (r @ slash # s) = r @ slash # s" and "trim_space (r' @ slash # s) = r' @ slash # s"
  shows "canonical_path u r (r @ slash # s) = canonical_path u r' (r' @ slash # s)"
  using assms by (simp add: canonical_under_root)

theorem canonical_path_checkout_independent_witness:
  "canonical_path \<lparr>u_lower = \<lambda>r. r, u_fold = \<lambda>a b. False\<rparr> ''/a/b'' (''/a/b'' @ slash # ''specs/x.spec'')
     = canonical_path \<lparr>u_lower = \<lambda>r. r, u_fold = \<lambda>a b. False\<rparr> ''/c'' (''/c'' @ slash # ''specs/x.spec'')"
proof (rule canonical_path_checkout_independent)
  show "checkout ''/a/b''" by code_simp
  show "checkout ''/c''" by code_simp
  show "is_ascii ''specs/x.spec''" by code_simp
  show "backslash \<notin> set ''specs/x.spec''" by code_simp
  show "trim_space (''/a/b'' @ slash # ''specs/x.spec'') = ''/a/b'' @ slash # ''specs/x.spec''" by code_simp
  show "trim_space (''/c'' @ slash # ''specs/x.spec'') = ''/c'' @ slash # ''specs/x.spec''" by code_simp
qed

text \<open>
  Distinct attempts have distinct keys: the attempt key determines the canonical identity, both
  table rows and the retry number.
\<close>

theorem attempt_key_injective:
  "attempt_key c a b r = attempt_key c' a' b' r' \<longleftrightarrow> c = c' \<and> a = a' \<and> b = b' \<and> r = r'"
  by (rule iffI, rule attempt_key_inj_aux, assumption, elim conjE, hypsubst, rule refl)

text \<open>
  A random UUID, when randomness is available, is a version 4 UUID: five groups of 8, 4, 4, 4 and
  12 lowercase hexadecimal digits, version nibble 4, variant bits 10; it determines the 16 bytes it
  was made of.
\<close>

theorem uuid_new_v4:
  "(case uuid_new w of
      (Inl e, w') \<Rightarrow> (\<exists>e'. w_rand_at w (w_tick w) = Inl e' \<and> e = Wrapf ''generate UUID: %w'' [] e')
    | (Inr u, w') \<Rightarrow> uuid_v4 u \<and> (\<forall>v. length v = 16 \<longrightarrow> uuid_text v = u \<longrightarrow>
        (\<exists>r. w_rand_at w (w_tick w) = Inr r \<and> v = uuid_bytes r)))
   \<and> quiet w (snd (uuid_new w))"
  using uuid_text_inj [OF _ length_uuid_bytes]
  by (auto simp: uuid_new_def uuid_v4_text split: sum.split)

theorem uuid_new_v4_witness:
  "uuid_v4 (uuid_text (uuid_bytes (\<lambda>i. word_of_nat i)))"
proof -
  define w where "w = calm_world []"
  have "uuid_new w = (Inr (uuid_text (uuid_bytes (\<lambda>i. word_of_nat i))), tick w)"
    by (simp add: uuid_new_def w_def calm_world_def)
  then show ?thesis using uuid_new_v4 [of w] by simp
qed

fun history_safe :: "(string \<times> string) list \<Rightarrow> bool" where
  "history_safe [] = True"
| "history_safe ((n, v) # ps) \<longleftrightarrow> CHR ''='' \<notin> set n \<and> nul \<notin> set n \<and> nul \<notin> set v \<and> history_safe ps"

lemma history_tail_start:
  "concat (map (\<lambda>(n, v). nul # n @ ''='' @ v) ps) = [] \<or> hd (concat (map (\<lambda>(n, v). nul # n @ ''='' @ v) ps)) = nul"
  by (cases ps) auto

lemma append_until_unique:
  assumes "a @ x = b @ y" and "c \<notin> set a" and "c \<notin> set b" and "x = [] \<or> hd x = c" and "y = [] \<or> hd y = c"
  shows "a = b \<and> x = y"
proof -
  have "takeWhile (\<lambda>z. z \<noteq> c) (a @ x) = a" using assms(2,4)
    by (cases x) (auto simp: takeWhile_append takeWhile_eq_all_conv)
  moreover have "takeWhile (\<lambda>z. z \<noteq> c) (b @ y) = b" using assms(3,5)
    by (cases y) (auto simp: takeWhile_append takeWhile_eq_all_conv)
  ultimately have "a = b" using assms(1) by simp
  with assms(1) show ?thesis by simp
qed

lemma history_text_inj_aux:
  "history_safe ps \<Longrightarrow> history_safe qs \<Longrightarrow>
   concat (map (\<lambda>(n, v). nul # n @ ''='' @ v) ps) = concat (map (\<lambda>(n, v). nul # n @ ''='' @ v) qs) \<Longrightarrow> ps = qs"
proof (induction ps arbitrary: qs)
  case Nil
  then show ?case by (cases qs) auto
next
  case (Cons p ps)
  obtain n v where p: "p = (n, v)" by (cases p)
  obtain n' v' qs' where qs: "qs = (n', v') # qs'" using Cons.prems(3) p by (cases qs) auto
  let ?t = "\<lambda>ps. concat (map (\<lambda>(n, v). nul # n @ ''='' @ v) ps)"
  have eq: "n @ (''='' @ v @ ?t ps) = n' @ (''='' @ v' @ ?t qs')"
    using Cons.prems(3) p qs by simp
  have 1: "n = n' \<and> ''='' @ v @ ?t ps = ''='' @ v' @ ?t qs'"
    using Cons.prems(1,2) p qs by (intro append_until_unique [OF eq, of "CHR ''=''"]) auto
  then have "v @ ?t ps = v' @ ?t qs'" by simp
  then have 2: "v = v' \<and> ?t ps = ?t qs'"
    using Cons.prems(1,2) p qs history_tail_start by (intro append_until_unique [of _ _ _ _ nul]) auto
  then have "ps = qs'" using Cons.IH [of qs'] Cons.prems(1,2) p qs by simp
  then show ?case using p qs 1 2 by simp
qed

text \<open>
  Test case and history identifiers are 64 lowercase hexadecimal digits, and the text hashed for
  the history determines the parameters when no name contains an equals sign or a NUL byte and no
  value a NUL byte.
\<close>

theorem history_identity:
  "length (history_id c ps) = 64 \<and> (\<forall>x \<in> set (history_id c ps). is_lower_hex x) \<and>
   length (test_case_id c) = 64 \<and> (\<forall>x \<in> set (test_case_id c). is_lower_hex x) \<and>
   (history_safe ps \<and> history_safe qs \<longrightarrow> (history_text c ps = history_text c qs \<longleftrightarrow> ps = qs))"
  using sha256_hex_shape history_text_inj_aux
  by (auto simp: history_id_def test_case_id_def history_text_def)

theorem history_identity_witness:
  "history_text ''id'' [(''a'', ''1''), (''b'', ''2'')] \<noteq> history_text ''id'' [(''b'', ''2''), (''a'', ''1'')]"
  using history_identity [of "''id''" "[(''a'', ''1''), (''b'', ''2'')]" "[(''b'', ''2''), (''a'', ''1'')]"] by simp

text \<open>
  The history identifier does not determine the parameters in general: the separator is not
  escaped, so a parameter \<open>a\<close> with value \<open>b=c\<close> and a parameter \<open>a=b\<close> with value \<open>c\<close> share
  their history, whatever the hash function.
\<close>

theorem history_id_ambiguous:
  "history_id c [(''a'', ''b=c'')] = history_id c [(''a=b'', ''c'')]"
  by (simp add: history_id_def history_text_def)

definition kelvin_root :: string where
  "kelvin_root = ''/'' @ map chr [0xE2, 0x84, 0xAA]"

text \<open>
  Canonicalising can panic.  With the Unicode rule that the Kelvin sign (three bytes) lowercases
  to the one-byte letter \<open>k\<close>, a root that holds the sign is longer than a name that matches its
  lowercase form, and the slice of the name is out of range.
\<close>

theorem canonical_path_panics:
  assumes "u_lower u 0x212A = 0x6B"
  shows "canonical_path u kelvin_root ''/k/'' = None"
proof -
  have root: "trim_suffix (replace_char backslash slash (clean kelvin_root)) ''/'' = kelvin_root"
    "kelvin_root \<noteq> ''.''" "kelvin_root \<noteq> []" "length kelvin_root = 4" "\<not> is_ascii kelvin_root"
    by code_simp+
  have runes: "runes kelvin_root = [(47, ''/''), (0x212A, map chr [0xE2, 0x84, 0xAA])]"
    by (simp add: kelvin_root_def ord_chr ord_slash cont_in_def)
  have chars: "chr 47 = slash" "chr 107 = CHR ''k''" by code_simp+
  have name: "trim_space (replace_char backslash slash ''/k/'') = ''/k/''" by code_simp
  have "to_lower u kelvin_root = ''/k''"
    using assms root(5) chars
    by (simp add: to_lower_def runes lower_rune_def lower_ascii_def encode_rune_def cont_in_def)
  moreover have "to_lower u ''/k/'' = ''/k/''"
    using chars by (simp add: to_lower_def is_ascii_def ord_def lower_ascii_def cont_in_def)
  ultimately show ?thesis
    by (simp add: canonical_path_def Let_def root name slice_from_def has_prefix_def)
qed

theorem canonical_path_panics_witness:
  "canonical_path \<lparr>u_lower = \<lambda>r. if r = 0x212A then 0x6B else r, u_fold = \<lambda>a b. False\<rparr> kelvin_root ''/k/'' = None"
  by (rule canonical_path_panics) simp

end
