(* ===== verification/Config.thy ===== *)
theory Config
  imports World "HOL-Library.Multiset"
begin

text \<open>
  \<^verbatim>\<open>internal/config/config.go\<close>: the reporter's configuration, its defaults, the YAML file, the
  overrides from the process environment and the validation.  The YAML decoder (\<^verbatim>\<open>yaml.v3\<close>) is a
  parameter: it turns the bytes of a file and the configuration decoded into so far into an error or
  a new configuration.
\<close>

section \<open>The configuration\<close>

record executor_overrides =
  x_name :: string
  x_type :: string
  x_build_name :: string
  x_build_url :: string
  x_report_name :: string
  x_report_url :: string

record config =
  c_results_dir :: string
  c_clean :: bool
  c_allow_non_owned :: bool
  c_compatibility :: string
  c_write_mode :: string
  c_strict :: bool
  c_log_level :: string
  c_screenshots :: bool
  c_messages :: bool
  c_tables :: bool
  c_max_bytes :: int64
  c_follow_links :: bool
  c_allow_external :: bool
  c_context_mode :: string
  c_teardown_mode :: string
  c_hook_mode :: string
  c_behavior_from_spec :: bool
  c_issue_pattern :: string
  c_tms_pattern :: string
  c_link_pattern :: string
  c_env_allowlist :: "string list"
  c_promote :: "string list"
  c_mask :: "string list"
  c_hide :: "string list"
  c_exclude_history :: "string list"
  c_redact :: "string list"
  c_executor_auto :: bool
  c_executor :: executor_overrides
  c_categories_file :: string
  c_categories_profile :: string
  c_source_template :: string
  c_max_depth :: int64
  c_proto_dump :: bool
  c_source_path :: string

definition no_overrides :: executor_overrides where
  "no_overrides = \<lparr>x_name = [], x_type = [], x_build_name = [], x_build_url = [], x_report_name = [],
     x_report_url = []\<rparr>"

definition defaults :: config where
  "defaults = \<lparr>c_results_dir = [], c_clean = True, c_allow_non_owned = False,
     c_compatibility = ''allure2-and-3'', c_write_mode = ''streaming'', c_strict = False,
     c_log_level = ''info'', c_screenshots = True, c_messages = True, c_tables = True,
     c_max_bytes = 104857600, c_follow_links = False, c_allow_external = False,
     c_context_mode = ''grouped-steps'', c_teardown_mode = ''grouped-steps'', c_hook_mode = ''fixtures'',
     c_behavior_from_spec = False, c_issue_pattern = [], c_tms_pattern = [], c_link_pattern = [],
     c_env_allowlist = [], c_promote = [], c_mask = [], c_hide = [], c_exclude_history = [], c_redact = [],
     c_executor_auto = True, c_executor = no_overrides, c_categories_file = [],
     c_categories_profile = ''none'', c_source_template = [], c_max_depth = 100, c_proto_dump = False,
     c_source_path = []\<rparr>"

text \<open>What the loader gets from outside: the decoder and the process environment as a list.\<close>

record config_lib = unicode +
  lib_yaml :: "string \<Rightarrow> config \<Rightarrow> err + config"
  lib_environ :: "string list"

section \<open>Validation\<close>

definition one_of :: "string \<Rightarrow> string list \<Rightarrow> bool" where
  "one_of v allowed = list_ex (\<lambda>candidate. v = candidate) allowed"

definition modes :: "string list" where
  "modes = [''grouped-steps'', ''flat'', ''fixtures'']"

definition validate :: "config \<Rightarrow> string \<Rightarrow> err option" where
  "validate c project_root =
     (if trim_space project_root = [] then Some (Errorf ''GAUGE project root is empty'' [])
      else if c_results_dir c = [] then Some (Errorf ''results_dir is empty'' [])
      else if \<not> one_of (c_compatibility c) [''allure2-and-3'', ''allure3''] then
        Some (Errorf ''compatibility must be allure2-and-3 or allure3, got %q'' [c_compatibility c])
      else if \<not> one_of (c_write_mode c) [''streaming'', ''suite-final''] then
        Some (Errorf ''write_mode must be streaming or suite-final, got %q'' [c_write_mode c])
      else if \<not> one_of (c_log_level c) [''debug'', ''info'', ''warn'', ''error''] then
        Some (Errorf ''unsupported log_level %q'' [c_log_level c])
      else if \<not> one_of (c_context_mode c) modes then
        Some (Errorf ''unsupported context_mode %q'' [c_context_mode c])
      else if \<not> one_of (c_teardown_mode c) modes then
        Some (Errorf ''unsupported teardown_mode %q'' [c_teardown_mode c])
      else if c_hook_mode c \<noteq> ''fixtures'' then
        Some (Errorf ''hook_mode must be fixtures in this release, got %q'' [c_hook_mode c])
      else if c_max_bytes c \<le>s 0 then Some (Errorf ''max_attachment_bytes must be positive'' [])
      else if c_max_depth c <s 1 \<or> 1000 <s c_max_depth c then
        Some (Errorf ''maximum_nesting_depth must be between 1 and 1000'' [])
      else if \<not> one_of (c_categories_profile c) [''none'', ''gauge-default''] then
        Some (Errorf ''unsupported categories_profile %q'' [c_categories_profile c])
      else None)"

section \<open>The process environment\<close>

definition environment_snapshot :: "string list \<Rightarrow> env_map" where
  "environment_snapshot items =
     fold (\<lambda>item m. case cut ''='' item of None \<Rightarrow> m | Some (k, v) \<Rightarrow> m(k \<mapsto> v)) items Map.empty"

text \<open>\<^verbatim>\<open>strings.FieldsFunc\<close>: the maximal nonempty runs of characters that are not separators.\<close>

fun fields_by :: "(char \<Rightarrow> bool) \<Rightarrow> string \<Rightarrow> string \<Rightarrow> string list" where
  "fields_by p word [] = (if word = [] then [] else [word])"
| "fields_by p word (c # cs) =
     (if p c then (if word = [] then [] else [word]) @ fields_by p [] cs
      else fields_by p (word @ [c]) cs)"

definition list_sep :: "char \<Rightarrow> bool" where
  "list_sep c \<longleftrightarrow> c = CHR '','' \<or> c = CHR '';''"

definition split_list :: "string \<Rightarrow> string list" where
  "split_list v = filter (\<lambda>f. f \<noteq> []) (map trim_space (fields_by list_sep [] v))"

text \<open>The targets of the three tables of environment keys.\<close>

definition string_targets :: "(string \<times> (string \<Rightarrow> config \<Rightarrow> config)) list" where
  "string_targets =
     [(''GAUGE_ALLURE_RESULTS_DIR'', \<lambda>v. c_results_dir_update (\<lambda>_. v)),
      (''GAUGE_ALLURE_COMPATIBILITY'', \<lambda>v. c_compatibility_update (\<lambda>_. v)),
      (''GAUGE_ALLURE_WRITE_MODE'', \<lambda>v. c_write_mode_update (\<lambda>_. v)),
      (''GAUGE_ALLURE_LOG_LEVEL'', \<lambda>v. c_log_level_update (\<lambda>_. v)),
      (''GAUGE_ALLURE_CONTEXT_MODE'', \<lambda>v. c_context_mode_update (\<lambda>_. v)),
      (''GAUGE_ALLURE_TEARDOWN_MODE'', \<lambda>v. c_teardown_mode_update (\<lambda>_. v)),
      (''GAUGE_ALLURE_HOOK_MODE'', \<lambda>v. c_hook_mode_update (\<lambda>_. v)),
      (''GAUGE_ALLURE_CATEGORIES_FILE'', \<lambda>v. c_categories_file_update (\<lambda>_. v)),
      (''GAUGE_ALLURE_CATEGORIES_PROFILE'', \<lambda>v. c_categories_profile_update (\<lambda>_. v)),
      (''ALLURE_LINK_ISSUE_PATTERN'', \<lambda>v. c_issue_pattern_update (\<lambda>_. v)),
      (''ALLURE_LINK_TMS_PATTERN'', \<lambda>v. c_tms_pattern_update (\<lambda>_. v)),
      (''ALLURE_LINK_LINK_PATTERN'', \<lambda>v. c_link_pattern_update (\<lambda>_. v))]"

definition bool_targets :: "(string \<times> (bool \<Rightarrow> config \<Rightarrow> config)) list" where
  "bool_targets =
     [(''GAUGE_ALLURE_CLEAN_RESULTS'', \<lambda>v. c_clean_update (\<lambda>_. v)),
      (''GAUGE_ALLURE_ALLOW_CLEAN_NON_OWNED'', \<lambda>v. c_allow_non_owned_update (\<lambda>_. v)),
      (''GAUGE_ALLURE_STRICT'', \<lambda>v. c_strict_update (\<lambda>_. v)),
      (''GAUGE_ALLURE_ATTACH_SCREENSHOTS'', \<lambda>v. c_screenshots_update (\<lambda>_. v)),
      (''GAUGE_ALLURE_ATTACH_MESSAGES'', \<lambda>v. c_messages_update (\<lambda>_. v)),
      (''GAUGE_ALLURE_ATTACH_TABLES'', \<lambda>v. c_tables_update (\<lambda>_. v)),
      (''GAUGE_ALLURE_FOLLOW_SYMLINKS'', \<lambda>v. c_follow_links_update (\<lambda>_. v)),
      (''GAUGE_ALLURE_ALLOW_EXTERNAL_ATTACHMENTS'', \<lambda>v. c_allow_external_update (\<lambda>_. v)),
      (''GAUGE_ALLURE_EXECUTOR_AUTO'', \<lambda>v. c_executor_auto_update (\<lambda>_. v)),
      (''GAUGE_ALLURE_DIAGNOSTIC_PROTO_DUMP'', \<lambda>v. c_proto_dump_update (\<lambda>_. v))]"

definition list_targets :: "(string \<times> (string list \<Rightarrow> config \<Rightarrow> config)) list" where
  "list_targets =
     [(''GAUGE_ALLURE_ENV_ALLOWLIST'', \<lambda>v. c_env_allowlist_update (\<lambda>_. v)),
      (''GAUGE_ALLURE_PROMOTE_PARAMETERS'', \<lambda>v. c_promote_update (\<lambda>_. v)),
      (''GAUGE_ALLURE_MASK_PARAMETERS'', \<lambda>v. c_mask_update (\<lambda>_. v)),
      (''GAUGE_ALLURE_HIDE_PARAMETERS'', \<lambda>v. c_hide_update (\<lambda>_. v)),
      (''GAUGE_ALLURE_EXCLUDE_HISTORY_PARAMETERS'', \<lambda>v. c_exclude_history_update (\<lambda>_. v)),
      (''GAUGE_ALLURE_REDACT'', \<lambda>v. c_redact_update (\<lambda>_. v))]"

text \<open>
  The three loops range over Go maps, whose order is not specified; each takes the targets in the
  order it is given.
\<close>

definition set_string :: "env_map \<Rightarrow> string \<times> (string \<Rightarrow> config \<Rightarrow> config) \<Rightarrow> config \<Rightarrow> config" where
  "set_string env kt c = (case env (fst kt) of None \<Rightarrow> c | Some v \<Rightarrow> if v \<noteq> [] then snd kt v c else c)"

definition set_list :: "env_map \<Rightarrow> string \<times> (string list \<Rightarrow> config \<Rightarrow> config) \<Rightarrow> config \<Rightarrow> config" where
  "set_list env kt c = (case env (fst kt) of None \<Rightarrow> c | Some raw \<Rightarrow> snd kt (split_list raw) c)"

definition bool_error :: "string \<Rightarrow> string \<Rightarrow> err" where
  "bool_error k raw = Wrapf ''parse %s: %w'' [k] (Errorf ''strconv.ParseBool: invalid syntax'' [raw])"

fun set_bools :: "env_map \<Rightarrow> (string \<times> (bool \<Rightarrow> config \<Rightarrow> config)) list \<Rightarrow> config \<Rightarrow> err + config" where
  "set_bools env [] c = Inr c"
| "set_bools env ((k, target) # ts) c =
     (case env k of
        None \<Rightarrow> set_bools env ts c
      | Some raw \<Rightarrow>
          if raw \<noteq> [] then
            (case parse_bool raw of
               None \<Rightarrow> Inl (bool_error k raw)
             | Some v \<Rightarrow> set_bools env ts (target v c))
          else set_bools env ts c)"

definition set_int :: "env_map \<Rightarrow> string \<Rightarrow> (int64 \<Rightarrow> config \<Rightarrow> config) \<Rightarrow> config \<Rightarrow> err + config" where
  "set_int env k target c =
     (let raw = env_get env k in
      if raw = [] then Inr c
      else (case parse_int64 raw of (v, ok) \<Rightarrow>
              if ok then Inr (target v c)
              else Inl (Wrapf (''parse '' @ k @ '': %w'') [] (Errorf ''strconv.ParseInt'' [raw]))))"

definition overwrite_reports :: "env_map \<Rightarrow> config \<Rightarrow> config" where
  "overwrite_reports env c =
     (case env ''overwrite_reports'' of
        None \<Rightarrow> c
      | Some raw \<Rightarrow>
          if env_get env ''GAUGE_ALLURE_CLEAN_RESULTS'' = [] then
            (case parse_bool raw of None \<Rightarrow> c | Some v \<Rightarrow> c\<lparr>c_clean := v\<rparr>)
          else c)"

definition apply_environment_in ::
  "(string \<times> (string \<Rightarrow> config \<Rightarrow> config)) list \<Rightarrow> (string \<times> (bool \<Rightarrow> config \<Rightarrow> config)) list
     \<Rightarrow> (string \<times> (string list \<Rightarrow> config \<Rightarrow> config)) list \<Rightarrow> env_map \<Rightarrow> config \<Rightarrow> err + config" where
  "apply_environment_in ss bs ls env c =
     (case set_bools env bs (fold (set_string env) ss c) of
        Inl e \<Rightarrow> Inl e
      | Inr c \<Rightarrow>
          (case set_int env ''GAUGE_ALLURE_MAX_ATTACHMENT_BYTES'' (\<lambda>v. c_max_bytes_update (\<lambda>_. v)) c of
             Inl e \<Rightarrow> Inl e
           | Inr c \<Rightarrow>
               (case set_int env ''GAUGE_ALLURE_MAX_NESTING_DEPTH'' (\<lambda>v. c_max_depth_update (\<lambda>_. v)) c of
                  Inl e \<Rightarrow> Inl e
                | Inr c \<Rightarrow> Inr (overwrite_reports env (fold (set_list env) ls c)))))"

definition apply_environment :: "env_map \<Rightarrow> config \<Rightarrow> err + config" where
  "apply_environment = apply_environment_in string_targets bool_targets list_targets"

section \<open>Loading\<close>

definition config_path :: "string \<Rightarrow> env_map \<Rightarrow> string" where
  "config_path project_root env =
     (let path = trim_space (env_get env ''GAUGE_ALLURE_CONFIG'') in
      if path = [] then path_join [project_root, ''.gauge'', ''allure-report.yaml'']
      else if \<not> is_abs path then path_join [project_root, path]
      else path)"

definition results_default :: "env_map \<Rightarrow> string" where
  "results_default env =
     (if env_get env ''GAUGE_ALLURE_RESULTS_DIR'' \<noteq> [] then env_get env ''GAUGE_ALLURE_RESULTS_DIR''
      else if env_get env ''ALLURE_RESULTS_DIR'' \<noteq> [] then env_get env ''ALLURE_RESULTS_DIR''
      else if env_get env ''gauge_reports_dir'' \<noteq> [] then
        path_join [env_get env ''gauge_reports_dir'', ''allure-results'']
      else ''reports/allure-results'')"

definition locate_results :: "string \<Rightarrow> env_map \<Rightarrow> config \<Rightarrow> config" where
  "locate_results project_root env c =
     (let dir = (if c_results_dir c = [] then results_default env else c_results_dir c);
          dir = (if is_abs dir then dir else path_join [project_root, dir])
      in c\<lparr>c_results_dir := clean dir\<rparr>)"

definition read_config :: "'u config_lib_scheme \<Rightarrow> string \<Rightarrow> env_map \<Rightarrow> world \<Rightarrow> (err + config) \<times> world" where
  "read_config lib path env w =
     (case os_read_file path w of
        (Inr data, w) \<Rightarrow>
          (case lib_yaml lib data defaults of
             Inl e \<Rightarrow> (Inl (Wrapf ''decode configuration %s: %w'' [path] e), w)
           | Inr c \<Rightarrow> (Inr (c\<lparr>c_source_path := path\<rparr>), w))
      | (Inl e, w) \<Rightarrow>
          if \<not> is_not_exist e then (Inl (Wrapf ''read configuration %s: %w'' [path] e), w)
          else if env_get env ''GAUGE_ALLURE_CONFIG'' \<noteq> [] then
            (Inl (Errorf ''configured file does not exist: %s'' [path]), w)
          else (Inr defaults, w))"

definition load :: "'u config_lib_scheme \<Rightarrow> string \<Rightarrow> env_map option \<Rightarrow> world \<Rightarrow> (err + config) \<times> world" where
  "load lib project_root env w =
     (let env = (case env of None \<Rightarrow> environment_snapshot (lib_environ lib) | Some m \<Rightarrow> m) in
      case read_config lib (config_path project_root env) env w of
        (Inl e, w) \<Rightarrow> (Inl e, w)
      | (Inr c, w) \<Rightarrow>
          (case apply_environment env c of
             Inl e \<Rightarrow> (Inl e, w)
           | Inr c \<Rightarrow>
               (let c = locate_results project_root env c in
                case validate c project_root of
                  Some e \<Rightarrow> (Inl e, w)
                | None \<Rightarrow> (Inr c, w))))"

section \<open>The order of the environment tables does not matter\<close>

text \<open>
  All three loops write, for each key that has a value, that value through the key's target; the
  targets of a table write different fields, so they commute.
\<close>

definition apply_target :: "(string \<Rightarrow> 'a option) \<Rightarrow> string \<times> ('a \<Rightarrow> config \<Rightarrow> config) \<Rightarrow> config \<Rightarrow> config" where
  "apply_target val kt c = (case val (fst kt) of None \<Rightarrow> c | Some u \<Rightarrow> snd kt u c)"

fun independent :: "(string \<times> ('a \<Rightarrow> config \<Rightarrow> config)) list \<Rightarrow> bool" where
  "independent [] = True"
| "independent (x # xs) \<longleftrightarrow>
     (\<forall>y \<in> set xs. \<forall>u v c. snd x u (snd y v c) = snd y v (snd x u c)) \<and> independent xs"

lemma independent_strings: "independent string_targets"
  by (simp add: string_targets_def)

lemma independent_bools: "independent bool_targets"
  by (simp add: bool_targets_def)

lemma independent_lists: "independent list_targets"
  by (simp add: list_targets_def)

lemmas independent_targets = independent_strings independent_bools independent_lists

lemma independentD:
  "independent ts \<Longrightarrow> x \<in> set ts \<Longrightarrow> y \<in> set ts \<Longrightarrow> x \<noteq> y \<Longrightarrow> snd x u (snd y v c) = snd y v (snd x u c)"
  by (induction ts) auto

lemma apply_target_commute:
  "independent ts \<Longrightarrow> x \<in> set ts \<Longrightarrow> y \<in> set ts \<Longrightarrow>
     apply_target val x \<circ> apply_target val y = apply_target val y \<circ> apply_target val x"
  by (cases "x = y") (auto simp: apply_target_def fun_eq_iff dest: independentD split: option.split)

lemma fold_targets_perm:
  assumes "independent ts" and "mset ss = mset ts"
  shows "fold (apply_target val) ss = fold (apply_target val) ts"
proof (rule fold_multiset_equiv [OF _ assms(2)])
  have "set ss = set ts" using assms(2) by (metis set_mset_mset)
  then show "\<And>x y. x \<in> set ss \<Longrightarrow> y \<in> set ss
      \<Longrightarrow> apply_target val x \<circ> apply_target val y = apply_target val y \<circ> apply_target val x"
    using apply_target_commute [OF assms(1)] by metis
qed

definition nonempty_val :: "env_map \<Rightarrow> string \<Rightarrow> string option" where
  "nonempty_val env k = (case env k of None \<Rightarrow> None | Some v \<Rightarrow> if v \<noteq> [] then Some v else None)"

lemma set_string_target: "set_string env = apply_target (nonempty_val env)"
  by (auto simp: set_string_def apply_target_def nonempty_val_def fun_eq_iff split: option.split)

lemma set_list_target: "set_list env = apply_target (\<lambda>k. map_option split_list (env k))"
  by (auto simp: set_list_def apply_target_def fun_eq_iff split: option.split)

definition bool_ok :: "env_map \<Rightarrow> string \<Rightarrow> bool" where
  "bool_ok env k \<longleftrightarrow> (\<forall>raw. nonempty_val env k = Some raw \<longrightarrow> parse_bool raw \<noteq> None)"

lemma set_bools_Inr_iff:
  "set_bools env ts c = Inr d \<longleftrightarrow>
     (\<forall>kt \<in> set ts. bool_ok env (fst kt)) \<and>
     d = fold (apply_target (\<lambda>k. Option.bind (nonempty_val env k) parse_bool)) ts c"
  by (induction env ts c rule: set_bools.induct)
    (auto simp: bool_ok_def nonempty_val_def apply_target_def split: option.splits if_splits)

section \<open>Lists\<close>

lemma fields_by_join:
  "\<forall>c \<in> set w. \<not> p c \<Longrightarrow> \<forall>x \<in> set xs. x \<noteq> [] \<and> (\<forall>c \<in> set x. \<not> p c) \<Longrightarrow> p s \<Longrightarrow>
     fields_by p w (concat (map (\<lambda>x. s # x) xs)) = (if w = [] then [] else [w]) @ xs"
proof (induction xs arbitrary: w)
  case (Cons x xs)
  have go: "fields_by p v (y @ rest) = fields_by p (v @ y) rest" if "\<forall>c \<in> set y. \<not> p c" for v y rest
    using that by (induction y arbitrary: v) auto
  show ?case using Cons by (auto simp: go)
qed simp

lemma join_sep_concat: "join [s] (x # xs) = x @ concat (map (\<lambda>x. s # x) xs)"
  by (induction xs arbitrary: x) auto

lemma fields_by_elems:
  "list_all (\<lambda>c. \<not> p c) w \<Longrightarrow> list_all (\<lambda>x. x \<noteq> [] \<and> list_all (\<lambda>c. \<not> p c) x) (fields_by p w cs)"
  by (induction p w cs rule: fields_by.induct) simp_all

section \<open>Properties\<close>

lemma if_Some_None: "(if a then Some e else r) = None \<longleftrightarrow> \<not> a \<and> r = None"
  by simp

text \<open>
  Validation accepts exactly the configurations of the documented form.
\<close>

theorem validate_iff:
  "validate c r = None \<longleftrightarrow>
     trim_space r \<noteq> [] \<and> c_results_dir c \<noteq> [] \<and> c_compatibility c \<in> {''allure2-and-3'', ''allure3''} \<and>
     c_write_mode c \<in> {''streaming'', ''suite-final''} \<and>
     c_log_level c \<in> {''debug'', ''info'', ''warn'', ''error''} \<and>
     c_context_mode c \<in> {''grouped-steps'', ''flat'', ''fixtures''} \<and>
     c_teardown_mode c \<in> {''grouped-steps'', ''flat'', ''fixtures''} \<and> c_hook_mode c = ''fixtures'' \<and>
     0 < sint (c_max_bytes c) \<and> 1 \<le> sint (c_max_depth c) \<and> sint (c_max_depth c) \<le> 1000 \<and>
     c_categories_profile c \<in> {''none'', ''gauge-default''}"
  unfolding validate_def if_Some_None one_of_def modes_def
  by (simp add: sint_simps not_less not_le)

lemma quiet_read_config: "quiet w (snd (read_config lib p env w))"
  using quiet_reads(3) [of w p] by (auto simp: read_config_def split: prod.split sum.split)

lemma load_effect:
  assumes "load lib r env w = (res, w')"
  shows "quiet w w' \<and> (\<forall>c. res = Inr c \<longrightarrow>
     validate c r = None \<and> (\<exists>d. c_results_dir c = clean d \<and> (is_abs r \<longrightarrow> is_abs (c_results_dir c))))"
proof -
  have dir: "\<exists>d. c_results_dir (locate_results r e c) = clean d \<and>
      (is_abs r \<longrightarrow> is_abs (c_results_dir (locate_results r e c)))" for e c
    by (auto simp: locate_results_def Let_def is_abs_clean is_abs_path_join)
  show ?thesis
    using assms dir quiet_read_config [of w lib "config_path r (case env of None \<Rightarrow> environment_snapshot (lib_environ lib) | Some m \<Rightarrow> m)"
        "case env of None \<Rightarrow> environment_snapshot (lib_environ lib) | Some m \<Rightarrow> m"]
    unfolding load_def Let_def
    by (auto split: prod.splits sum.splits option.splits)
qed

text \<open>
  C29.  Every configuration the loader returns is validated, with a clean results directory that is
  absolute when the project root is; loading reads and never writes.
\<close>

theorem load_validated:
  assumes "load lib r env w = (res, w')"
  shows "quiet w w' \<and> (\<forall>c. res = Inr c \<longrightarrow>
     validate c r = None \<and> (\<exists>d. c_results_dir c = clean d \<and> (is_abs r \<longrightarrow> is_abs (c_results_dir c))))"
  using load_effect [OF assms] .

definition plain_lib :: config_lib where
  "plain_lib = unicode.extend ascii_tables (config_lib.fields (\<lambda>data c. Inr c) [])"

theorem load_validated_witness:
  "\<exists>c w'. load plain_lib ''/p'' (Some Map.empty) (calm_world []) = (Inr c, w') \<and>
     validate c ''/p'' = None \<and> is_abs (c_results_dir c)"
proof -
  obtain res w' where l: "load plain_lib ''/p'' (Some Map.empty) (calm_world []) = (res, w')" by fastforce
  have "\<not> isl (fst (load plain_lib ''/p'' (Some Map.empty) (calm_world [])))" by code_simp
  then obtain c where c: "res = Inr c" using l by (cases res) simp_all
  have "is_abs ''/p''" by code_simp
  then show ?thesis using load_validated [OF l] l c by blast
qed

text \<open>
  C30.  The outcome of applying the environment does not depend on the order in which Go iterates over
  its tables: every order succeeds on the same environments, with the same configuration.
\<close>

theorem apply_environment_any_order:
  assumes "mset ss = mset string_targets" and "mset bs = mset bool_targets" and "mset ls = mset list_targets"
  shows "apply_environment_in ss bs ls env c = Inr d \<longleftrightarrow> apply_environment env c = Inr d"
proof -
  note perm = fold_targets_perm [OF independent_targets(1) assms(1)]
    fold_targets_perm [OF independent_targets(2) assms(2)] fold_targets_perm [OF independent_targets(3) assms(3)]
  have "set bs = set bool_targets" using assms(2) by (metis set_mset_mset)
  then have bools: "set_bools env bs x = Inr y \<longleftrightarrow> set_bools env bool_targets x = Inr y" for x y
    by (simp add: set_bools_Inr_iff perm)
  define x where "x = fold (apply_target (nonempty_val env)) string_targets c"
  have "(\<exists>y. set_bools env bs x = Inr y \<and> set_bools env bool_targets x = Inr y) \<or>
      (\<exists>e f. set_bools env bs x = Inl e \<and> set_bools env bool_targets x = Inl f)"
    using bools [of x] by (metis sum.exhaust)
  then show ?thesis
    unfolding apply_environment_def apply_environment_in_def set_string_target set_list_target perm
      x_def [symmetric]
    by (elim disjE exE conjE) simp_all
qed

theorem apply_environment_any_order_witness:
  "apply_environment_in (rev string_targets) (rev bool_targets) (rev list_targets) [''GAUGE_ALLURE_STRICT'' \<mapsto> ''true''] defaults
       = Inr (defaults\<lparr>c_strict := True\<rparr>)
     \<longleftrightarrow> apply_environment [''GAUGE_ALLURE_STRICT'' \<mapsto> ''true''] defaults = Inr (defaults\<lparr>c_strict := True\<rparr>)"
  by (rule apply_environment_any_order) simp_all

text \<open>
  A list in the environment is split into trimmed nonempty items without separators, and any list
  of such items joined by commas or semicolons is read back.
\<close>

theorem split_list_roundtrip:
  "(\<forall>x \<in> set (split_list v). x \<noteq> [] \<and> CHR '','' \<notin> set x \<and> CHR '';'' \<notin> set x) \<and>
   ((\<forall>x \<in> set xs. x \<noteq> [] \<and> CHR '','' \<notin> set x \<and> CHR '';'' \<notin> set x \<and> trim_space x = x) \<and> list_sep s
      \<longrightarrow> split_list (join [s] xs) = xs)"
proof (intro conjI ballI impI)
  fix x assume "x \<in> set (split_list v)"
  then obtain y where y: "y \<in> set (fields_by list_sep [] v)" "x = trim_space y" "x \<noteq> []"
    by (auto simp: split_list_def)
  then have "\<forall>c \<in> set y. \<not> list_sep c" using fields_by_elems [of list_sep "[]" v] by (simp add: list_all_iff)
  then show "x \<noteq> []" "CHR '','' \<notin> set x" "CHR '';'' \<notin> set x"
    using y set_trim_space [of y] by (auto simp: list_sep_def)
next
  assume a: "(\<forall>x \<in> set xs. x \<noteq> [] \<and> CHR '','' \<notin> set x \<and> CHR '';'' \<notin> set x \<and> trim_space x = x) \<and> list_sep s"
  have no: "\<forall>x \<in> set xs. x \<noteq> [] \<and> (\<forall>c \<in> set x. \<not> list_sep c)" using a by (auto simp: list_sep_def)
  have go: "fields_by list_sep v (y @ rest) = fields_by list_sep (v @ y) rest" if "\<forall>c \<in> set y. \<not> list_sep c" for v y rest
    using that by (induction y arbitrary: v) auto
  have "fields_by list_sep [] (join [s] xs) = xs"
  proof (cases xs)
    case (Cons x ys)
    have "fields_by list_sep [] (join [s] (x # ys)) = fields_by list_sep x (concat (map (\<lambda>x. s # x) ys))"
      using no Cons by (simp only: join_sep_concat) (simp add: go)
    then show ?thesis using fields_by_join [of x list_sep ys s] no a Cons by simp
  qed simp
  then show "split_list (join [s] xs) = xs"
    using a by (simp add: split_list_def map_idI filter_id_conv)
qed

theorem split_list_roundtrip_witness:
  "split_list (join [CHR '';''] [''a'', ''b c'']) = [''a'', ''b c'']"
proof -
  have "trim_space ''a'' = ''a''" "trim_space ''b c'' = ''b c''" by code_simp+
  then show ?thesis
    using split_list_roundtrip [of "[]" "[''a'', ''b c'']" "CHR '';''"] by (simp add: list_sep_def)
qed

end
