(* ===== verification/Metadata.thy ===== *)
theory Metadata
  imports Config Go_Codec Allure_Model
begin

text \<open>
  \<^verbatim>\<open>internal/metadata/metadata.go\<close>: reserved tags, the CI executor, the environment allowlist and
  redaction.  \<^verbatim>\<open>url.Parse\<close>, the build's platform names and the injected version are parameters.
\<close>

record parsed_url =
  url_scheme :: string
  url_host :: string
  url_has_user :: bool

record meta_lib = config_lib +
  lib_parse_url :: "string \<Rightarrow> parsed_url option"
  lib_goos :: string
  lib_goarch :: string
  lib_version :: string

section \<open>URLs\<close>

definition safe_url :: "'u meta_lib_scheme \<Rightarrow> string \<Rightarrow> bool" where
  "safe_url lib v =
     (case lib_parse_url lib v of
        None \<Rightarrow> False
      | Some p \<Rightarrow> (url_scheme p = ''http'' \<or> url_scheme p = ''https'') \<and> url_host p \<noteq> [] \<and> \<not> url_has_user p)"

definition keep_safe_url :: "'u meta_lib_scheme \<Rightarrow> string \<Rightarrow> string" where
  "keep_safe_url lib v = (if safe_url lib v then v else [])"

definition expand_link :: "string \<Rightarrow> string \<Rightarrow> string" where
  "expand_link pat v =
     (if pat = [] then []
      else if contains pat ''{}'' then replace_all pat ''{}'' (path_escape v)
      else if contains pat ''%s'' then replace_all pat ''%s'' (path_escape v)
      else trim_suffix pat ''/'' @ ''/'' @ path_escape v)"

section \<open>Tags\<close>

text \<open>The first unescaped colon; a backslash escapes the rune after it.\<close>

fun split_runes :: "bool \<Rightarrow> string \<Rightarrow> (nat \<times> string) list \<Rightarrow> (string \<times> string) option" where
  "split_runes escaped before [] = None"
| "split_runes escaped before ((r, bytes) # rest) =
     (if escaped then split_runes False (before @ bytes) rest
      else if r = 92 then split_runes True (before @ bytes) rest
      else if r = 58 then Some (before, concat (map snd rest))
      else split_runes False (before @ bytes) rest)"

fun unescape_runes :: "bool \<Rightarrow> (nat \<times> string) list \<Rightarrow> string" where
  "unescape_runes escaped [] = (if escaped then [backslash] else [])"
| "unescape_runes escaped ((r, bytes) # rest) =
     (if escaped then encode_rune r @ unescape_runes False rest
      else if r = 92 then unescape_runes True rest
      else encode_rune r @ unescape_runes False rest)"

definition unescape :: "string \<Rightarrow> string" where
  "unescape v = unescape_runes False (runes v)"

definition split_tag :: "string \<Rightarrow> string \<times> string \<times> bool" where
  "split_tag tag =
     (case split_runes False [] (runes tag) of
        None \<Rightarrow> ([], [], False)
      | Some (before, after) \<Rightarrow>
          (let key = trim_space (unescape before); val = trim_space (unescape after)
           in (key, val, key \<noteq> [] \<and> val \<noteq> [])))"

definition label_rune :: "nat \<Rightarrow> bool" where
  "label_rune r \<longleftrightarrow> r = 95 \<or> r = 45 \<or> cont_in 97 122 r \<or> cont_in 65 90 r \<or> cont_in 48 57 r"

definition valid_label_name :: "string \<Rightarrow> bool" where
  "valid_label_name v \<longleftrightarrow> \<not> (v = [] \<or> 64 < length v) \<and> list_all (\<lambda>(r, _). label_rune r) (runes v)"

record parsed_tags =
  pt_labels :: "label list"
  pt_links :: "link list"
  pt_warnings :: "err list"
  pt_seen_labels :: "string set"
  pt_seen_links :: "string set"

definition label_key :: "string \<Rightarrow> string \<Rightarrow> string" where
  "label_key name v = name @ nul # v"

definition add_label :: "string \<Rightarrow> string \<Rightarrow> parsed_tags \<Rightarrow> parsed_tags" where
  "add_label name v s =
     (if label_key name v \<in> pt_seen_labels s then s
      else s\<lparr>pt_seen_labels := insert (label_key name v) (pt_seen_labels s),
             pt_labels := pt_labels s @ [\<lparr>l_name = name, l_value = v\<rparr>]\<rparr>)"

definition tag_warning :: "err \<Rightarrow> parsed_tags \<Rightarrow> parsed_tags" where
  "tag_warning e s = s\<lparr>pt_warnings := pt_warnings s @ [e]\<rparr>"

definition add_link :: "string \<Rightarrow> string \<Rightarrow> string \<Rightarrow> parsed_tags \<Rightarrow> parsed_tags" where
  "add_link link_type address v s =
     (let identity = link_type @ nul # address @ nul # v in
      if identity \<in> pt_seen_links s then s
      else s\<lparr>pt_seen_links := insert identity (pt_seen_links s),
             pt_links := pt_links s @ [\<lparr>k_type = link_type, k_name = v, k_url = address\<rparr>]\<rparr>)"

definition link_address :: "config \<Rightarrow> string \<Rightarrow> string \<Rightarrow> string" where
  "link_address cfg link_type v =
     (let pat = (if link_type = ''issue'' then c_issue_pattern cfg
                 else if link_type = ''tms'' then c_tms_pattern cfg else c_link_pattern cfg);
          address = expand_link pat v
      in if address = [] \<and> link_type = ''link'' then v else address)"

definition parse_tag :: "'u meta_lib_scheme \<Rightarrow> config \<Rightarrow> string \<Rightarrow> parsed_tags \<Rightarrow> parsed_tags" where
  "parse_tag lib cfg tag s =
     (case split_tag tag of (key, v, ok) \<Rightarrow>
        if \<not> ok then s
        else if key = ''allure.id'' then add_label ''ALLURE_ID'' v s
        else if has_prefix key ''allure.label.'' then
          (let name = trim_prefix key ''allure.label.'' in
           if \<not> valid_label_name name then tag_warning (Errorf ''ignored invalid Allure label name %q'' [name]) s
           else add_label name v s)
        else if has_prefix key ''allure.link.'' then
          (let link_type = trim_prefix key ''allure.link.'' in
           if link_type \<notin> {''issue'', ''tms'', ''link''} then
             tag_warning (Errorf ''ignored unsupported Allure link type %q'' [link_type]) s
           else
             (let address = link_address cfg link_type v in
              if \<not> safe_url lib address then
                tag_warning (Errorf ''ignored unsafe or incomplete %s link'' [link_type]) s
              else add_link link_type address v s))
        else s)"

definition no_tags :: parsed_tags where
  "no_tags = \<lparr>pt_labels = [], pt_links = [], pt_warnings = [], pt_seen_labels = {}, pt_seen_links = {}\<rparr>"

definition parse_tags :: "'u meta_lib_scheme \<Rightarrow> string list \<Rightarrow> config \<Rightarrow> parsed_tags" where
  "parse_tags lib tags cfg = fold (parse_tag lib cfg) tags no_tags"

section \<open>Executor\<close>

definition empty_executor :: executor where
  "empty_executor = \<lparr>e_name = [], e_type = [], e_build_name = [], e_build_order = 0, e_build_url = [],
     e_report_name = [], e_report_url = []\<rparr>"

definition ci_executor :: "string \<Rightarrow> string \<Rightarrow> string \<Rightarrow> string \<Rightarrow> string \<Rightarrow> executor" where
  "ci_executor name ty build order url =
     empty_executor\<lparr>e_name := name, e_type := ty, e_build_name := build,
       e_build_order := fst (parse_int64 order), e_build_url := url\<rparr>"

text \<open>The table of CI providers; \<^const>\<open>None\<close> when no provider's variables are set.\<close>

definition detect_executor :: "env_map \<Rightarrow> executor option" where
  "detect_executor env =
     (let g = env_get env in
      if g ''JENKINS_URL'' \<noteq> [] \<or> g ''BUILD_URL'' \<noteq> [] \<and> g ''JENKINS_HOME'' \<noteq> [] then
        Some (ci_executor ''Jenkins'' ''jenkins'' (first_nonempty [g ''JOB_NAME'', g ''BUILD_TAG''])
                (g ''BUILD_NUMBER'') (g ''BUILD_URL''))
      else if g ''GITHUB_ACTIONS'' = ''true'' then
        Some (ci_executor ''GitHub Actions'' ''github'' (first_nonempty [g ''GITHUB_WORKFLOW'', g ''GITHUB_JOB''])
                (g ''GITHUB_RUN_NUMBER'')
                (if g ''GITHUB_SERVER_URL'' \<noteq> [] \<and> g ''GITHUB_REPOSITORY'' \<noteq> [] \<and> g ''GITHUB_RUN_ID'' \<noteq> [] then
                   trim_suffix (g ''GITHUB_SERVER_URL'') ''/'' @ ''/'' @ g ''GITHUB_REPOSITORY''
                     @ ''/actions/runs/'' @ g ''GITHUB_RUN_ID''
                 else []))
      else if g ''GITLAB_CI'' = ''true'' then
        Some (ci_executor ''GitLab CI'' ''gitlab'' (first_nonempty [g ''CI_JOB_NAME'', g ''CI_PIPELINE_NAME''])
                (g ''CI_PIPELINE_IID'') (first_nonempty [g ''CI_JOB_URL'', g ''CI_PIPELINE_URL'']))
      else if g ''TF_BUILD'' = ''True'' \<or> g ''TF_BUILD'' = ''true'' then
        Some (ci_executor ''Azure Pipelines'' ''azure'' (g ''BUILD_BUILDNUMBER'') (g ''BUILD_BUILDID'')
                (if g ''SYSTEM_TEAMFOUNDATIONCOLLECTIONURI'' \<noteq> [] \<and> g ''SYSTEM_TEAMPROJECT'' \<noteq> []
                     \<and> g ''BUILD_BUILDID'' \<noteq> [] then
                   trim_suffix (g ''SYSTEM_TEAMFOUNDATIONCOLLECTIONURI'') ''/'' @ ''/''
                     @ path_escape (g ''SYSTEM_TEAMPROJECT'') @ ''/_build/results?buildId=''
                     @ query_escape (g ''BUILD_BUILDID'')
                 else []))
      else if g ''TEAMCITY_VERSION'' \<noteq> [] then
        Some (ci_executor ''TeamCity'' ''teamcity'' (g ''TEAMCITY_BUILDCONF_NAME'') (g ''BUILD_NUMBER'') (g ''BUILD_URL''))
      else if g ''CIRCLECI'' = ''true'' then
        Some (ci_executor ''CircleCI'' ''circleci'' (g ''CIRCLE_JOB'') (g ''CIRCLE_BUILD_NUM'') (g ''CIRCLE_BUILD_URL''))
      else if g ''CI'' \<noteq> [] then
        Some (empty_executor\<lparr>e_name := ''CI'', e_type := ''generic'',
                e_build_name := first_nonempty [g ''CI_JOB_NAME'', g ''BUILD_NAME''],
                e_build_url := first_nonempty [g ''CI_JOB_URL'', g ''BUILD_URL'']\<rparr>)
      else None)"

definition apply_overrides :: "executor_overrides \<Rightarrow> executor \<Rightarrow> executor" where
  "apply_overrides ov e = e\<lparr>
     e_name := (if x_name ov \<noteq> [] then x_name ov else e_name e),
     e_type := (if x_type ov \<noteq> [] then x_type ov else e_type e),
     e_build_name := (if x_build_name ov \<noteq> [] then x_build_name ov else e_build_name e),
     e_build_url := (if x_build_url ov \<noteq> [] then x_build_url ov else e_build_url e),
     e_report_name := (if x_report_name ov \<noteq> [] then x_report_name ov else e_report_name e),
     e_report_url := (if x_report_url ov \<noteq> [] then x_report_url ov else e_report_url e)\<rparr>"

definition executor_info :: "'u meta_lib_scheme \<Rightarrow> env_map \<Rightarrow> executor_overrides \<Rightarrow> executor option" where
  "executor_info lib env overrides =
     (let finish = (\<lambda>e. let e = apply_overrides overrides e
                         in e\<lparr>e_build_url := keep_safe_url lib (e_build_url e),
                              e_report_url := keep_safe_url lib (e_report_url e)\<rparr>)
      in case detect_executor env of
           Some e \<Rightarrow> Some (finish e)
         | None \<Rightarrow>
             if x_name overrides = [] \<and> x_type overrides = [] then None else Some (finish empty_executor))"

section \<open>Environment allowlist and redaction\<close>

definition redaction_mark :: string where "redaction_mark = ''[REDACTED]''"

definition redact :: "string \<Rightarrow> string list \<Rightarrow> string" where
  "redact v secrets =
     fold (\<lambda>secret v. if secret \<noteq> [] then replace_all v secret redaction_mark else v) secrets v"

definition secret_fragments :: "string list" where
  "secret_fragments = [''token'', ''secret'', ''password'', ''credential'', ''private'', ''key'']"

definition safe_environment_key :: "'u unicode_scheme \<Rightarrow> string \<Rightarrow> bool" where
  "safe_environment_key u v =
     (let lower = to_lower u v in
      if list_ex (contains lower) secret_fragments then False else v \<noteq> [] \<and> length v \<le> 128)"

text \<open>
  The map the environment file is written from: an association list with one entry per key, updated
  in place.
\<close>

type_synonym properties = "(string \<times> string) list"

definition put_nonempty :: "string \<Rightarrow> string \<Rightarrow> properties \<Rightarrow> properties" where
  "put_nonempty k v m = (if v \<noteq> [] then AList.update k v m else m)"

text \<open>The keys the reporter sets itself, and then the allowlisted variables.\<close>

definition environment_base ::
  "'u meta_lib_scheme \<Rightarrow> env_map \<Rightarrow> string \<Rightarrow> string \<Rightarrow> int32 \<Rightarrow> properties" where
  "environment_base lib env project gauge_environment streams =
     (let m = [(''allure-report.version'', lib_version lib), (''os'', lib_goos lib @ ''/'' @ lib_goarch lib)];
          m = put_nonempty ''gauge.project'' project m;
          m = put_nonempty ''gauge.environment'' gauge_environment m;
          m = put_nonempty ''gauge.language'' (env_get env ''test_language'') m;
          m = put_nonempty ''gauge.version'' (env_get env ''GAUGE_VERSION'') m
      in if 0 <s streams then AList.update ''gauge.parallel_streams'' (show_int (sint streams)) m else m)"

definition allow_variable :: "'u meta_lib_scheme \<Rightarrow> env_map \<Rightarrow> config \<Rightarrow> string \<Rightarrow> properties \<Rightarrow> properties" where
  "allow_variable lib env cfg k m =
     (if safe_environment_key lib k then
        (case env k of None \<Rightarrow> m | Some v \<Rightarrow> AList.update k (redact v (c_redact cfg)) m)
      else m)"

definition environment_info ::
  "'u meta_lib_scheme \<Rightarrow> env_map \<Rightarrow> config \<Rightarrow> string \<Rightarrow> string \<Rightarrow> int32 \<Rightarrow> properties" where
  "environment_info lib env cfg project gauge_environment streams =
     fold (allow_variable lib env cfg) (sort (c_env_allowlist cfg))
       (environment_base lib env project gauge_environment streams)"

section \<open>Redaction\<close>

lemma redact_absent_stays:
  assumes "s \<noteq> []" and "set s \<inter> set redaction_mark = {}" and "\<not> sublist s v"
  shows "\<not> sublist s (redact v secrets)"
  using assms(3)
proof (induction secrets arbitrary: v)
  case (Cons t ts)
  have "\<not> sublist s (if t \<noteq> [] then replace_all v t redaction_mark else v)"
    using Cons.prems sublist_replace_all [of s v t redaction_mark] assms(1,2)
    by (auto simp: redaction_mark_def)
  then show ?case using Cons.IH by (simp add: redact_def)
qed (simp add: redact_def)

lemma redact_removes:
  assumes "s \<in> set secrets" and "s \<noteq> []" and "set s \<inter> set redaction_mark = {}"
  shows "\<not> sublist s (redact v secrets)"
  using assms(1)
proof (induction secrets arbitrary: v)
  case (Cons t ts)
  show ?case
  proof (cases "t = s")
    case True
    have "redaction_mark \<noteq> []" by (simp add: redaction_mark_def)
    then have "\<not> sublist s (replace_all v s redaction_mark)"
      using replace_all_removes assms(2,3) by blast
    then show ?thesis
      using redact_absent_stays [OF assms(2,3), of _ ts] True assms(2) by (simp add: redact_def)
  next
    case False
    then show ?thesis using Cons by (simp add: redact_def)
  qed
qed simp

lemma replace_all_nothing: "\<not> sublist s v \<Longrightarrow> replace_all v s new = v"
  using replace_all_Nil_iff_absent by (simp add: contains_def)

lemma redact_id: "\<forall>s \<in> set secrets. s = [] \<or> \<not> sublist s v \<Longrightarrow> redact v secrets = v"
  by (induction secrets) (auto simp: redact_def replace_all_nothing)

text \<open>
  Redaction is effective: after all replacements no occurrence of any configured secret is left,
  for every nonempty secret that shares no byte with the marker; and a text without secrets is left as
  it is.
\<close>

theorem redact_spec:
  "(\<forall>s \<in> set secrets. s \<noteq> [] \<and> set s \<inter> set redaction_mark = {} \<longrightarrow> \<not> contains (redact v secrets) s) \<and>
   ((\<forall>s \<in> set secrets. s = [] \<or> \<not> contains v s) \<longrightarrow> redact v secrets = v)"
  using redact_removes redact_id by (auto simp: contains_def)

theorem redact_spec_witness:
  "\<not> contains (redact ''id=hunter2 x'' [''hunter2'']) ''hunter2''"
  using redact_spec [of "[''hunter2'']" "''id=hunter2 x''"] by (simp add: redaction_mark_def)

section \<open>The environment allowlist\<close>

definition fixed_keys :: "string set" where
  "fixed_keys = {''allure-report.version'', ''os'', ''gauge.project'', ''gauge.environment'', ''gauge.language'',
     ''gauge.version'', ''gauge.parallel_streams''}"

definition key_set :: "properties \<Rightarrow> string set" where
  "key_set m = fst ` set m"

lemma fold_allow:
  "map_of (fold (allow_variable lib env cfg) ks m) k =
     (if k \<in> set ks \<and> safe_environment_key lib k \<and> env k \<noteq> None
      then map_option (\<lambda>v. redact v (c_redact cfg)) (env k) else map_of m k)"
  by (induction ks arbitrary: m) (auto simp: allow_variable_def update_conv' split: option.splits)

lemma distinct_fold_allow:
  "distinct (map fst m) \<Longrightarrow> distinct (map fst (fold (allow_variable lib env cfg) ks m))"
  by (induction ks arbitrary: m) (simp_all add: allow_variable_def distinct_update split: option.split)

lemma put_nonempty_keys: "key_set (put_nonempty k v m) \<subseteq> insert k (key_set m)"
  using dom_update [of k v m] by (auto simp: put_nonempty_def key_set_def)

lemma distinct_put_nonempty: "distinct (map fst m) \<Longrightarrow> distinct (map fst (put_nonempty k v m))"
  by (simp add: put_nonempty_def distinct_update)

lemma environment_base_keys: "key_set (environment_base lib env project ge streams) \<subseteq> fixed_keys"
proof -
  define m0 where "m0 = [(''allure-report.version'', lib_version lib), (''os'', lib_goos lib @ ''/'' @ lib_goarch lib)]"
  define m1 where "m1 = put_nonempty ''gauge.project'' project m0"
  define m2 where "m2 = put_nonempty ''gauge.environment'' ge m1"
  define m3 where "m3 = put_nonempty ''gauge.language'' (env_get env ''test_language'') m2"
  define m4 where "m4 = put_nonempty ''gauge.version'' (env_get env ''GAUGE_VERSION'') m3"
  have 0: "key_set m0 \<subseteq> fixed_keys" by (simp add: m0_def fixed_keys_def key_set_def)
  have step: "key_set (put_nonempty k v m) \<subseteq> fixed_keys" if "key_set m \<subseteq> fixed_keys" "k \<in> fixed_keys" for k v m
    using that put_nonempty_keys [of k v m] by blast
  have 4: "key_set m4 \<subseteq> fixed_keys"
    unfolding m4_def m3_def m2_def m1_def by (intro step 0) (simp_all add: fixed_keys_def)
  have "''gauge.parallel_streams'' \<in> fixed_keys" by (simp add: fixed_keys_def)
  then have "key_set (AList.update ''gauge.parallel_streams'' v m4) \<subseteq> fixed_keys" for v
    using 4 dom_update [of "''gauge.parallel_streams''" v m4] by (auto simp: key_set_def)
  then show ?thesis
    unfolding environment_base_def Let_def m0_def [symmetric] m1_def [symmetric] m2_def [symmetric]
      m3_def [symmetric] m4_def [symmetric]
    using 4 by simp
qed

lemma distinct_environment_info: "distinct (map fst (environment_info lib env cfg project ge streams))"
  unfolding environment_info_def
proof (rule distinct_fold_allow)
  have "distinct (map fst [(''allure-report.version'', lib_version lib), (''os'', lib_goos lib @ ''/'' @ lib_goarch lib)])"
    by simp
  then show "distinct (map fst (environment_base lib env project ge streams))"
    unfolding environment_base_def Let_def
    by (simp add: distinct_put_nonempty distinct_update del: list.map)
qed

text \<open>
  C6.  The environment file holds nothing but the reporter's fixed keys and allowlisted variables, one
  entry per key: any other key is a member of the allowlist whose lowercased name contains none of the
  secret fragments, with the variable's value after redaction.
\<close>

theorem environment_info_allowlisted:
  "distinct (map fst (environment_info lib env cfg project ge streams)) \<and>
   (map_of (environment_info lib env cfg project ge streams) k = Some x \<longrightarrow> k \<in> fixed_keys \<or>
     (k \<in> set (c_env_allowlist cfg) \<and> safe_environment_key lib k \<and>
      (\<forall>f \<in> set secret_fragments. \<not> contains (to_lower lib k) f) \<and>
      (\<exists>v. env k = Some v \<and> x = redact v (c_redact cfg))))"
proof (rule conjI [OF distinct_environment_info], rule impI)
  assume x: "map_of (environment_info lib env cfg project ge streams) k = Some x"
  have safe: "safe_environment_key lib k \<Longrightarrow> \<forall>f \<in> set secret_fragments. \<not> contains (to_lower lib k) f"
    by (simp add: safe_environment_key_def Let_def list_ex_iff split: if_splits)
  show "k \<in> fixed_keys \<or> (k \<in> set (c_env_allowlist cfg) \<and> safe_environment_key lib k \<and>
      (\<forall>f \<in> set secret_fragments. \<not> contains (to_lower lib k) f) \<and>
      (\<exists>v. env k = Some v \<and> x = redact v (c_redact cfg)))"
  proof (cases "k \<in> set (c_env_allowlist cfg) \<and> safe_environment_key lib k \<and> env k \<noteq> None")
    case True
    then show ?thesis using x safe unfolding environment_info_def fold_allow by auto
  next
    case False
    then have "map_of (environment_base lib env project ge streams) k = Some x"
      using x unfolding environment_info_def fold_allow by (simp split: if_splits)
    then have "k \<in> key_set (environment_base lib env project ge streams)"
      using map_of_SomeD unfolding key_set_def by force
    then show ?thesis using environment_base_keys by blast
  qed
qed

definition plain_meta :: meta_lib where
  "plain_meta = config_lib.extend plain_lib
     (meta_lib.fields (\<lambda>s. Some \<lparr>url_scheme = takeWhile (\<lambda>c. c \<noteq> CHR '':'') s, url_host = ''h'', url_has_user = False\<rparr>)
        ''linux'' ''amd64'' ''0.1.0'')"

theorem environment_info_allowlisted_witness:
  "\<exists>x v. map_of (environment_info plain_meta [''STAGE'' \<mapsto> ''qa''] (defaults\<lparr>c_env_allowlist := [''STAGE'']\<rparr>) [] [] 0)
       ''STAGE'' = Some x
     \<and> ''STAGE'' \<in> set (c_env_allowlist (defaults\<lparr>c_env_allowlist := [''STAGE'']\<rparr>)) \<and> x = redact v []"
proof -
  have "safe_environment_key plain_meta ''STAGE''" by code_simp
  then have e: "map_of (environment_info plain_meta [''STAGE'' \<mapsto> ''qa''] (defaults\<lparr>c_env_allowlist := [''STAGE'']\<rparr>) [] [] 0)
      ''STAGE'' = Some (redact ''qa'' [])"
    unfolding environment_info_def fold_allow by (simp add: defaults_def)
  have "''STAGE'' \<notin> fixed_keys" by (simp add: fixed_keys_def)
  then show ?thesis
    using environment_info_allowlisted [of plain_meta "[''STAGE'' \<mapsto> ''qa'']" "defaults\<lparr>c_env_allowlist := [''STAGE'']\<rparr>"
        "[]" "[]" 0 "''STAGE''" "redact ''qa'' []"] e
    by (auto simp: defaults_def)
qed

section \<open>Escaped tags\<close>

text \<open>How a tag author writes a key or a value that holds colons or backslashes.\<close>

definition escape_tag :: "string \<Rightarrow> string" where
  "escape_tag s = concat (map (\<lambda>c. if c = CHR '':'' \<or> c = backslash then [backslash, c] else [c]) s)"

lemma encode_ascii: "ord c < 128 \<Longrightarrow> encode_rune (ord c) = [c]"
  by (simp add: encode_rune_def cont_in_def)

lemma ord_colon: "ord (CHR '':'') = 58" "ord backslash = 92"
  by (simp_all add: ord_def)

lemma ord_eq_colon: "ord c = 58 \<longleftrightarrow> c = CHR '':''" "ord c = 92 \<longleftrightarrow> c = backslash"
  by (metis chr_ord ord_colon)+

lemma is_ascii_Cons: "is_ascii (c # s) \<longleftrightarrow> ord c < 128 \<and> is_ascii s"
  by (simp add: is_ascii_def)

lemma is_ascii_escape: "is_ascii s \<Longrightarrow> is_ascii (escape_tag s)"
  by (induction s) (auto simp: escape_tag_def is_ascii_def ord_colon)

lemma unescape_escape: "is_ascii s \<Longrightarrow> unescape (escape_tag s) = s"
proof -
  have "is_ascii s \<Longrightarrow> unescape_runes False (map (\<lambda>c. (ord c, [c])) (escape_tag s)) = s"
    by (induction s)
      (auto simp: escape_tag_def is_ascii_Cons encode_ascii ord_eq_colon ord_colon encode_ascii [of "CHR '':''", unfolded ord_colon]
        encode_ascii [of backslash, unfolded ord_colon])
  then show "is_ascii s \<Longrightarrow> unescape (escape_tag s) = s"
    by (simp add: unescape_def runes_ascii is_ascii_escape)
qed

lemma split_runes_escape:
  "split_runes False before (map (\<lambda>c. (ord c, [c])) (escape_tag k) @ rest)
     = split_runes False (before @ escape_tag k) rest"
  by (induction k arbitrary: before) (auto simp: escape_tag_def ord_eq_colon ord_colon)

lemma split_tag_escape:
  assumes "is_ascii k" and "is_ascii v" and "trim_space k \<noteq> []" and "trim_space v \<noteq> []"
  shows "split_tag (escape_tag k @ CHR '':'' # escape_tag v) = (trim_space k, trim_space v, True)"
proof -
  have a: "is_ascii (escape_tag k @ CHR '':'' # escape_tag v)"
    using assms by (simp add: is_ascii_escape is_ascii_Cons ord_colon is_ascii_append)
  have "split_runes False [] (runes (escape_tag k @ CHR '':'' # escape_tag v)) = Some (escape_tag k, escape_tag v)"
    using a by (simp add: runes_ascii split_runes_escape ord_colon comp_def)
  then show ?thesis using assms by (simp add: split_tag_def unescape_escape)
qed

section \<open>Reserved tags\<close>

text \<open>The well-formedness of the labels and links collected so far, with their seen sets.\<close>

definition link_ident :: "link \<Rightarrow> string" where
  "link_ident k = k_type k @ nul # k_url k @ nul # k_name k"

definition tags_ok :: "'u meta_lib_scheme \<Rightarrow> parsed_tags \<Rightarrow> bool" where
  "tags_ok lib s \<longleftrightarrow>
     pt_seen_labels s = (\<lambda>l. label_key (l_name l) (l_value l)) ` set (pt_labels s) \<and>
     pt_seen_links s = link_ident ` set (pt_links s) \<and>
     distinct (pt_labels s) \<and> distinct (pt_links s) \<and>
     (\<forall>l \<in> set (pt_labels s). l_value l \<noteq> [] \<and> (l_name l = ''ALLURE_ID'' \<or> valid_label_name (l_name l))) \<and>
     (\<forall>k \<in> set (pt_links s). k_type k \<in> {''issue'', ''tms'', ''link''} \<and> k_name k \<noteq> [] \<and> safe_url lib (k_url k))"

lemma tags_ok_warning: "tags_ok lib s \<Longrightarrow> tags_ok lib (tag_warning e s)"
  by (simp add: tags_ok_def tag_warning_def)

lemma tags_ok_label:
  assumes "tags_ok lib s" and "v \<noteq> []" and "n = ''ALLURE_ID'' \<or> valid_label_name n"
  shows "tags_ok lib (add_label n v s)"
proof (cases "label_key n v \<in> pt_seen_labels s")
  case False
  then have "\<lparr>l_name = n, l_value = v\<rparr> \<notin> set (pt_labels s)"
    using assms(1) imageI [of "\<lparr>l_name = n, l_value = v\<rparr>" "set (pt_labels s)" "\<lambda>l. label_key (l_name l) (l_value l)"]
    by (auto simp: tags_ok_def)
  then show ?thesis using assms False by (simp add: tags_ok_def add_label_def)
qed (use assms in \<open>simp add: add_label_def\<close>)

lemma tags_ok_link:
  assumes "tags_ok lib s" and "v \<noteq> []" and "ty \<in> {''issue'', ''tms'', ''link''}" and "safe_url lib a"
  shows "tags_ok lib (add_link ty a v s)"
proof (cases "ty @ nul # a @ nul # v \<in> pt_seen_links s")
  case False
  then have "\<lparr>k_type = ty, k_name = v, k_url = a\<rparr> \<notin> set (pt_links s)"
    using assms(1) imageI [of "\<lparr>k_type = ty, k_name = v, k_url = a\<rparr>" "set (pt_links s)" link_ident]
    by (auto simp: tags_ok_def link_ident_def)
  then show ?thesis using assms False by (simp add: tags_ok_def add_link_def link_ident_def)
qed (use assms in \<open>simp add: add_link_def\<close>)

lemma split_tag_nonempty: "split_tag t = (k, v, True) \<Longrightarrow> k \<noteq> [] \<and> v \<noteq> []"
  by (auto simp: split_tag_def Let_def split: option.splits prod.splits)

lemma tags_ok_parse_tag: "tags_ok lib s \<Longrightarrow> tags_ok lib (parse_tag lib cfg t s)"
proof -
  assume ok: "tags_ok lib s"
  obtain k v b where t: "split_tag t = (k, v, b)" by (metis prod_cases3)
  have "b \<Longrightarrow> v \<noteq> []" using t split_tag_nonempty by auto
  then show ?thesis
    using ok unfolding parse_tag_def t Let_def
    by (simp add: tags_ok_warning tags_ok_label tags_ok_link)
qed

text \<open>
  C33.  Whatever the tags and the configured patterns, the labels and links taken from reserved tags are
  distinct; every label has a value and a valid name; every link is of a supported type and its address
  is an \<^verbatim>\<open>http\<close> or \<^verbatim>\<open>https\<close> URL with a host and without credentials.
\<close>

theorem parse_tags_safe:
  "distinct (pt_labels (parse_tags lib tags cfg)) \<and> distinct (pt_links (parse_tags lib tags cfg)) \<and>
   (\<forall>l \<in> set (pt_labels (parse_tags lib tags cfg)).
      l_value l \<noteq> [] \<and> (l_name l = ''ALLURE_ID'' \<or> valid_label_name (l_name l))) \<and>
   (\<forall>k \<in> set (pt_links (parse_tags lib tags cfg)).
      k_type k \<in> {''issue'', ''tms'', ''link''} \<and> k_name k \<noteq> [] \<and> safe_url lib (k_url k))"
proof -
  have "tags_ok lib (fold (parse_tag lib cfg) tags s)" if "tags_ok lib s" for s
    using that by (induction tags arbitrary: s) (simp_all add: tags_ok_parse_tag)
  moreover have "tags_ok lib no_tags" by (simp add: tags_ok_def no_tags_def)
  ultimately have "tags_ok lib (parse_tags lib tags cfg)" unfolding parse_tags_def by blast
  then show ?thesis by (simp add: tags_ok_def)
qed

theorem parse_tags_safe_witness:
  "\<exists>l. pt_labels (parse_tags plain_meta [''allure.id:7'', ''allure.id:7''] defaults) = [l] \<and>
     l_value l \<noteq> [] \<and> (l_name l = ''ALLURE_ID'' \<or> valid_label_name (l_name l))"
proof -
  have t: "trim_space ''allure.id'' = ''allure.id''" "trim_space ''7'' = ''7''" by code_simp+
  have "split_tag (escape_tag ''allure.id'' @ CHR '':'' # escape_tag ''7'') = (''allure.id'', ''7'', True)"
    by (subst split_tag_escape) (simp_all add: t is_ascii_def ord_def)
  then have "split_tag ''allure.id:7'' = (''allure.id'', ''7'', True)" by (simp add: escape_tag_def)
  then have "pt_labels (parse_tags plain_meta [''allure.id:7'', ''allure.id:7''] defaults)
      = [\<lparr>l_name = ''ALLURE_ID'', l_value = ''7''\<rparr>]"
    by (simp add: parse_tags_def parse_tag_def add_label_def no_tags_def)
  then show ?thesis
    using parse_tags_safe [of plain_meta "[''allure.id:7'', ''allure.id:7'']" defaults] by auto
qed

text \<open>
  C39.  Escaping is faithful: a key and a value, each with its colons and backslashes escaped, joined by
  a colon, are read back as written up to surrounding white space, whatever colons and backslashes they
  contain (for ASCII text).
\<close>

theorem split_tag_roundtrip:
  assumes "is_ascii k" and "is_ascii v" and "trim_space k \<noteq> []" and "trim_space v \<noteq> []"
  shows "split_tag (escape_tag k @ CHR '':'' # escape_tag v) = (trim_space k, trim_space v, True)"
  using assms by (rule split_tag_escape)

theorem split_tag_roundtrip_witness:
  "split_tag (escape_tag ''allure.link.link'' @ CHR '':'' # escape_tag ''http://x'')
     = (''allure.link.link'', ''http://x'', True)"
proof -
  have a: "is_ascii ''allure.link.link''" "is_ascii ''http://x''" by code_simp+
  have t: "trim_space ''allure.link.link'' = ''allure.link.link''" "trim_space ''http://x'' = ''http://x''"
    by code_simp+
  have "split_tag (escape_tag ''allure.link.link'' @ CHR '':'' # escape_tag ''http://x'')
      = (trim_space ''allure.link.link'', trim_space ''http://x'', True)"
    by (rule split_tag_roundtrip) (simp_all add: a t)
  then show ?thesis by (simp only: t)
qed

text \<open>
  Executor metadata never carries an unsafe address: the build and report URLs are empty or safe,
  whether they come from the provider's variables or from the overrides, and there is metadata exactly
  when a provider is detected or an override names one.
\<close>

theorem executor_info_safe:
  "(executor_info lib env ov = None \<longleftrightarrow> detect_executor env = None \<and> x_name ov = [] \<and> x_type ov = []) \<and>
   (case executor_info lib env ov of
      None \<Rightarrow> True
    | Some e \<Rightarrow> (e_build_url e = [] \<or> safe_url lib (e_build_url e)) \<and>
                (e_report_url e = [] \<or> safe_url lib (e_report_url e)))"
  by (simp add: executor_info_def Let_def keep_safe_url_def split: option.split)

end
