(* ===== verification/Output_Writer.thy ===== *)
theory Output_Writer
  imports Metadata
begin

text \<open>
  \<^verbatim>\<open>internal/output/writer.go\<close> (and \<^verbatim>\<open>replace_unix.go\<close>): preparing and cleaning the results directory,
  and the writer that publishes every artifact by renaming a complete temporary file.  The encoding of
  the Allure values as JSON (\<^verbatim>\<open>encoding/json\<close> over the \<^verbatim>\<open>allure-go\<close> types) is a parameter.
\<close>

record writer_lib = meta_lib +
  lib_json_result :: "test_result \<Rightarrow> err + string"
  lib_json_container :: "container \<Rightarrow> err + string"
  lib_json_executor :: "executor \<Rightarrow> err + string"
  lib_json_categories :: "category list \<Rightarrow> err + string"

record writer =
  wr_dir :: string
  wr_max :: int64

definition ownership_marker :: string where "ownership_marker = ''.gauge-allure-report-owned''"

definition owned_header :: string where "owned_header = ''gauge-allure-report'' @ [newline]"

definition marker_content :: string where
  "marker_content = owned_header @ ''format=1'' @ [newline]"

section \<open>Preparing the directory\<close>

definition known_artifact :: "string \<Rightarrow> bool" where
  "known_artifact name \<longleftrightarrow>
     name = ownership_marker \<or> name = ''environment.properties'' \<or> name = ''executor.json'' \<or>
     name = ''categories.json'' \<or> has_suffix name ''-result.json'' \<or>
     has_suffix name ''-container.json'' \<or> contains name ''-attachment.'' \<or>
     (has_prefix name ''.'' \<and> contains name ''.tmp-'')"

definition has_material_entries :: "(string \<times> node) list \<Rightarrow> bool" where
  "has_material_entries entries = list_ex (\<lambda>(name, _). name \<noteq> ownership_marker) entries"

definition dangerous_paths :: "string \<Rightarrow> string \<Rightarrow> string list" where
  "dangerous_paths project_root home =
     [''/'', project_root, path_join [project_root, ''.git'']] @ (if home \<noteq> [] then [home] else [])"

definition refuse_dangerous :: "'u unicode_scheme \<Rightarrow> string \<Rightarrow> string \<Rightarrow> string \<Rightarrow> err option" where
  "refuse_dangerous u home project_root target =
     (if list_ex (\<lambda>path. path \<noteq> [] \<and> equal_fold u (clean target) (clean path)) (dangerous_paths project_root home)
      then Some (Errorf ''refusing dangerous results directory: %s'' [target])
      else if length (clean target) \<le> length ''/'' + 2 then
        Some (Errorf ''refusing suspiciously short results directory: %s'' [target])
      else None)"

text \<open>The loop skips links, directories and unknown names.\<close>

definition is_link :: "node \<Rightarrow> bool" where
  "is_link n = (case n of Link_node _ \<Rightarrow> True | _ \<Rightarrow> False)"

definition removable :: "string \<times> node \<Rightarrow> bool" where
  "removable entry \<longleftrightarrow> \<not> (is_link (snd entry) \<or> snd entry = Dir_node \<or> \<not> known_artifact (fst entry))"

fun remove_known :: "string \<Rightarrow> (string \<times> node) list \<Rightarrow> world \<Rightarrow> err option \<times> world" where
  "remove_known dir [] w = (None, w)"
| "remove_known dir (entry # rest) w =
     (if \<not> removable entry then remove_known dir rest w
      else (case os_remove (path_join [dir, fst entry]) w of
              (Inl e, w) \<Rightarrow>
                if \<not> is_not_exist e then (Some (Wrapf ''remove old artifact %s: %w'' [fst entry] e), w)
                else remove_known dir rest w
            | (Inr _, w) \<Rightarrow> remove_known dir rest w))"

definition marker_owned :: "err + string \<Rightarrow> bool" where
  "marker_owned r = (case r of Inl _ \<Rightarrow> False | Inr data \<Rightarrow> has_prefix data owned_header)"

definition clean_dir :: "string \<Rightarrow> bool \<Rightarrow> world \<Rightarrow> err option \<times> world" where
  "clean_dir dir allow_non_owned w =
     (case os_read_file (path_join [dir, ownership_marker]) w of (r, w) \<Rightarrow>
        (case os_read_dir dir w of
           (Inl e, w) \<Rightarrow> (Some (Wrapf ''read results directory: %w'' [] e), w)
         | (Inr entries, w) \<Rightarrow>
             if \<not> marker_owned r \<and> \<not> allow_non_owned \<and> has_material_entries entries then
               (Some (Errorf ''refusing to clean non-owned non-empty directory %s; set allow_clean_non_owned explicitly'' [dir]), w)
             else remove_known dir entries w))"

definition mark_owned :: "string \<Rightarrow> world \<Rightarrow> err option \<times> world" where
  "mark_owned dir w =
     (case os_write_file (path_join [dir, ownership_marker]) marker_content w of
        (Inl e, w) \<Rightarrow> (Some (Wrapf ''write ownership marker: %w'' [] e), w)
      | (Inr _, w) \<Rightarrow> (None, w))"

text \<open>What follows the checks of the path itself: create, clean when asked to, mark.\<close>

definition setup_dir :: "string \<Rightarrow> bool \<Rightarrow> bool \<Rightarrow> world \<Rightarrow> err option \<times> world" where
  "setup_dir dir clean_it allow_non_owned w =
     (case os_mkdir_all dir w of
        (Inl e, w) \<Rightarrow> (Some (Wrapf ''create results directory: %w'' [] e), w)
      | (Inr _, w) \<Rightarrow>
          (case (if clean_it then clean_dir dir allow_non_owned w else (None, w)) of
             (Some e, w) \<Rightarrow> (Some e, w)
           | (None, w) \<Rightarrow> mark_owned dir w))"

definition inspect_dir :: "string \<Rightarrow> world \<Rightarrow> err option \<times> world" where
  "inspect_dir dir w =
     (case os_lstat dir w of
        (Inr Dir_node, w) \<Rightarrow> (None, w)
      | (Inr _, w) \<Rightarrow> (Some (Errorf ''results path must be a real directory: %s'' [dir]), w)
      | (Inl e, w) \<Rightarrow>
          if \<not> is_not_exist e then (Some (Wrapf ''inspect results directory: %w'' [] e), w) else (None, w))"

definition prepare ::
  "'u unicode_scheme \<Rightarrow> string \<Rightarrow> string \<Rightarrow> bool \<Rightarrow> bool \<Rightarrow> world \<Rightarrow> err option \<times> world" where
  "prepare u project_root dir clean_it allow_non_owned w =
     (case filepath_abs project_root w of
        (Inl e, w) \<Rightarrow> (Some (Wrapf ''resolve project root: %w'' [] e), w)
      | (Inr root_abs, w) \<Rightarrow>
          (case filepath_abs dir w of
             (Inl e, w) \<Rightarrow> (Some (Wrapf ''resolve results directory: %w'' [] e), w)
           | (Inr dir_abs, w) \<Rightarrow>
               (case refuse_dangerous u (w_home w) root_abs dir_abs of
                  Some e \<Rightarrow> (Some e, w)
                | None \<Rightarrow>
                    (case inspect_dir dir_abs w of
                       (Some e, w) \<Rightarrow> (Some e, w)
                     | (None, w) \<Rightarrow> setup_dir dir_abs clean_it allow_non_owned w))))"

section \<open>Writing artifacts\<close>

text \<open>What happens to the open temporary file; the error, if any, and the world.\<close>

definition write_temp :: "writer \<Rightarrow> ctx \<Rightarrow> string \<Rightarrow> string \<Rightarrow> string \<Rightarrow> int \<Rightarrow> world \<Rightarrow> err option \<times> world" where
  "write_temp wr c name temp data expected w =
     (case os_append temp data w of
        (Inl e, w) \<Rightarrow> (Some (Wrapf ''write temporary artifact: %w'' [] e), w)
      | (Inr _, w) \<Rightarrow>
          (let written = int (length data) in
           if sint (wr_max wr) < written \<and> contains name ''-attachment.'' then
             (Some (Errorf ''attachment exceeded configured limit %d'' [show_int (sint (wr_max wr))]), w)
           else if 0 \<le> expected \<and> written \<noteq> expected then
             (Some (Errorf ''artifact size changed while copying: expected %d, wrote %d''
                      [show_int expected, show_int written]), w)
           else (case os_check w of
             (Inl e, w) \<Rightarrow> (Some (Wrapf ''set artifact permissions: %w'' [] e), w)
           | (Inr _, w) \<Rightarrow>
               (case os_check w of
                  (Inl e, w) \<Rightarrow> (Some (Wrapf ''sync artifact: %w'' [] e), w)
                | (Inr _, w) \<Rightarrow>
                    (case os_check w of
                       (Inl e, w) \<Rightarrow> (Some (Wrapf ''close artifact: %w'' [] e), w)
                     | (Inr _, w) \<Rightarrow>
                         (case context_error c w of
                            (Some e, w) \<Rightarrow> (Some e, w)
                          | (None, w) \<Rightarrow>
                              (case os_rename temp (path_join [wr_dir wr, name]) w of
                                 (Inl e, w) \<Rightarrow> (Some (Wrapf ''publish artifact %s: %w'' [name] e), w)
                               | (Inr _, w) \<Rightarrow> (None, w))))))))"

text \<open>The deferred close, and the removal of a temporary file that was not published.\<close>

definition release_temp :: "string \<Rightarrow> err option \<Rightarrow> world \<Rightarrow> world" where
  "release_temp temp r w =
     (let w = snd (os_check w) in if r = None then w else snd (os_remove temp w))"

definition write_artifact :: "writer \<Rightarrow> ctx \<Rightarrow> string \<Rightarrow> string \<Rightarrow> int \<Rightarrow> world \<Rightarrow> err option \<times> world" where
  "write_artifact wr c name data expected w =
     (case context_error c w of
        (Some e, w) \<Rightarrow> (Some e, w)
      | (None, w) \<Rightarrow>
          if base name \<noteq> name \<or> name = ''.'' \<or> name = [] then (Some (Errorf ''unsafe artifact name %q'' [name]), w)
          else (case os_mkdir_all (wr_dir wr) w of
            (Inl e, w) \<Rightarrow> (Some (Wrapf ''create results directory: %w'' [] e), w)
          | (Inr _, w) \<Rightarrow>
              (case os_create_temp (wr_dir wr) (''.'' @ name @ ''.tmp-'') w of
                 (Inl e, w) \<Rightarrow> (Some (Wrapf ''create temporary artifact: %w'' [] e), w)
               | (Inr temp, w) \<Rightarrow>
                   (case write_temp wr c name temp data expected w of
                      (r, w) \<Rightarrow> (r, release_temp temp r w)))))"

definition write_json :: "writer \<Rightarrow> ctx \<Rightarrow> string \<Rightarrow> err + string \<Rightarrow> world \<Rightarrow> err option \<times> world" where
  "write_json wr c name encoded w =
     (case encoded of
        Inl e \<Rightarrow> (Some (Wrapf ''marshal %s: %w'' [name] e), w)
      | Inr data \<Rightarrow>
          (let data = data @ [newline] in write_artifact wr c name data (int (length data)) w))"

definition write_result :: "'u writer_lib_scheme \<Rightarrow> writer \<Rightarrow> ctx \<Rightarrow> test_result \<Rightarrow> world \<Rightarrow> err option \<times> world" where
  "write_result lib wr c v w =
     (if t_uuid v = [] then (Some (Errorf ''write result: UUID is required'' []), w)
      else write_json wr c (t_uuid v @ ''-result.json'') (lib_json_result lib v) w)"

definition write_container :: "'u writer_lib_scheme \<Rightarrow> writer \<Rightarrow> ctx \<Rightarrow> container \<Rightarrow> world \<Rightarrow> err option \<times> world" where
  "write_container lib wr c v w =
     (if o_uuid v = [] then (Some (Errorf ''write container: UUID is required'' []), w)
      else write_json wr c (o_uuid v @ ''-container.json'') (lib_json_container lib v) w)"

text \<open>
  \<^verbatim>\<open>io.LimitReader(reader, w.maxBytes+1)\<close>: the addition is on \<^verbatim>\<open>int64\<close>, and a limit that is not
  positive reads nothing.
\<close>

definition limit_reader :: "int64 \<Rightarrow> string \<Rightarrow> string" where
  "limit_reader n data = take (nat (sint n)) data"

definition write_attachment :: "writer \<Rightarrow> ctx \<Rightarrow> string \<Rightarrow> string \<Rightarrow> int \<Rightarrow> world \<Rightarrow> err option \<times> world" where
  "write_attachment wr c name data expected w =
     (if expected < 0 \<or> sint (wr_max wr) < expected then
        (Some (Errorf ''attachment size %d exceeds configured limit %d'' [show_int expected, show_int (sint (wr_max wr))]), w)
      else write_artifact wr c name (limit_reader (wr_max wr + 1) data) expected w)"

definition escape_char :: "char \<Rightarrow> string" where
  "escape_char c =
     (if c = backslash then [backslash, backslash]
      else if c = newline then [backslash, CHR ''n'']
      else if c = CHR 0x0D then [backslash, CHR ''r'']
      else if c = CHR 0x09 then [backslash, CHR ''t'']
      else if c = CHR ''='' then [backslash, CHR ''='']
      else if c = CHR '':'' then [backslash, CHR '':'']
      else [c])"

definition escape_property :: "string \<Rightarrow> string" where
  "escape_property v = concat (map escape_char v)"

definition property_line :: "string \<times> string \<Rightarrow> string" where
  "property_line kv = escape_property (fst kv) @ ''='' @ escape_property (snd kv) @ [newline]"

definition environment_text :: "properties \<Rightarrow> string" where
  "environment_text values =
     concat (map (\<lambda>key. property_line (key, the (map_of values key))) (sort (map fst values)))"

definition write_environment :: "writer \<Rightarrow> ctx \<Rightarrow> properties \<Rightarrow> world \<Rightarrow> err option \<times> world" where
  "write_environment wr c values w =
     (let data = environment_text values
      in write_artifact wr c ''environment.properties'' data (int (length data)) w)"

definition write_executor :: "'u writer_lib_scheme \<Rightarrow> writer \<Rightarrow> ctx \<Rightarrow> executor \<Rightarrow> world \<Rightarrow> err option \<times> world" where
  "write_executor lib wr c v w = write_json wr c ''executor.json'' (lib_json_executor lib v) w"

definition write_categories :: "'u writer_lib_scheme \<Rightarrow> writer \<Rightarrow> ctx \<Rightarrow> category list \<Rightarrow> world \<Rightarrow> err option \<times> world" where
  "write_categories lib wr c vs w = write_json wr c ''categories.json'' (lib_json_categories lib vs) w"

section \<open>Atomic publication\<close>

text \<open>
  \<open>staged fs t data fs'\<close>: the only difference of \<open>fs'\<close> to \<open>fs\<close> is a temporary file at \<open>t\<close>, which
  did not exist before and holds \<open>data\<close>.
\<close>

definition staged :: "fs \<Rightarrow> string list \<Rightarrow> string \<Rightarrow> fs \<Rightarrow> bool" where
  "staged fs t data fs' \<longleftrightarrow> t \<noteq> [] \<and> lookup fs t = None \<and> lookup fs' t = Some (File_node data) \<and>
     (\<forall>q. q \<noteq> t \<longrightarrow> lookup fs' q = lookup fs q)"

lemma staged_keeps: "staged fs t data fs' \<Longrightarrow> keeps_dirs fs fs'"
  unfolding staged_def keeps_dirs_def by (metis option.distinct(1))

lemma os_check_fs: "os_check w = (r, w') \<Longrightarrow> w_fs w' = w_fs w"
  using sys_read_fs [of "\<lambda>fs. Inr ()" w] by (simp add: os_check_def)

lemma context_fs: "context_error c w = (r, w') \<Longrightarrow> w_fs w' = w_fs w"
  using quiet_context [of w c] by (simp add: quiet_def)

text \<open>A place for a temporary file: a directory path that resolves, and a plain name in it.\<close>

definition temp_place :: "fs \<Rightarrow> string list \<Rightarrow> string list \<Rightarrow> string \<Rightarrow> bool" where
  "temp_place fs ds d tmp \<longleftrightarrow> (\<forall>s \<in> set ds. plain_seg s) \<and> plain_seg tmp \<and>
     resolve_at fs True (abs_path ds) = Inr d \<and> lookup fs d = Some Dir_node"

lemma temp_place_child:
  "temp_place fs ds d tmp \<Longrightarrow> keeps_dirs fs fs' \<Longrightarrow> plain_seg x \<Longrightarrow>
     resolve_at fs' False (path_join [abs_path ds, x]) = Inr (d @ [x])"
  unfolding temp_place_def using resolve_child by blast

lemma append_staged:
  assumes "temp_place fs ds d tmp" and "staged fs (d @ [tmp]) old (w_fs w)"
    and "os_append (path_join [abs_path ds, tmp]) data w = (r, w')"
  shows "(case r of Inl _ \<Rightarrow> staged fs (d @ [tmp]) old (w_fs w') | Inr _ \<Rightarrow> staged fs (d @ [tmp]) (old @ data) (w_fs w'))"
proof -
  have res: "resolve_at (w_fs w) False (path_join [abs_path ds, tmp]) = Inr (d @ [tmp])"
    using temp_place_child [OF assms(1) staged_keeps [OF assms(2)]] assms(1) by (simp add: temp_place_def)
  have node: "lookup (w_fs w) (d @ [tmp]) = Some (File_node old)" using assms(2) by (simp add: staged_def)
  from assms(3) show ?thesis unfolding os_append_def
  proof (cases rule: sys_callE)
    case (fault e)
    then show ?thesis using assms(2) by simp
  next
    case ran
    then have "r = Inr () \<and> w_fs w' = put_node (d @ [tmp]) (File_node (old @ data)) (w_fs w)"
      using res node by (simp add: append_node_def)
    then show ?thesis using assms(2) by (simp add: staged_def lookup_put)
  qed
qed

lemma rename_published:
  assumes "temp_place fs ds d tmp" and "staged fs (d @ [tmp]) data (w_fs w)" and "plain_seg name" and "name \<noteq> tmp"
    and "os_rename (path_join [abs_path ds, tmp]) (path_join [abs_path ds, name]) w = (r, w')"
  shows "(case r of Inl _ \<Rightarrow> staged fs (d @ [tmp]) data (w_fs w')
          | Inr _ \<Rightarrow> lookup (w_fs w') (d @ [name]) = Some (File_node data) \<and>
                     (\<forall>q. q \<noteq> d @ [name] \<longrightarrow> lookup (w_fs w') q = lookup fs q))"
proof -
  note k = staged_keeps [OF assms(2)]
  have res: "resolve_at (w_fs w) False (path_join [abs_path ds, tmp]) = Inr (d @ [tmp])"
    "resolve_at (w_fs w) False (path_join [abs_path ds, name]) = Inr (d @ [name])"
    using temp_place_child [OF assms(1) k] assms(1,3) by (simp_all add: temp_place_def)
  have node: "lookup (w_fs w) (d @ [tmp]) = Some (File_node data)" using assms(2) by (simp add: staged_def)
  from assms(5) show ?thesis unfolding os_rename_def
  proof (cases rule: sys_callE)
    case (fault e)
    then show ?thesis using assms(2) by simp
  next
    case ran
    show ?thesis
    proof (cases "lookup (w_fs w) (d @ [name]) = Some Dir_node")
      case True
      then have "(r, w_fs w') = (Inl (Os_error ''file exists''), w_fs w)"
        using ran res node by (simp add: rename_node_def)
      then show ?thesis using assms(2) by simp
    next
      case False
      then have "r = Inr () \<and> w_fs w' = put_node (d @ [name]) (File_node data) (drop_node (d @ [tmp]) (w_fs w))"
        using ran res node by (simp add: rename_node_def)
      then show ?thesis using assms(2,4) by (simp add: staged_def lookup_put lookup_drop)
    qed
  qed
qed

text \<open>
  What the checks, the permissions, the sync, the close and the rename do to a staged file: all but a
  successful rename leave it where it is.
\<close>

lemma publish_outcome:
  assumes "temp_place fs ds d tmp" and "staged fs (d @ [tmp]) data (w_fs w)" and "plain_seg name" and "name \<noteq> tmp"
    and "(case os_check w of
            (Inl e, w) \<Rightarrow> (Some (Wrapf ''set artifact permissions: %w'' [] e), w)
          | (Inr _, w) \<Rightarrow>
              (case os_check w of
                 (Inl e, w) \<Rightarrow> (Some (Wrapf ''sync artifact: %w'' [] e), w)
               | (Inr _, w) \<Rightarrow>
                   (case os_check w of
                      (Inl e, w) \<Rightarrow> (Some (Wrapf ''close artifact: %w'' [] e), w)
                    | (Inr _, w) \<Rightarrow>
                        (case context_error c w of
                           (Some e, w) \<Rightarrow> (Some e, w)
                         | (None, w) \<Rightarrow>
                             (case os_rename (path_join [abs_path ds, tmp]) (path_join [abs_path ds, name]) w of
                                (Inl e, w) \<Rightarrow> (Some (Wrapf ''publish artifact %s: %w'' [name] e), w)
                              | (Inr _, w) \<Rightarrow> (None, w)))))) = (r, w')"
  shows "(case r of Some _ \<Rightarrow> staged fs (d @ [tmp]) data (w_fs w')
          | None \<Rightarrow> lookup (w_fs w') (d @ [name]) = Some (File_node data) \<and>
              (\<forall>q. q \<noteq> d @ [name] \<longrightarrow> lookup (w_fs w') q = lookup fs q))"
proof -
  obtain c1 w1 where 1: "os_check w = (c1, w1)" by fastforce
  obtain c2 w2 where 2: "os_check w1 = (c2, w2)" by fastforce
  obtain c3 w3 where 3: "os_check w2 = (c3, w3)" by fastforce
  obtain c4 w4 where 4: "context_error c w3 = (c4, w4)" by fastforce
  obtain c5 w5 where 5: "os_rename (path_join [abs_path ds, tmp]) (path_join [abs_path ds, name]) w4 = (c5, w5)"
    by fastforce
  have fs: "w_fs w1 = w_fs w" "w_fs w2 = w_fs w" "w_fs w3 = w_fs w" "w_fs w4 = w_fs w"
    using os_check_fs [OF 1] os_check_fs [OF 2] os_check_fs [OF 3] context_fs [OF 4] by simp_all
  then have "staged fs (d @ [tmp]) data (w_fs w4)" using assms(2) by simp
  note pub = rename_published [OF assms(1) this assms(3,4) 5]
  have "(r \<noteq> None \<and> w_fs w' = w_fs w) \<or> (w' = w5 \<and> (r = None \<longleftrightarrow> \<not> isl c5))"
    using assms(5) fs by (auto simp: 1 2 3 4 5 split: sum.splits option.splits)
  then show ?thesis
  proof
    assume "r \<noteq> None \<and> w_fs w' = w_fs w"
    then show ?thesis using assms(2) by (auto split: option.split)
  next
    assume "w' = w5 \<and> (r = None \<longleftrightarrow> \<not> isl c5)"
    then show ?thesis using pub by (cases c5) (auto split: option.split)
  qed
qed

lemma write_temp_outcome:
  assumes "temp_place fs ds d tmp" and "staged fs (d @ [tmp]) [] (w_fs w)" and "plain_seg name" and "name \<noteq> tmp"
    and "wr_dir wr = abs_path ds"
    and "write_temp wr c name (path_join [abs_path ds, tmp]) data expected w = (r, w')"
  shows "(case r of Some _ \<Rightarrow> (\<exists>x. staged fs (d @ [tmp]) x (w_fs w'))
          | None \<Rightarrow> lookup (w_fs w') (d @ [name]) = Some (File_node data) \<and>
              (\<forall>q. q \<noteq> d @ [name] \<longrightarrow> lookup (w_fs w') q = lookup fs q) \<and>
              (0 \<le> expected \<longrightarrow> int (length data) = expected))"
proof -
  obtain r1 w1 where a: "os_append (path_join [abs_path ds, tmp]) data w = (r1, w1)" by fastforce
  note ap = append_staged [OF assms(1,2) a]
  show ?thesis
  proof (cases r1)
    case (Inl e)
    then show ?thesis using assms(6) a ap by (auto simp: write_temp_def)
  next
    case (Inr u)
    then have s1: "staged fs (d @ [tmp]) data (w_fs w1)" using ap by simp
    show ?thesis
    proof (cases "(sint (wr_max wr) < int (length data) \<and> contains name ''-attachment.'') \<or>
        (0 \<le> expected \<and> int (length data) \<noteq> expected)")
      case True
      then have "r \<noteq> None \<and> w' = w1" using assms(6) a Inr by (auto simp: write_temp_def Let_def split: if_splits)
      then show ?thesis using s1 by (auto split: option.split)
    next
      case False
      then have no: "\<not> (sint (wr_max wr) < int (length data) \<and> contains name ''-attachment.'')"
        "\<not> (0 \<le> expected \<and> int (length data) \<noteq> expected)" by auto
      note run = assms(6) [unfolded write_temp_def Let_def assms(5) a Inr prod.case sum.case if_not_P [OF no(1)] if_not_P [OF no(2)]]
      show ?thesis using publish_outcome [OF assms(1) s1 assms(3,4) run] no(2) by (auto split: option.splits)
    qed
  qed
qed

lemma write_temp_advances: "write_temp wr c name temp data expected w = (r, w') \<Longrightarrow> advances w w'"
  unfolding write_temp_def Let_def
  by (auto split: prod.splits sum.splits option.splits if_splits dest!: world_step)
    (meson advances_trans)+

lemma release_outcome:
  assumes "temp_place fs ds d tmp" and "staged fs (d @ [tmp]) x (w_fs w)" and "r \<noteq> None"
    and "release_temp (path_join [abs_path ds, tmp]) r w = w'"
  shows "(\<forall>q. q \<noteq> d @ [tmp] \<longrightarrow> lookup (w_fs w') q = lookup fs q) \<and>
     (lookup (w_fs w') (d @ [tmp]) = None \<or> (\<exists>t e. w_fault_at w t = Some e))"
proof -
  obtain r1 w1 where 1: "os_check w = (r1, w1)" by fastforce
  obtain r2 w2 where 2: "os_remove (path_join [abs_path ds, tmp]) w1 = (r2, w2)" by fastforce
  have w': "w' = w2" using assms(3,4) 1 2 by (cases r) (simp_all add: release_temp_def Let_def)
  have fs1: "w_fs w1 = w_fs w" using os_check_fs [OF 1] .
  have env: "w_fault_at w1 = w_fault_at w"
    using quiet_reads(6) [of w] 1 by (simp add: quiet_def advances_def same_env_def)
  have s: "staged fs (d @ [tmp]) x (w_fs w1)" using assms(2) fs1 by simp
  have res: "resolve_at (w_fs w1) False (path_join [abs_path ds, tmp]) = Inr (d @ [tmp])"
    using temp_place_child [OF assms(1) staged_keeps [OF s]] assms(1) by (simp add: temp_place_def)
  from 2 show ?thesis unfolding os_remove_def
  proof (cases rule: sys_callE)
    case (fault e)
    then show ?thesis using s env w' by (auto simp: staged_def)
  next
    case ran
    then have "w_fs w2 = drop_node (d @ [tmp]) (w_fs w1)"
      using res s by (simp add: remove_node_def staged_def)
    then show ?thesis using s w' by (simp add: staged_def lookup_drop)
  qed
qed

text \<open>
  \<open>names_dir fs dir d\<close>: the path \<open>dir\<close> leads to the directory \<open>d\<close> once its missing directories
  have been created.  When the directory exists already, that is the one it resolves to.
\<close>

definition names_dir :: "fs \<Rightarrow> string \<Rightarrow> string list \<Rightarrow> bool" where
  "names_dir fs dir d \<longleftrightarrow>
     (\<exists>fs1. (\<forall>q. grown fs fs1 q) \<and> resolve_at fs1 True dir = Inr d \<and> lookup fs1 d = Some Dir_node)"

lemma names_dir_existing:
  assumes "\<forall>s \<in> set ds. plain_seg s" and "resolve_at fs True (abs_path ds) = Inr d0"
    and "lookup fs d0 = Some Dir_node" and "names_dir fs (abs_path ds) d"
  shows "d = d0"
proof -
  obtain fs1 where g: "\<And>q. grown fs fs1 q" and r: "resolve_at fs1 True (abs_path ds) = Inr d"
    using assms(4) unfolding names_dir_def by blast
  have "keeps_dirs fs fs1" using g by (rule grown_keeps_dirs)
  then show ?thesis using resolve_keeps [OF assms(1-3)] r by simp
qed

text \<open>
  What a write does: on success the artifact holds exactly the data and nothing else changed but
  created directories; on failure nothing changed at all but created directories, except that a
  temporary file whose removal failed may be left behind.
\<close>

definition write_effect :: "string \<Rightarrow> string \<Rightarrow> string \<Rightarrow> err option \<Rightarrow> world \<Rightarrow> world \<Rightarrow> bool" where
  "write_effect dir name data r w w' \<longleftrightarrow>
     (case r of
        None \<Rightarrow> (\<exists>d. names_dir (w_fs w) dir d \<and> lookup (w_fs w') (d @ [name]) = Some (File_node data) \<and>
                  (\<forall>q. q \<noteq> d @ [name] \<longrightarrow> grown (w_fs w) (w_fs w') q))
      | Some _ \<Rightarrow> (\<forall>q. grown (w_fs w) (w_fs w') q) \<or>
          ((\<exists>t e. w_fault_at w t = Some e) \<and>
           (\<exists>d k. names_dir (w_fs w) dir d \<and>
              (\<forall>q. q \<noteq> d @ [''.'' @ name @ ''.tmp-'' @ show_nat k] \<longrightarrow> grown (w_fs w) (w_fs w') q))))"

lemma plain_temp_name: "slash \<notin> set (''.'' @ name @ ''.tmp-'') \<Longrightarrow> plain_seg ((''.'' @ name @ ''.tmp-'') @ show_nat k)"
proof (rule plain_segI)
  have "CHR ''/'' \<notin> set (show_nat k)"
    using show_nat_digits [of k] by (auto simp: is_digit_def ord_def)
  then show "slash \<notin> set (''.'' @ name @ ''.tmp-'') \<Longrightarrow> slash \<notin> set ((''.'' @ name @ ''.tmp-'') @ show_nat k)" by simp
qed simp_all

text \<open>A write that fails before it has a temporary file, and one that gets there.\<close>

lemma write_artifact_cases:
  assumes "write_artifact wr c name data expected w = (r, w')"
  obtains (early) "r \<noteq> None" "\<And>q. grown (w_fs w) (w_fs w') q"
  | (opened) w1 w2 w3 temp where "\<And>q. grown (w_fs w) (w_fs w1) q"
      "os_create_temp (wr_dir wr) (''.'' @ name @ ''.tmp-'') w1 = (Inr temp, w2)" "advances w w2"
      "write_temp wr c name temp data expected w2 = (r, w3)" "w' = release_temp temp r w3"
proof -
  obtain e0 w0 where 0: "context_error c w = (e0, w0)" by fastforce
  obtain e1 w1 where 1: "os_mkdir_all (wr_dir wr) w0 = (e1, w1)" by fastforce
  obtain e2 w2 where 2: "os_create_temp (wr_dir wr) (''.'' @ name @ ''.tmp-'') w1 = (e2, w2)" by fastforce
  have fs0: "w_fs w0 = w_fs w" using context_fs [OF 0] .
  have g1: "grown (w_fs w) (w_fs w1) q" for q using os_mkdir_all_grown [OF 1] fs0 by simp
  show thesis
  proof (cases "e0 \<noteq> None \<or> base name \<noteq> name \<or> name = ''.'' \<or> name = [] \<or> isl e1 \<or> isl e2")
    case True
    have "w_fs w2 = w_fs w1" if l: "isl e2"
    proof -
      obtain e where e: "e2 = Inl e" using l unfolding isl_def by blast
      from 2 [unfolded os_create_temp_def] show ?thesis
        by (cases rule: sys_callE) (use e create_temp_Inl in auto)
    qed
    then have "r \<noteq> None \<and> w_fs w' \<in> {w_fs w, w_fs w1}"
      using assms True fs0 unfolding write_artifact_def 0
      by (cases e0; cases e1; cases e2) (auto simp: 1 2 [simplified] split: if_splits)
    then show thesis using early g1 by auto
  next
    case False
    then have e01: "e0 = None" "\<not> isl e1" "\<not> isl e2" by auto
    then obtain temp where e2: "e2 = Inr temp" using sum.collapse(2) [of e2] by metis
    obtain r3 w3 where 3: "write_temp wr c name temp data expected w2 = (r3, w3)" by fastforce
    have "r = r3" "w' = release_temp temp r3 w3"
      using assms e01(1,2) e2 False 3 unfolding write_artifact_def 0 by (cases e1; simp add: 1 2 [simplified])+
    moreover have "advances w w2"
      using world_step(8) [OF 0] world_step(1) [OF 1] world_step(4) [OF 2] advances_trans by meson
    ultimately show thesis using opened g1 2 e2 3 by blast
  qed
qed

lemma create_temp_staged:
  assumes "\<forall>s \<in> set ds. plain_seg s" and "\<And>q. grown fs (w_fs w1) q"
    and "os_create_temp (abs_path ds) (''.'' @ name @ ''.tmp-'') w1 = (Inr temp, w2)"
  obtains d tmp k where "names_dir fs (abs_path ds) d" "temp_place (w_fs w1) ds d tmp"
    "staged (w_fs w1) (d @ [tmp]) [] (w_fs w2)" "temp = path_join [abs_path ds, tmp]" "name \<noteq> tmp"
    "tmp = ''.'' @ name @ ''.tmp-'' @ show_nat k"
proof -
  have "create_temp (w_temp_at w1 (w_tick w1)) (abs_path ds) (''.'' @ name @ ''.tmp-'') (w_fs w1) = (Inr temp, w_fs w2)"
    using assms(3) unfolding os_create_temp_def by (auto elim: sys_callE)
  then obtain d tmp k where t: "resolve_at (w_fs w1) True (abs_path ds) = Inr d" "lookup (w_fs w1) d = Some Dir_node"
      "tmp = (''.'' @ name @ ''.tmp-'') @ show_nat k" "temp = path_join [abs_path ds, tmp]"
      "lookup (w_fs w1) (d @ [tmp]) = None" "w_fs w2 = put_node (d @ [tmp]) (File_node []) (w_fs w1)"
      "slash \<notin> set (''.'' @ name @ ''.tmp-'')"
    by (rule create_temp_Inr)
  have "plain_seg tmp" unfolding t(3) using plain_temp_name t(7) by blast
  then have "temp_place (w_fs w1) ds d tmp" using assms(1) t(1,2) by (simp add: temp_place_def)
  moreover have "names_dir fs (abs_path ds) d" using assms(2) t(1,2) unfolding names_dir_def by blast
  moreover have "staged (w_fs w1) (d @ [tmp]) [] (w_fs w2)" using t(5,6) by (simp add: staged_def lookup_put)
  moreover have "length name < length tmp" unfolding t(3) by simp
  then have "name \<noteq> tmp" by auto
  moreover have "tmp = ''.'' @ name @ ''.tmp-'' @ show_nat k" using t(3) by simp
  ultimately show thesis using that t(4) by blast
qed

lemma failed_write_effect:
  assumes "temp_place (w_fs w1) ds d tmp" and "staged (w_fs w1) (d @ [tmp]) x (w_fs w3)"
    and "tmp = ''.'' @ name @ ''.tmp-'' @ show_nat k" and "names_dir (w_fs w) (abs_path ds) d"
    and "\<And>q. grown (w_fs w) (w_fs w1) q" and "advances w w3"
  shows "write_effect (abs_path ds) name data (Some e) w (release_temp (path_join [abs_path ds, tmp]) (Some e) w3)"
proof -
  let ?w = "release_temp (path_join [abs_path ds, tmp]) (Some e) w3"
  have rel: "\<forall>q. q \<noteq> d @ [tmp] \<longrightarrow> lookup (w_fs ?w) q = lookup (w_fs w1) q"
      "lookup (w_fs ?w) (d @ [tmp]) = None \<or> (\<exists>t e. w_fault_at w t = Some e)"
    using release_outcome [OF assms(1,2), of "Some e" ?w] advances_env(1) [OF assms(6)] by simp_all
  have free: "lookup (w_fs w1) (d @ [tmp]) = None" using assms(2) by (simp add: staged_def)
  show ?thesis
  proof (cases "lookup (w_fs ?w) (d @ [tmp]) = None")
    case True
    then have "lookup (w_fs ?w) q = lookup (w_fs w1) q" for q using rel(1) free by (cases "q = d @ [tmp]") auto
    then have "\<forall>q. grown (w_fs w) (w_fs ?w) q" using assms(5) grown_same by blast
    then show ?thesis unfolding write_effect_def option.case by (rule disjI1)
  next
    case False
    have "\<forall>q. q \<noteq> d @ [tmp] \<longrightarrow> grown (w_fs w) (w_fs ?w) q" using rel(1) assms(5) grown_same by blast
    then show ?thesis using rel(2) False assms(3,4) by (auto simp: write_effect_def)
  qed
qed

lemma write_artifact_effect:
  assumes dir: "\<forall>s \<in> set ds. plain_seg s" "wr_dir wr = abs_path ds" and name: "plain_seg name"
    and run: "write_artifact wr c name data expected w = (r, w')"
  shows "write_effect (wr_dir wr) name data r w w' \<and> (r = None \<longrightarrow> 0 \<le> expected \<longrightarrow> int (length data) = expected)"
  using run
proof (cases rule: write_artifact_cases)
  case early
  then show ?thesis by (auto simp: write_effect_def split: option.split)
next
  case (opened w1 w2 w3 temp)
  obtain d tmp k where t: "names_dir (w_fs w) (abs_path ds) d" "temp_place (w_fs w1) ds d tmp"
      "staged (w_fs w1) (d @ [tmp]) [] (w_fs w2)" "temp = path_join [abs_path ds, tmp]" "name \<noteq> tmp"
      "tmp = ''.'' @ name @ ''.tmp-'' @ show_nat k"
    using create_temp_staged [OF dir(1) opened(1) opened(2) [unfolded dir(2)]] .
  note wt = write_temp_outcome [OF t(2,3) name t(5) dir(2) opened(4) [unfolded t(4)]]
  show ?thesis
  proof (cases r)
    case None
    then have "w_fs w' = w_fs w3"
      using opened(5) sys_read_fs [of "\<lambda>fs. Inr ()" w3] by (simp add: release_temp_def os_check_def Let_def)
    then have "lookup (w_fs w') (d @ [name]) = Some (File_node data)"
      "\<forall>q. q \<noteq> d @ [name] \<longrightarrow> grown (w_fs w) (w_fs w') q" "0 \<le> expected \<longrightarrow> int (length data) = expected"
      using wt None opened(1) by (auto intro: grown_same)
    then show ?thesis using None t(1) dir(2) by (auto simp: write_effect_def)
  next
    case (Some e)
    then obtain x where "staged (w_fs w1) (d @ [tmp]) x (w_fs w3)" using wt by auto
    moreover have "advances w w3" using opened(3) write_temp_advances [OF opened(4)] by (rule advances_trans)
    ultimately show ?thesis
      using failed_write_effect [OF t(2) _ t(6,1) opened(1)] Some opened(5) t(4) dir(2) by simp
  qed
qed

lemma write_artifact_advances: "write_artifact wr c name data expected w = (r, w') \<Longrightarrow> advances w w'"
  unfolding write_artifact_def release_temp_def Let_def
  by (auto split: prod.splits sum.splits option.splits if_splits dest!: world_step write_temp_advances)
    (metis advances_calls(2) advances_trans prod.collapse quiet_advances quiet_reads(6))+

section \<open>The interface of the attachment store\<close>

text \<open>
  What the attachment manager relies on when it hands bytes to \<^verbatim>\<open>output.Writer\<close>: a write that succeeds
  holds exactly the bytes, and a write that fails spoils nothing.  \<open>holds\<close> and
  \<open>spared\<close> are what the provider promises of the worlds before and after.
\<close>

locale attachment_store =
  fixes store :: "ctx \<Rightarrow> string \<Rightarrow> string \<Rightarrow> int \<Rightarrow> world \<Rightarrow> err option \<times> world"
    and holds :: "string \<Rightarrow> string \<Rightarrow> world \<Rightarrow> world \<Rightarrow> bool"
    and spared :: "string \<Rightarrow> world \<Rightarrow> world \<Rightarrow> bool"
  assumes store_advances: "store c n d e w = (r, w') \<Longrightarrow> advances w w'"
    and store_holds: "plain_seg n \<Longrightarrow> store c n d e w = (None, w') \<Longrightarrow> holds n d w w'"
    and store_spares: "plain_seg n \<Longrightarrow> store c n d e w = (Some x, w') \<Longrightarrow> spared n w w'"

text \<open>The writer the reporter uses is one, for a clean absolute directory and every limit but the largest.\<close>

definition writer_ok :: "writer \<Rightarrow> bool" where
  "writer_ok wr \<longleftrightarrow> wr_dir wr = abs_path (comps (wr_dir wr)) \<and> sint (wr_max wr) < 9223372036854775807"

definition stored :: "string \<Rightarrow> string \<Rightarrow> string \<Rightarrow> world \<Rightarrow> world \<Rightarrow> bool" where
  "stored dir name data w w' \<longleftrightarrow>
     (\<exists>d. names_dir (w_fs w) dir d \<and> lookup (w_fs w') (d @ [name]) = Some (File_node data) \<and>
        (\<forall>q. q \<noteq> d @ [name] \<longrightarrow> grown (w_fs w) (w_fs w') q))"

definition unspoiled :: "string \<Rightarrow> string \<Rightarrow> world \<Rightarrow> world \<Rightarrow> bool" where
  "unspoiled dir name w w' \<longleftrightarrow> (\<forall>q. grown (w_fs w) (w_fs w') q) \<or>
     ((\<exists>t e. w_fault_at w t = Some e) \<and>
      (\<exists>d k. names_dir (w_fs w) dir d \<and>
         (\<forall>q. q \<noteq> d @ [''.'' @ name @ ''.tmp-'' @ show_nat k] \<longrightarrow> grown (w_fs w) (w_fs w') q)))"

lemma write_effect_iff:
  "write_effect dir name data r w w' \<longleftrightarrow>
     (case r of None \<Rightarrow> stored dir name data w w' | Some _ \<Rightarrow> unspoiled dir name w w')"
  by (simp add: write_effect_def stored_def unspoiled_def split: option.split)

lemma write_attachment_effect:
  assumes "writer_ok wr" and "plain_seg name" and "write_attachment wr c name data expected w = (r, w')"
  shows "(case r of
      None \<Rightarrow> stored (wr_dir wr) name data w w' \<and> int (length data) = expected \<and> expected \<le> sint (wr_max wr)
    | Some _ \<Rightarrow> unspoiled (wr_dir wr) name w w')"
proof (cases "expected < 0 \<or> sint (wr_max wr) < expected")
  case True
  then have "r \<noteq> None \<and> w' = w" using assms(3) by (auto simp: write_attachment_def)
  then show ?thesis by (auto simp: unspoiled_def)
next
  case False
  then have run: "write_artifact wr c name (limit_reader (wr_max wr + 1) data) expected w = (r, w')"
    using assms(3) by (simp add: write_attachment_def)
  have dir: "\<forall>s \<in> set (comps (wr_dir wr)). plain_seg s" "wr_dir wr = abs_path (comps (wr_dir wr))"
    using assms(1) comps_plain by (auto simp: writer_ok_def)
  note eff = write_artifact_effect [OF dir assms(2) run]
  have "sint (wr_max wr + 1) = sint (wr_max wr) + 1"
    using sint64_bounds(1) [of "wr_max wr"] assms(1) by (subst sint_add64_exact) (simp_all add: writer_ok_def)
  then have "limit_reader (wr_max wr + 1) data = data" if "r = None"
    using eff that False by (auto simp: limit_reader_def min_def split: if_splits)
  then show ?thesis using eff False by (cases r) (simp_all add: write_effect_iff)
qed

lemma write_attachment_advances: "write_attachment wr c name data expected w = (r, w') \<Longrightarrow> advances w w'"
  by (auto simp: write_attachment_def split: if_splits dest: write_artifact_advances)

interpretation safe_writer: attachment_store "write_attachment wr"
    "\<lambda>name data w w'. writer_ok wr \<longrightarrow> stored (wr_dir wr) name data w w'"
    "\<lambda>name w w'. writer_ok wr \<longrightarrow> unspoiled (wr_dir wr) name w w'"
  for wr
proof unfold_locales
  show "advances w w'" if "write_attachment wr c n d e w = (r, w')" for c n d e w w' and r :: "err option"
    using that by (rule write_attachment_advances)
  show "writer_ok wr \<longrightarrow> stored (wr_dir wr) n d w w'"
    if "plain_seg n" "write_attachment wr c n d e w = (None, w')" for c n d e w w'
    using write_attachment_effect [OF _ that] by simp
  show "writer_ok wr \<longrightarrow> unspoiled (wr_dir wr) n w w'"
    if "plain_seg n" "write_attachment wr c n d e w = (Some x, w')" for c n d e w w' x
    using write_attachment_effect [OF _ that] by simp
qed

section \<open>Cleaning touches known artifacts only\<close>

text \<open>
  \<open>only_known d fs fs'\<close>: the table is as it was, except that known artifacts in the directory \<open>d\<close>
  that are neither directories nor links may be gone.
\<close>

definition doomed :: "string list \<Rightarrow> string list \<Rightarrow> node \<Rightarrow> bool" where
  "doomed d q n \<longleftrightarrow> (\<exists>name. q = d @ [name] \<and> known_artifact name) \<and> \<not> is_link n \<and> n \<noteq> Dir_node"

definition only_known :: "string list \<Rightarrow> fs \<Rightarrow> fs \<Rightarrow> bool" where
  "only_known d fs fs' \<longleftrightarrow>
     (\<forall>q. lookup fs' q = lookup fs q \<or> (lookup fs' q = None \<and> (\<exists>n. lookup fs q = Some n \<and> doomed d q n)))"

lemma is_link_simps [simp]:
  "is_link (Link_node t)" "\<not> is_link Dir_node" "\<not> is_link (File_node x)" "\<not> is_link Special_node"
  by (simp_all add: is_link_def)

lemma only_known_refl [simp]: "only_known d fs fs" by (simp add: only_known_def)

lemma only_known_cases:
  "only_known d a b \<Longrightarrow> lookup b q = lookup a q \<or> (lookup b q = None \<and> (\<exists>n. lookup a q = Some n \<and> doomed d q n))"
  unfolding only_known_def by blast

lemma only_known_keeps: "only_known d a b \<Longrightarrow> keeps_dirs a b"
  unfolding keeps_dirs_def
proof (intro allI impI)
  fix q assume k: "only_known d a b" and n: "lookup a q = Some Dir_node \<or> (\<exists>t. lookup a q = Some (Link_node t))"
  show "lookup b q = lookup a q"
    using only_known_cases [OF k, of q] n by (auto simp: doomed_def)
qed

lemma only_known_drop:
  "only_known d a b \<Longrightarrow> lookup a q = Some n \<Longrightarrow> doomed d q n \<Longrightarrow> q \<noteq> [] \<Longrightarrow> only_known d a (drop_node q b)"
  unfolding only_known_def by (auto simp: lookup_drop)

lemma remove_known_only:
  assumes ds: "\<forall>s \<in> set ds. plain_seg s" and res: "resolve_at fs True (abs_path ds) = Inr d" "lookup fs d = Some Dir_node"
  shows "remove_known (abs_path ds) es w = (r, w') \<Longrightarrow> only_known d fs (w_fs w) \<Longrightarrow>
    \<forall>e \<in> set es. plain_seg (fst e) \<and> lookup fs (d @ [fst e]) = Some (snd e) \<Longrightarrow> only_known d fs (w_fs w')"
proof (induction es arbitrary: w)
  case (Cons e rest)
  have e: "plain_seg (fst e)" "lookup fs (d @ [fst e]) = Some (snd e)"
    and rest: "\<forall>e \<in> set rest. plain_seg (fst e) \<and> lookup fs (d @ [fst e]) = Some (snd e)"
    using Cons.prems(3) by simp_all
  show ?case
  proof (cases "removable e")
    case False
    then show ?thesis using Cons.IH [OF _ Cons.prems(2) rest] Cons.prems(1) by simp
  next
    case True
    then have dm: "doomed d (d @ [fst e]) (snd e)" by (simp add: removable_def doomed_def)
    obtain x v where rm: "os_remove (path_join [abs_path ds, fst e]) w = (x, v)" by fastforce
    have "w_fs v = w_fs w \<or> w_fs v = drop_node (d @ [fst e]) (w_fs w)"
      using rm unfolding os_remove_def
    proof (cases rule: sys_callE)
      case ran
      have "resolve_at (w_fs w) False (path_join [abs_path ds, fst e]) = Inr (d @ [fst e])"
        using resolve_child [OF ds e(1) res only_known_keeps [OF Cons.prems(2)]] .
      then show ?thesis
        using ran by (auto simp: remove_node_def split: option.splits node.splits if_splits)
    qed simp
    then have step: "only_known d fs (w_fs v)"
      using Cons.prems(2) only_known_drop [OF Cons.prems(2) e(2) dm] by auto
    show ?thesis
    proof (cases "\<exists>err. x = Inl err \<and> \<not> is_not_exist err")
      case True
      then have "w' = v" using Cons.prems(1) \<open>removable e\<close> rm by auto
      then show ?thesis using step by simp
    next
      case False
      then have "remove_known (abs_path ds) rest v = (r, w')"
        using Cons.prems(1) \<open>removable e\<close> rm by (cases x) auto
      then show ?thesis using Cons.IH [OF _ step rest] by blast
    qed
  qed
qed simp

lemma plain_marker: "plain_seg ownership_marker"
  unfolding ownership_marker_def by (rule plain_segI) simp_all

lemma known_marker: "known_artifact ownership_marker"
  by (simp add: known_artifact_def)

lemma clean_dir_only:
  assumes "\<forall>s \<in> set ds. plain_seg s" and "fs_ok (w_fs w)" and "clean_dir (abs_path ds) allow w = (r, w')"
  shows "w_fs w' = w_fs w \<or> (\<exists>d. resolve_at (w_fs w) True (abs_path ds) = Inr d \<and>
      lookup (w_fs w) d = Some Dir_node \<and> only_known d (w_fs w) (w_fs w'))"
proof -
  obtain a w1 where 1: "os_read_file (path_join [abs_path ds, ownership_marker]) w = (a, w1)" by fastforce
  obtain b w2 where 2: "os_read_dir (abs_path ds) w1 = (b, w2)" by fastforce
  have fs: "w_fs w1 = w_fs w" "w_fs w2 = w_fs w"
    using quiet_reads(3) [of w] quiet_reads(5) [of w1] 1 2 by (metis quiet_def snd_conv)+
  show ?thesis
  proof (cases "w_fs w' = w_fs w2")
    case False
    then obtain es where es: "b = Inr es" "remove_known (abs_path ds) es w2 = (r, w')"
      using assms(3) unfolding clean_dir_def 1
      by (cases b) (auto simp: 2 split: if_splits)
    have "b = (case resolve_at (w_fs w1) True (abs_path ds) of Inl e \<Rightarrow> Inl e
         | Inr q \<Rightarrow> (case lookup (w_fs w1) q of None \<Rightarrow> Inl Not_exist
             | Some Dir_node \<Rightarrow> Inr (dir_entries (w_fs w1) q) | Some _ \<Rightarrow> Inl (Os_error ''not a directory'')))"
      using 2 es(1) unfolding os_read_dir_def sys_read_def by (simp split: option.splits)
    then obtain d where d: "resolve_at (w_fs w) True (abs_path ds) = Inr d" "lookup (w_fs w) d = Some Dir_node"
        "es = dir_entries (w_fs w) d"
      using es(1) fs by (auto split: sum.splits option.splits node.splits)
    have "\<forall>e \<in> set es. plain_seg (fst e) \<and> lookup (w_fs w) (d @ [fst e]) = Some (snd e)"
    proof
      fix e assume "e \<in> set es"
      then have l: "lookup (w_fs w) (d @ [fst e]) = Some (snd e)"
        using dir_entries_iff [of "fst e" "snd e" "w_fs w" d] d(3) by simp
      then have "\<forall>s \<in> set (d @ [fst e]). plain_seg s" using assms(2) unfolding fs_ok_def by blast
      then show "plain_seg (fst e) \<and> lookup (w_fs w) (d @ [fst e]) = Some (snd e)" using l by simp
    qed
    then have "only_known d (w_fs w) (w_fs w')"
      using remove_known_only [OF assms(1) d(1,2) es(2)] fs by simp
    then show ?thesis using d(1,2) by blast
  qed (use fs in simp)
qed

lemma mark_owned_effect:
  assumes "\<forall>s \<in> set ds. plain_seg s" and "mark_owned (abs_path ds) w = (r, w')"
  shows "w_fs w' = w_fs w \<or>
    (\<exists>q d. w_fs w' = put_node q (File_node marker_content) (w_fs w) \<and>
      (lookup (w_fs w) q = None \<or> (\<exists>x. lookup (w_fs w) q = Some (File_node x))) \<and>
      resolve_at (w_fs w) True (abs_path ds) = Inr d \<and>
      (q = d @ [ownership_marker] \<or> (\<exists>t. lookup (w_fs w) (d @ [ownership_marker]) = Some (Link_node t))))"
proof -
  obtain x w1 where 1: "os_write_file (path_join [abs_path ds, ownership_marker]) marker_content w = (x, w1)" by fastforce
  have w': "w' = w1" using assms(2) 1 by (auto simp: mark_owned_def split: sum.splits)
  from 1 show ?thesis unfolding os_write_file_def
  proof (cases rule: sys_callE)
    case (fault e)
    then show ?thesis using w' by simp
  next
    case ran
    show ?thesis
    proof (cases "w_fs w1 = w_fs w")
      case False
      then obtain q where q: "resolve_at (w_fs w) True (path_join [abs_path ds, ownership_marker]) = Inr q"
          "w_fs w1 = put_node q (File_node marker_content) (w_fs w)"
          "lookup (w_fs w) q = None \<or> (\<exists>x. lookup (w_fs w) q = Some (File_node x))"
        using ran by (auto simp: write_node_def split: sum.splits option.splits node.splits)
      have "\<forall>s \<in> set (ds @ [ownership_marker]). plain_seg s" using assms(1) plain_marker by simp
      then have "walk link_limit (w_fs w) True [] (ds @ [ownership_marker]) = Inr q"
        using q(1) resolve_abs_path path_join_child [OF assms(1) plain_marker] by metis
      then obtain d where "walk link_limit (w_fs w) True [] ds = Inr d"
        "q = d @ [ownership_marker] \<or> (\<exists>t. lookup (w_fs w) (d @ [ownership_marker]) = Some (Link_node t))"
        using walk_child_inv [OF plain_marker] by blast
      then show ?thesis using q w' resolve_abs_path [OF assms(1)] by metis
    qed (use w' in simp)
  qed
qed

lemma mkdirs_all_ok:
  assumes "os_mkdir_all p w = (r, w')" and "fs_ok (w_fs w)"
  shows "fs_ok (w_fs w')"
  using assms(1) unfolding os_mkdir_all_def
proof (cases rule: sys_callE)
  case ran
  then show ?thesis using mkdirs_fs_ok assms(2) comps_plain by (metis empty_iff list.set(1))
qed (use assms(2) in simp)

lemma setup_dir_effect:
  assumes ds: "\<forall>s \<in> set ds. plain_seg s" and ok: "fs_ok (w_fs w)"
    and run: "setup_dir (abs_path ds) cl allow w = (r, w')"
    and q: "lookup (w_fs w) q = Some n" "lookup (w_fs w') q \<noteq> Some n"
  shows "\<not> is_link n \<and> n \<noteq> Dir_node \<and>
    (\<exists>d (v :: world). (\<forall>p. grown (w_fs w) (w_fs v) p) \<and> resolve_at (w_fs v) True (abs_path ds) = Inr d \<and>
      ((\<exists>name. q = d @ [name] \<and> known_artifact name) \<or> (\<exists>t. lookup (w_fs v) (d @ [ownership_marker]) = Some (Link_node t))))"
proof -
  obtain a w1 where 1: "os_mkdir_all (abs_path ds) w = (a, w1)" by fastforce
  obtain b w2 where 2: "(if cl then clean_dir (abs_path ds) allow w1 else (None, w1)) = (b, w2)" by fastforce
  have g: "grown (w_fs w) (w_fs w1) p" for p using os_mkdir_all_grown [OF 1] .
  have n1: "lookup (w_fs w1) q = Some n" using g [of q] q(1) by (auto simp: grown_def)
  have ok1: "fs_ok (w_fs w1)" using mkdirs_all_ok [OF 1 ok] .
  have cleaned: "w_fs w2 = w_fs w1 \<or>
      (\<exists>d. resolve_at (w_fs w1) True (abs_path ds) = Inr d \<and> lookup (w_fs w1) d = Some Dir_node \<and>
         only_known d (w_fs w1) (w_fs w2))"
    using clean_dir_only [OF ds ok1] 2 by (auto split: if_splits)
  show ?thesis
  proof (cases "lookup (w_fs w2) q = Some n")
    case False
    then obtain d where "resolve_at (w_fs w1) True (abs_path ds) = Inr d" "only_known d (w_fs w1) (w_fs w2)"
      using cleaned n1 by auto
    then have "doomed d q n" using only_known_cases [of d "w_fs w1" "w_fs w2" q] False n1 by auto
    then have dm: "\<exists>name. q = d @ [name] \<and> known_artifact name" "\<not> is_link n" "n \<noteq> Dir_node"
      by (auto simp: doomed_def)
    show ?thesis
      by (intro conjI exI [of _ d] exI [of _ w1] allI disjI1 dm g) fact
  next
    case True
    then have "w' \<noteq> w2 \<and> w' \<noteq> w1" using q(2) n1 by auto
    then obtain r2 where m: "mark_owned (abs_path ds) w2 = (r2, w')"
      using run unfolding setup_dir_def 1 by (cases a; cases b) (auto simp: 2)
    have ne: "w_fs w' \<noteq> w_fs w2" using True q(2) by auto
    then obtain p d where p: "w_fs w' = put_node p (File_node marker_content) (w_fs w2)"
        "lookup (w_fs w2) p = None \<or> (\<exists>x. lookup (w_fs w2) p = Some (File_node x))"
        "resolve_at (w_fs w2) True (abs_path ds) = Inr d"
        "p = d @ [ownership_marker] \<or> (\<exists>t. lookup (w_fs w2) (d @ [ownership_marker]) = Some (Link_node t))"
      using mark_owned_effect [OF ds m] by blast
    have "p \<noteq> []" using p(1) ne by (auto simp: put_node_def)
    then have pq: "p = q" using True q(2) p(1) by (auto simp: lookup_put split: if_splits)
    then have nf: "\<not> is_link n \<and> n \<noteq> Dir_node" using p(2) True by auto
    have res: "resolve_at (w_fs w1) True (abs_path ds) = Inr d"
      using cleaned p(3) resolve_keeps [OF ds] only_known_keeps by (metis sum.inject(2))
    have same: "lookup (w_fs w1) k = Some (Link_node t)" if "lookup (w_fs w2) k = Some (Link_node t)" for k t
      using cleaned that only_known_cases [of _ "w_fs w1" "w_fs w2" k] by auto
    have "(\<exists>name. q = d @ [name] \<and> known_artifact name) \<or>
        (\<exists>t. lookup (w_fs w1) (d @ [ownership_marker]) = Some (Link_node t))"
      using p(4) pq known_marker same by blast
    then show ?thesis
      by (intro conjI exI [of _ d] exI [of _ w1] allI conjunct1 [OF nf] conjunct2 [OF nf] g res)
  qed
qed

lemma prepare_effect:
  assumes ok: "fs_ok (w_fs w)" and abs: "is_abs root" "is_abs dir"
    and run: "prepare u root dir cl allow w = (r, w')"
  shows "w_fs w' = w_fs w \<or> (\<exists>v :: world. w_fs v = w_fs w \<and> setup_dir (abs_path (comps dir)) cl allow v = (r, w'))"
proof -
  have a: "filepath_abs root w = (Inr (clean root), w)" "filepath_abs dir w = (Inr (abs_path (comps dir)), w)"
    using abs by (simp_all add: filepath_abs_def clean_abs)
  obtain e v where i: "inspect_dir (abs_path (comps dir)) w = (e, v)" by fastforce
  have fs: "w_fs v = w_fs w"
    using i quiet_reads(1) [of w "abs_path (comps dir)"]
    by (auto simp: inspect_dir_def quiet_def split: prod.splits sum.splits node.splits if_splits)
  show ?thesis
    using run fs unfolding prepare_def a prod.case sum.case
    by (cases "refuse_dangerous u (w_home w) (clean root) (abs_path (comps dir))"; cases e) (auto simp: i a)
qed

section \<open>Parsing what the environment file holds\<close>

text \<open>The reader of the properties format: backslash escapes, the first unescaped \<^verbatim>\<open>=\<close>, one line per key.\<close>

definition unescape_char :: "char \<Rightarrow> char" where
  "unescape_char c =
     (if c = CHR ''n'' then newline else if c = CHR ''r'' then CHR 0x0D else if c = CHR ''t'' then CHR 0x09 else c)"

fun unescape_property :: "string \<Rightarrow> string" where
  "unescape_property [] = []"
| "unescape_property [c] = [c]"
| "unescape_property (c # d # cs) =
     (if c = backslash then unescape_char d # unescape_property cs else c # unescape_property (d # cs))"

fun split_unescaped :: "string \<Rightarrow> string \<Rightarrow> string \<times> string" where
  "split_unescaped pre [] = (pre, [])"
| "split_unescaped pre [c] = (if c = CHR ''='' then (pre, []) else (pre @ [c], []))"
| "split_unescaped pre (c # d # cs) =
     (if c = backslash then split_unescaped (pre @ [c, d]) cs
      else if c = CHR ''='' then (pre, d # cs)
      else split_unescaped (pre @ [c]) (d # cs))"

definition read_line :: "string \<Rightarrow> string \<times> string" where
  "read_line l = (case split_unescaped [] l of (k, v) \<Rightarrow> (unescape_property k, unescape_property v))"

definition read_properties :: "string \<Rightarrow> properties" where
  "read_properties text = map read_line (butlast (split_on newline text))"

lemma unescape_plain: "c \<noteq> backslash \<Longrightarrow> unescape_property (c # s) = c # unescape_property s"
  by (cases s) auto

lemma unescape_escape_char: "unescape_property (escape_char c @ s) = c # unescape_property s"
  by (simp add: escape_char_def unescape_char_def unescape_plain)

lemma unescape_escape_property: "unescape_property (escape_property v) = v"
  by (induction v) (simp_all add: escape_property_def unescape_escape_char)

lemma split_plain: "c \<noteq> backslash \<Longrightarrow> c \<noteq> CHR ''='' \<Longrightarrow> split_unescaped pre (c # s) = split_unescaped (pre @ [c]) s"
  by (cases s) auto

lemma split_escape_char: "split_unescaped pre (escape_char c @ s) = split_unescaped (pre @ escape_char c) s"
  by (simp add: escape_char_def split_plain)

lemma split_escape_property:
  "split_unescaped pre (escape_property k @ s) = split_unescaped (pre @ escape_property k) s"
proof (induction k arbitrary: pre)
  case (Cons c k)
  have "split_unescaped pre (escape_property (c # k) @ s) = split_unescaped pre (escape_char c @ escape_property k @ s)"
    by (simp add: escape_property_def)
  also have "\<dots> = split_unescaped (pre @ escape_property (c # k)) s"
    unfolding split_escape_char Cons.IH by (simp add: escape_property_def)
  finally show ?case .
qed (simp add: escape_property_def)

lemma split_at_eq: "split_unescaped pre (CHR ''='' # s) = (pre, s)"
  by (cases s) auto

lemma escape_no_newline: "newline \<notin> set (escape_property v)"
  by (auto simp: escape_property_def escape_char_def)

lemma split_lines:
  "\<forall>l \<in> set ls. newline \<notin> set l \<Longrightarrow> split_on newline (concat (map (\<lambda>l. l @ [newline]) ls)) = ls @ [[]]"
  by (induction ls) (simp_all add: split_on_append_sep)

lemma read_line_escaped: "read_line (escape_property k @ CHR ''='' # escape_property v) = (k, v)"
  unfolding read_line_def split_escape_property split_at_eq by (simp add: unescape_escape_property)

section \<open>Properties\<close>


text \<open>
  C1.  Publication is atomic and complete.  For a results directory given by a clean absolute path and a
  plain artifact name, and whatever system call fails or context is cancelled: a write that reports
  success leaves the artifact, in the directory the path leads to, with exactly the data, and a write that reports an error leaves every file
  as it was, the old artifact included.  Apart from created directories nothing else changes, except
  that a temporary file stays behind when its removal fails as well.
\<close>

theorem write_artifact_atomic:
  assumes "\<forall>s \<in> set ds. plain_seg s" and "wr_dir wr = abs_path ds" and "plain_seg name"
    and "write_artifact wr c name data expected w = (r, w')"
  shows "case r of
      None \<Rightarrow> (\<exists>d. names_dir (w_fs w) (wr_dir wr) d \<and> lookup (w_fs w') (d @ [name]) = Some (File_node data) \<and>
                  (\<forall>q. q \<noteq> d @ [name] \<longrightarrow> grown (w_fs w) (w_fs w') q))
    | Some _ \<Rightarrow> (\<forall>q. grown (w_fs w) (w_fs w') q) \<or>
          ((\<exists>t e. w_fault_at w t = Some e) \<and>
           (\<exists>d k. names_dir (w_fs w) (wr_dir wr) d \<and>
              (\<forall>q. q \<noteq> d @ [''.'' @ name @ ''.tmp-'' @ show_nat k] \<longrightarrow> grown (w_fs w) (w_fs w') q)))"
  using write_artifact_effect [OF assms] unfolding write_effect_def by blast

lemma plain_executor: "plain_seg ''executor.json''"
  by (rule plain_segI) simp_all

theorem write_artifact_atomic_witness:
  "\<exists>w' d. write_artifact \<lparr>wr_dir = ''/out'', wr_max = 9\<rparr> None ''executor.json'' ''{}'' 2 (calm_world []) = (None, w') \<and>
     lookup (w_fs w') (d @ [''executor.json'']) = Some (File_node ''{}'')"
proof -
  have "fst (write_artifact \<lparr>wr_dir = ''/out'', wr_max = 9\<rparr> None ''executor.json'' ''{}'' 2 (calm_world [])) = None"
    by code_simp
  then obtain w' where r: "write_artifact \<lparr>wr_dir = ''/out'', wr_max = 9\<rparr> None ''executor.json'' ''{}'' 2 (calm_world []) = (None, w')"
    by (metis prod.collapse)
  have p: "\<forall>s \<in> set [''out'']. plain_seg s" by (simp, rule plain_segI; simp)
  have d: "wr_dir \<lparr>wr_dir = ''/out'', wr_max = 9\<rparr> = abs_path [''out'']" by (simp add: abs_path_def)
  show ?thesis using write_artifact_atomic [OF p d plain_executor r] r by auto
qed

text \<open>
  C31.  An attachment the writer accepts is stored byte for byte, with the declared size, and is no
  larger than the configured limit (for every limit but the largest \<^verbatim>\<open>int64\<close>).
\<close>

theorem write_attachment_exact:
  assumes "\<forall>s \<in> set ds. plain_seg s" and "wr_dir wr = abs_path ds" and "plain_seg name"
    and "sint (wr_max wr) < 9223372036854775807"
    and "write_attachment wr c name data expected w = (None, w')"
  shows "\<exists>d. names_dir (w_fs w) (wr_dir wr) d \<and> lookup (w_fs w') (d @ [name]) = Some (File_node data) \<and>
    int (length data) = expected \<and> expected \<le> sint (wr_max wr)"
proof -
  have lim: "0 \<le> expected" "expected \<le> sint (wr_max wr)"
    and run: "write_artifact wr c name (limit_reader (wr_max wr + 1) data) expected w = (None, w')"
    using assms(5) by (auto simp: write_attachment_def split: if_splits)
  note eff = write_artifact_effect [OF assms(1-3) run]
  then have len: "int (length (limit_reader (wr_max wr + 1) data)) = expected" using lim by simp
  have "sint (wr_max wr + 1) = sint (wr_max wr) + 1"
    using sint64_bounds(1) [of "wr_max wr"] assms(4) by (subst sint_add64_exact) simp_all
  then have "limit_reader (wr_max wr + 1) data = data" using len lim by (simp add: limit_reader_def)
  then show ?thesis using eff len lim unfolding write_effect_def by auto
qed

theorem write_attachment_exact_witness:
  "\<exists>w' d. write_attachment \<lparr>wr_dir = ''/out'', wr_max = 9\<rparr> None ''a-attachment.txt'' ''hi'' 2 (calm_world []) = (None, w') \<and>
     lookup (w_fs w') (d @ [''a-attachment.txt'']) = Some (File_node ''hi'')"
proof -
  have "fst (write_attachment \<lparr>wr_dir = ''/out'', wr_max = 9\<rparr> None ''a-attachment.txt'' ''hi'' 2 (calm_world [])) = None"
    by code_simp
  then obtain w' where r: "write_attachment \<lparr>wr_dir = ''/out'', wr_max = 9\<rparr> None ''a-attachment.txt'' ''hi'' 2 (calm_world []) = (None, w')"
    by (metis prod.collapse)
  have p: "plain_seg ''out''" "plain_seg ''a-attachment.txt''" by (rule plain_segI; simp)+
  have d: "wr_dir \<lparr>wr_dir = ''/out'', wr_max = 9\<rparr> = abs_path [''out'']" by (simp add: abs_path_def)
  have "\<forall>s \<in> set [''out'']. plain_seg s" using p by simp
  then show ?thesis using write_attachment_exact [OF _ d p(2) _ r] r by auto
qed

text \<open>
  With the largest \<^verbatim>\<open>int64\<close> as the limit, which validation accepts, no attachment can be written:
  the limit plus one wraps to a negative number, the limited reader delivers nothing, and the size check
  refuses every nonempty attachment.
\<close>

theorem write_attachment_largest_limit:
  assumes "\<forall>s \<in> set ds. plain_seg s" and "wr_dir wr = abs_path ds" and "plain_seg name"
    and "wr_max wr = 9223372036854775807" and "0 < expected"
  shows "fst (write_attachment wr c name data expected w) \<noteq> None"
proof
  assume "fst (write_attachment wr c name data expected w) = None"
  then obtain w' where "write_attachment wr c name data expected w = (None, w')" by (metis prod.collapse)
  then have run: "write_artifact wr c name (limit_reader (wr_max wr + 1) data) expected w = (None, w')"
    using assms(5) by (auto simp: write_attachment_def split: if_splits)
  have "limit_reader (wr_max wr + 1) data = []" by (simp add: limit_reader_def assms(4))
  then show False using write_artifact_effect [OF assms(1-3) run] assms(5) by simp
qed

theorem write_attachment_largest_limit_witness:
  "fst (write_attachment \<lparr>wr_dir = ''/out'', wr_max = 9223372036854775807\<rparr> None ''a-attachment.txt'' ''hi'' 2 (calm_world [])) \<noteq> None"
proof (rule write_attachment_largest_limit)
  show "\<forall>s \<in> set [''out'']. plain_seg s" by (simp, rule plain_segI; simp)
  show "wr_dir \<lparr>wr_dir = ''/out'', wr_max = 9223372036854775807\<rparr> = abs_path [''out'']" by (simp add: abs_path_def)
  show "plain_seg ''a-attachment.txt''" by (rule plain_segI) simp_all
qed simp_all


text \<open>A project with a results directory that holds an old result, a user's note and the marker.\<close>

definition demo_fs :: fs where
  "demo_fs = [([''p''], Dir_node), ([''p'', ''out''], Dir_node),
     ([''p'', ''out'', ''x-result.json''], File_node ''{}''), ([''p'', ''out'', ''notes.txt''], File_node ''keep''),
     ([''p'', ''out'', ownership_marker], File_node marker_content)]"

lemma fs_ok_demo: "fs_ok demo_fs"
proof -
  have "plain_seg ''p''" "plain_seg ''out''" "plain_seg ''x-result.json''" "plain_seg ''notes.txt''"
    by (rule plain_segI; simp)+
  then show ?thesis using plain_marker by (auto simp: fs_ok_def lookup_def demo_fs_def split: if_splits)
qed


text \<open>
  A dangerous target is refused before anything is touched: the file-system root, the project
  root, its \<^verbatim>\<open>.git\<close> directory and the home directory, compared without regard to case, and any path of
  at most three characters.
\<close>

theorem prepare_refuses_dangerous:
  assumes "is_abs root" and "is_abs dir"
    and "length (clean dir) \<le> 3 \<or>
      (\<exists>p \<in> {''/'', clean root, path_join [clean root, ''.git'']} \<union> {w_home w}. p \<noteq> [] \<and> equal_fold u (clean dir) (clean p))"
  shows "(\<exists>e. prepare u root dir cl allow w = (Some e, w) \<and>
     (e = Errorf ''refusing dangerous results directory: %s'' [clean dir] \<or>
      e = Errorf ''refusing suspiciously short results directory: %s'' [clean dir]))"
proof -
  have cc: "clean (clean dir) = clean dir" using assms(2) by (rule clean_idem_abs)
  have "refuse_dangerous u (w_home w) (clean root) (clean dir) \<noteq> None \<and>
      (\<forall>e. refuse_dangerous u (w_home w) (clean root) (clean dir) = Some e \<longrightarrow>
        e = Errorf ''refusing dangerous results directory: %s'' [clean dir] \<or>
        e = Errorf ''refusing suspiciously short results directory: %s'' [clean dir])"
    using assms(3) by (auto simp: refuse_dangerous_def dangerous_paths_def list_ex_iff cc)
  then show ?thesis
    using assms(1,2) by (auto simp: prepare_def filepath_abs_def)
qed

theorem prepare_refuses_dangerous_witness:
  "\<exists>e. prepare ascii_tables ''/work/p'' ''/home'' True True (calm_world []) = (Some e, calm_world [])"
proof -
  have "is_abs ''/work/p''" "is_abs ''/home''" "w_home (calm_world []) = ''/home''"
    by (simp_all add: is_abs_def has_prefix_def calm_world_def)
  then show ?thesis
    using prepare_refuses_dangerous [of "''/work/p''" "''/home''" "calm_world []" ascii_tables True True] by auto
qed

text \<open>
  C32.  Without permission to clean foreign directories, cleaning removes something only after it has
  read the ownership header from the marker, or when the marker is the only entry.
\<close>

theorem cleaning_needs_ownership:
  assumes "clean_dir dir False w = (r, w')" and "w_fs w' \<noteq> w_fs w"
  shows "(\<exists>data. fst (os_read_file (path_join [dir, ownership_marker]) w) = Inr data \<and> has_prefix data owned_header) \<or>
    (\<exists>es v. fst (os_read_dir dir v) = Inr es \<and> w_fs v = w_fs w \<and> (\<forall>e \<in> set es. fst e = ownership_marker))"
proof -
  obtain a w1 where 1: "os_read_file (path_join [dir, ownership_marker]) w = (a, w1)" by fastforce
  obtain b w2 where 2: "os_read_dir dir w1 = (b, w2)" by fastforce
  have fs: "w_fs w1 = w_fs w" "w_fs w2 = w_fs w"
    using quiet_reads(3) [of w] quiet_reads(5) [of w1] 1 2 by (metis quiet_def snd_conv)+
  have "\<exists>es. b = Inr es \<and> (marker_owned a \<or> \<not> has_material_entries es)"
    using assms fs unfolding clean_dir_def 1 by (cases b) (auto simp: 2 split: if_splits)
  then obtain es where b: "b = Inr es" and ow: "marker_owned a \<or> \<not> has_material_entries es" by blast
  from ow show ?thesis
  proof
    assume "marker_owned a"
    then obtain data where "a = Inr data" "has_prefix data owned_header"
      by (auto simp: marker_owned_def split: sum.splits)
    then show ?thesis using 1 by auto
  next
    assume "\<not> has_material_entries es"
    then have "\<forall>e \<in> set es. fst e = ownership_marker"
      by (auto simp: has_material_entries_def list_ex_iff)
    moreover have "fst (os_read_dir dir w1) = Inr es" using 2 b by simp
    ultimately show ?thesis using fs(1) by blast
  qed
qed

theorem cleaning_needs_ownership_witness:
  "(\<exists>data. fst (os_read_file (path_join [''/p/out'', ownership_marker]) (calm_world demo_fs)) = Inr data \<and>
      has_prefix data owned_header) \<or>
   (\<exists>es v. fst (os_read_dir ''/p/out'' v) = Inr es \<and> w_fs v = demo_fs \<and> (\<forall>e \<in> set es. fst e = ownership_marker))"
proof -
  have e: "lookup (w_fs (snd (clean_dir ''/p/out'' False (calm_world demo_fs)))) [''p'', ''out'', ''x-result.json''] = None"
    by code_simp
  have fs: "w_fs (calm_world demo_fs) = demo_fs" by (simp add: calm_world_def)
  then have "lookup (w_fs (calm_world demo_fs)) [''p'', ''out'', ''x-result.json''] = Some (File_node ''{}'')"
    by (simp add: lookup_def demo_fs_def)
  then have ne: "w_fs (snd (clean_dir ''/p/out'' False (calm_world demo_fs))) \<noteq> w_fs (calm_world demo_fs)" using e by auto
  show ?thesis
    using cleaning_needs_ownership [OF prod.collapse [symmetric] ne] unfolding fs .
qed

definition planted_fs :: fs where
  "planted_fs = [([''p''], Dir_node), ([''p'', ''out''], Dir_node), ([''etc''], Dir_node),
     ([''etc'', ''conf''], File_node ''precious''), ([''p'', ''out'', ownership_marker], Link_node ''/etc/conf'')]"

text \<open>
  A planted marker is followed: when the marker in the results directory is a link, preparing the
  directory succeeds and overwrites the file the link leads to, outside the results directory.
\<close>

theorem prepare_follows_planted_marker:
  "fst (prepare ascii_tables ''/p'' ''/p/out'' True False (calm_world planted_fs)) = None \<and>
   lookup (w_fs (snd (prepare ascii_tables ''/p'' ''/p/out'' True False (calm_world planted_fs)))) [''etc'', ''conf'']
     = Some (File_node marker_content)"
  by code_simp

end
