(* ===== verification/Attachments.thy ===== *)
theory Attachments
  imports Output_Writer Identity "HOL-Library.Code_Target_Nat" "HOL-Library.Code_Target_Int"
begin

text \<open>
  \<^verbatim>\<open>internal/attachments/attachments.go\<close>: the security policy for files, bytes and messages that become
  Allure attachments.  The media type tables of the host (\<^verbatim>\<open>mime\<close>) and the content sniffer of
  \<^verbatim>\<open>net/http\<close> are parameters; the writer and the UUID generator are the interface values the manager holds.
\<close>

record mime_lib = writer_lib +
  lib_type_by_ext :: "string \<Rightarrow> string"
  lib_exts_by_type :: "string \<Rightarrow> string list"
  lib_detect_type :: "string \<Rightarrow> string"

record manager =
  m_write :: "ctx \<Rightarrow> string \<Rightarrow> string \<Rightarrow> int \<Rightarrow> world \<Rightarrow> err option \<times> world"
  m_new_uuid :: "world \<Rightarrow> (err + string) \<times> world"
  m_root :: string
  m_search_roots :: "string list"
  m_maximum :: int64
  m_follow :: bool
  m_external :: bool
  m_redactions :: "string list"

definition new_manager ::
  "(ctx \<Rightarrow> string \<Rightarrow> string \<Rightarrow> int \<Rightarrow> world \<Rightarrow> err option \<times> world) \<Rightarrow> (world \<Rightarrow> (err + string) \<times> world)
     \<Rightarrow> string \<Rightarrow> int64 \<Rightarrow> bool \<Rightarrow> bool \<Rightarrow> string list \<Rightarrow> manager" where
  "new_manager write new project_root maximum follow external redactions =
     \<lparr>m_write = write, m_new_uuid = new, m_root = clean project_root, m_search_roots = [],
      m_maximum = maximum, m_follow = follow, m_external = external, m_redactions = redactions\<rparr>"

fun with_search_roots :: "string list \<Rightarrow> manager \<Rightarrow> manager" where
  "with_search_roots [] m = m"
| "with_search_roots (root # roots) m =
     (if trim_space root = [] then with_search_roots roots m
      else
        let root = (if is_abs root then root else path_join [m_root m, root])
        in with_search_roots roots (m\<lparr>m_search_roots := m_search_roots m @ [clean root]\<rparr>))"

text \<open>\<^verbatim>\<open>^\.[A-Za-z0-9]{1,10}$\<close>\<close>

definition safe_extension :: "string \<Rightarrow> bool" where
  "safe_extension e \<longleftrightarrow>
     (case e of [] \<Rightarrow> False
      | c # cs \<Rightarrow> c = CHR ''.'' \<and> 1 \<le> length cs \<and> length cs \<le> 10 \<and> list_all is_alnum cs)"

text \<open>The extension an artifact gets when its own is unusable.\<close>

definition fallback_extension :: "'u mime_lib_scheme \<Rightarrow> string \<Rightarrow> string \<Rightarrow> string" where
  "fallback_extension lib media_type extension =
     (if \<not> safe_extension extension then
        (case lib_exts_by_type lib media_type of
           e # _ \<Rightarrow> if safe_extension e then e else ''.bin''
         | [] \<Rightarrow> ''.bin'')
      else extension)"

definition within :: "string \<Rightarrow> string \<Rightarrow> bool" where
  "within root candidate =
     (case rel root candidate of
        None \<Rightarrow> False
      | Some relative \<Rightarrow> relative \<noteq> ''..'' \<and> \<not> has_prefix relative ''../'' \<and> \<not> is_abs relative)"

section \<open>Finding the source file\<close>

fun first_existing :: "string list \<Rightarrow> string \<Rightarrow> world \<Rightarrow> string option \<times> world" where
  "first_existing [] src w = (None, w)"
| "first_existing (root # roots) src w =
     (let candidate = clean (path_join [root, src]) in
      case os_lstat candidate w of
        (Inr _, w) \<Rightarrow> (Some candidate, w)
      | (Inl _, w) \<Rightarrow> first_existing roots src w)"

definition resolve_source :: "manager \<Rightarrow> string \<Rightarrow> world \<Rightarrow> string \<times> world" where
  "resolve_source m src w =
     (if is_abs src then (clean src, w)
      else (case first_existing (m_root m # m_search_roots m) src w of
              (Some candidate, w) \<Rightarrow> (candidate, w)
            | (None, w) \<Rightarrow> (clean (path_join [m_root m, src]), w)))"

text \<open>The link policy: the path to read and the node there.\<close>

definition inspect_source :: "manager \<Rightarrow> string \<Rightarrow> world \<Rightarrow> (err + string \<times> node) \<times> world" where
  "inspect_source m path w =
     (case os_lstat path w of
        (Inl e, w) \<Rightarrow> (Inl (Wrapf ''inspect attachment %s: %w'' [base path] e), w)
      | (Inr info, w) \<Rightarrow>
          if \<not> is_link info then (Inr (path, info), w)
          else if \<not> m_follow m then (Inl (Errorf ''refusing symlink attachment %s'' [base path]), w)
          else (case eval_symlinks path w of
                  (Inl e, w) \<Rightarrow> (Inl (Wrapf ''resolve attachment symlink: %w'' [] e), w)
                | (Inr path, w) \<Rightarrow>
                    (case os_stat path w of
                       (Inl e, w) \<Rightarrow> (Inl (Wrapf ''stat resolved attachment: %w'' [] e), w)
                     | (Inr info, w) \<Rightarrow> (Inr (path, info), w))))"

text \<open>Regular file, containment and size; the size of the file.\<close>

definition check_source :: "manager \<Rightarrow> string \<Rightarrow> node \<Rightarrow> err + int" where
  "check_source m path info =
     (case info of
        File_node data \<Rightarrow>
          (if \<not> m_external m \<and> \<not> within (m_root m) path then
             Inl (Errorf ''attachment is outside GAUGE_PROJECT_ROOT: %s'' [base path])
           else if sint (m_maximum m) < int (length data) then
             Inl (Errorf ''attachment %s is %d bytes; limit is %d''
                    [base path, show_int (int (length data)), show_int (sint (m_maximum m))])
           else Inr (int (length data)))
      | _ \<Rightarrow> Inl (Errorf ''attachment is not a regular file: %s'' [base path]))"

section \<open>Copying a file\<close>

text \<open>
  \<^verbatim>\<open>sniff\<close>: reading the header and rewinding may fail; \<open>data\<close> is what the open file holds.
\<close>

definition sniff :: "'u mime_lib_scheme \<Rightarrow> string \<Rightarrow> string \<Rightarrow> world \<Rightarrow> (err + string \<times> string) \<times> world" where
  "sniff lib data path w =
     (case os_check w of
        (Inl e, w) \<Rightarrow> (Inl (Wrapf ''read attachment header: %w'' [] e), w)
      | (Inr _, w) \<Rightarrow>
          (case os_check w of
             (Inl e, w) \<Rightarrow> (Inl (Wrapf ''rewind attachment: %w'' [] e), w)
           | (Inr _, w) \<Rightarrow>
               (let extension = to_lower lib (ext path);
                    media_type = lib_type_by_ext lib extension;
                    media_type = (if media_type = [] \<or> media_type = ''application/octet-stream''
                                  then lib_detect_type lib (take 512 data) else media_type)
                in (Inr (media_type, fallback_extension lib media_type extension), w))))"

text \<open>A new name, the write and the attachment that refers to it.\<close>

definition publish :: "manager \<Rightarrow> ctx \<Rightarrow> string \<Rightarrow> string \<Rightarrow> string \<Rightarrow> string \<Rightarrow> int \<Rightarrow> world
    \<Rightarrow> (err + attachment) \<times> world" where
  "publish m c display media_type extension data len w =
     (case m_new_uuid m w of
        (Inl e, w) \<Rightarrow> (Inl e, w)
      | (Inr i, w) \<Rightarrow>
          (let name = i @ ''-attachment'' @ extension in
           case m_write m c name data len w of
             (Some e, w) \<Rightarrow> (Inl e, w)
           | (None, w) \<Rightarrow> (Inr \<lparr>a_name = display, a_type = media_type, a_source = name\<rparr>, w)))"

definition copy_file :: "'u mime_lib_scheme \<Rightarrow> manager \<Rightarrow> ctx \<Rightarrow> string \<Rightarrow> string \<Rightarrow> world \<Rightarrow> (err + attachment) \<times> world" where
  "copy_file lib m c display src w =
     (if trim_space src = [] then (Inl (Errorf ''attachment path is empty'' []), w)
      else (case resolve_source m src w of (path, w) \<Rightarrow>
        (case inspect_source m path w of
           (Inl e, w) \<Rightarrow> (Inl e, w)
         | (Inr (path, info), w) \<Rightarrow>
             (case check_source m path info of
                Inl e \<Rightarrow> (Inl e, w)
              | Inr len \<Rightarrow>
                  (case os_read_file path w of
                     (Inl e, w) \<Rightarrow> (Inl (Wrapf ''open attachment: %w'' [] e), w)
                   | (Inr data, w) \<Rightarrow>
                       (case sniff lib data path w of
                          (Inl e, w) \<Rightarrow> (Inl e, w)
                        | (Inr (media_type, extension), w) \<Rightarrow>
                            publish m c display media_type extension data len w))))))"

section \<open>Bytes and messages\<close>

definition attach_bytes :: "'u mime_lib_scheme \<Rightarrow> manager \<Rightarrow> ctx \<Rightarrow> string \<Rightarrow> string \<Rightarrow> string \<Rightarrow> string \<Rightarrow> world
    \<Rightarrow> (err + attachment) \<times> world" where
  "attach_bytes lib m c display media_type extension data w =
     (if sint (m_maximum m) < int (length data) then
        (Inl (Errorf ''attachment %s is %d bytes; limit is %d''
                [display, show_int (int (length data)), show_int (sint (m_maximum m))]), w)
      else
        let media_type = (if media_type = [] then lib_detect_type lib data else media_type);
            extension = fallback_extension lib media_type extension
        in publish m c display media_type (to_lower lib extension) data (int (length data)) w)"

definition redacted_text :: "manager \<Rightarrow> string list \<Rightarrow> string" where
  "redacted_text m messages =
     fold (\<lambda>secret v. if secret \<noteq> [] then replace_all v secret ''[REDACTED]'' else v) (m_redactions m)
       (join [newline] messages)"

definition attach_messages :: "'u mime_lib_scheme \<Rightarrow> manager \<Rightarrow> ctx \<Rightarrow> string \<Rightarrow> string list \<Rightarrow> world
    \<Rightarrow> (err + attachment) \<times> world" where
  "attach_messages lib m c display messages w =
     (if messages = [] then (Inl (Errorf ''no messages to attach'' []), w)
      else attach_bytes lib m c display ''text/plain; charset=utf-8'' ''.txt''
             (redacted_text m messages @ [newline]) w)"

section \<open>Containment, extensions, links\<close>

text \<open>Between absolute paths, containment is the prefix order of the components.\<close>

lemma join_plain_head:
  assumes "\<forall>s \<in> set us. plain_seg s" and "us \<noteq> []"
  shows "join ''/'' us \<noteq> ''..'' \<and> \<not> has_prefix (join ''/'' us) ''../'' \<and> \<not> is_abs (join ''/'' us)"
proof -
  obtain u vs where us: "us = u # vs" using assms(2) by (cases us) auto
  then have u: "u \<noteq> []" "u \<noteq> ''..''" "slash \<notin> set u" using assms(1) plain_segD by auto
  obtain rest where j: "join ''/'' us = u @ rest" "rest = [] \<or> hd rest = slash"
    by (cases vs) (auto simp: us)
  obtain c cs where c: "u = c # cs" using u(1) by (cases u) auto
  have "takeWhile (\<lambda>x. x \<noteq> slash) (join ''/'' us) = u"
    using j u(3) by (cases rest) (auto simp: takeWhile_append takeWhile_eq_all_conv)
  then have tw: "takeWhile (\<lambda>x. x \<noteq> slash) (join ''/'' us) \<noteq> ''..''" using u(2) by simp
  have "join ''/'' us \<noteq> ''..''" using tw by auto
  moreover have "\<not> has_prefix (join ''/'' us) ''../''"
    using tw by (auto simp: has_prefix_def prefix_def)
  moreover have "\<not> is_abs (join ''/'' us)"
    using j(1) u(3) by (simp add: is_abs_def has_prefix_def c)
  ultimately show ?thesis by blast
qed

lemma join_up: "bs \<noteq> [] \<Longrightarrow> join ''/'' (map (\<lambda>_. ''..'') bs @ ts) = ''..'' \<or>
    has_prefix (join ''/'' (map (\<lambda>_. ''..'') bs @ ts)) ''../''"
  by (cases bs; cases "map (\<lambda>_. ''..'') (tl bs) @ ts") (auto simp: has_prefix_def)

lemma within_abs:
  assumes "is_abs r" and "is_abs p"
  shows "within r p \<longleftrightarrow> prefix (comps r) (comps p)"
proof -
  obtain bs ts where st: "strip_common (comps r) (comps p) = (bs, ts)" by fastforce
  have plain: "\<forall>s \<in> set ts. plain_seg s"
    using strip_common_snd [OF st] comps_plain [of p] by blast
  show ?thesis
  proof (cases "bs = []")
    case True
    then have eq: "comps p = comps r @ ts" using st strip_common_prefix by blast
    have dot: "\<not> is_abs ''.''" "\<not> has_prefix ''.'' ''../''" by (simp_all add: is_abs_def has_prefix_def)
    have "within r p"
    proof (cases "ts = []")
      case True
      then show ?thesis using eq dot by (simp add: within_def rel_abs [OF assms])
    next
      case False
      then show ?thesis
        using eq \<open>bs = []\<close> st join_plain_head [OF plain False] by (simp add: within_def rel_abs [OF assms])
    qed
    then show ?thesis using eq by simp
  next
    case False
    then have np: "\<not> prefix (comps r) (comps p)"
      using st strip_common_prefix unfolding prefix_def by (metis Pair_inject)
    then have "comps p \<noteq> comps r" by auto
    then have "rel r p = Some (join ''/'' (map (\<lambda>_. ''..'') bs @ ts))"
      using st by (simp add: rel_abs [OF assms])
    then show ?thesis using join_up [OF False, of ts] np by (auto simp: within_def)
  qed
qed

lemma is_alnum_ascii: "is_alnum c \<Longrightarrow> ord c < 128 \<and> c \<noteq> slash"
  by (auto simp: is_alnum_def is_digit_def cont_in_def ord_def)

lemma safe_extensionE:
  assumes "safe_extension e"
  obtains cs where "e = CHR ''.'' # cs" "cs \<noteq> []" "list_all is_alnum cs"
  using assms by (cases e) (auto simp: safe_extension_def Suc_le_eq)

lemma safe_fallback [simp]: "safe_extension (fallback_extension lib mt e)"
  by (auto simp: fallback_extension_def safe_extension_def is_alnum_def cont_in_def ord_def split: list.split)

lemma lower_alnum: "is_alnum c \<Longrightarrow> is_alnum (chr (lower_ascii (ord c)))"
  by (auto simp: is_alnum_def is_digit_def cont_in_def lower_ascii_def ord_chr)

lemma safe_lower: "safe_extension e \<Longrightarrow> safe_extension (to_lower u e)"
proof -
  assume s: "safe_extension e"
  then obtain cs where e: "e = CHR ''.'' # cs" "list_all is_alnum cs" by (rule safe_extensionE)
  have "is_ascii e" using e is_alnum_ascii by (auto simp: is_ascii_def list_all_iff ord_def)
  moreover have "chr (lower_ascii (ord (CHR ''.''))) = CHR ''.''" by code_simp
  moreover have "list_all is_alnum (map (\<lambda>c. chr (lower_ascii (ord c))) cs)"
    using e(2) lower_alnum by (simp add: list_all_iff)
  ultimately show ?thesis using s by (simp add: to_lower_def safe_extension_def e(1))
qed

lemma walk_follow:
  "walk n fs f here xs = Inr q \<Longrightarrow> \<not> f \<Longrightarrow> \<forall>t. lookup fs q \<noteq> Some (Link_node t) \<Longrightarrow> walk n fs True here xs = Inr q"
proof (induction n fs f here xs rule: walk.induct)
  case (2 n fs f here s rest)
  show ?case
  proof (cases "s = [] \<or> s = ''.'' \<or> s = ''..''")
    case True
    then show ?thesis using 2 by (auto split: if_splits)
  next
    case False
    then show ?thesis using 2 by (auto split: option.splits node.splits if_splits)
  qed
qed simp

lemma node_at_file: "node_at fs False p = Inr (File_node d) \<Longrightarrow> node_at fs True p = Inr (File_node d)"
  using walk_follow [of link_limit fs False "[]" "split_on slash p"]
  by (auto simp: node_at_def resolve_at_def split: sum.splits option.splits)

section \<open>What the manager does, over its interfaces\<close>

lemma contains_middle: "contains (a @ s @ b) s"
  by (simp add: contains_def)

lemma first_existing_quiet: "first_existing roots src w = (r, w') \<Longrightarrow> quiet w w'"
proof (induction roots arbitrary: w)
  case (Cons root roots)
  obtain x u where x: "os_lstat (clean (path_join [root, src])) w = (x, u)" by fastforce
  then have "quiet w u" using quiet_reads(1) by (metis snd_conv)
  then show ?case using Cons x by (cases x) (auto simp: Let_def intro: quiet_trans)
qed simp

lemma resolve_source_quiet: "resolve_source m src w = (p, w') \<Longrightarrow> quiet w w'"
  by (auto simp: resolve_source_def simp del: first_existing.simps split: if_splits prod.splits option.splits
      dest: first_existing_quiet)

lemma inspect_source_spec:
  assumes "inspect_source m path w = (r, w')"
  shows "quiet w w' \<and> (\<forall>p info. r = Inr (p, info) \<longrightarrow>
    (p = path \<and> node_at (w_fs w) False path = Inr info \<and> \<not> is_link info) \<or>
    (m_follow m \<and> (\<exists>q. resolve_at (w_fs w) True path = Inr q \<and> p = abs_path q) \<and> node_at (w_fs w) True p = Inr info))"
proof -
  obtain r1 w1 where 1: "os_lstat path w = (r1, w1)" by fastforce
  have q1: "quiet w w1" using 1 quiet_reads(1) by (metis snd_conv)
  show ?thesis
  proof (cases "\<exists>info. r1 = Inr info \<and> is_link info \<and> m_follow m")
    case False
    then show ?thesis
      using assms 1 q1
      by (auto simp: inspect_source_def os_lstat_def sys_read_def split: sum.splits if_splits option.splits)
  next
    case True
    then obtain info1 where i1: "r1 = Inr info1" "is_link info1" "m_follow m" by blast
    obtain r2 w2 where 2: "eval_symlinks path w1 = (r2, w2)" by fastforce
    have q2: "quiet w1 w2" using 2 quiet_reads(4) by (metis snd_conv)
    have fs1: "w_fs w1 = w_fs w" using q1 by (simp add: quiet_def)
    show ?thesis
    proof (cases r2)
      case (Inl e)
      then show ?thesis using assms 1 i1 2 q1 q2 by (auto simp: inspect_source_def intro: quiet_trans)
    next
      case (Inr p2)
      then obtain q where q: "resolve_at (w_fs w) True path = Inr q" "p2 = abs_path q"
        using 2 fs1 by (auto simp: eval_symlinks_def sys_read_def split: sum.splits option.splits)
      obtain r3 w3 where 3: "os_stat p2 w2 = (r3, w3)" by fastforce
      have q3: "quiet w2 w3" using 3 quiet_reads(2) by (metis snd_conv)
      have fs2: "w_fs w2 = w_fs w" using q2 fs1 by (simp add: quiet_def)
      have "quiet w w3" using q1 q2 q3 quiet_trans by blast
      moreover have "r3 = Inr info \<Longrightarrow> node_at (w_fs w) True p2 = Inr info" for info
        using 3 fs2 by (auto simp: os_stat_def sys_read_def split: option.splits)
      ultimately show ?thesis using assms 1 i1 2 Inr 3 q by (cases r3) (auto simp: inspect_source_def)
    qed
  qed
qed

lemma sniff_spec:
  assumes "sniff lib data path w = (r, w')"
  shows "quiet w w' \<and> (\<forall>mt e. r = Inr (mt, e) \<longrightarrow> safe_extension e)"
proof -
  obtain r1 w1 where 1: "os_check w = (r1, w1)" by fastforce
  obtain r2 w2 where 2: "os_check w1 = (r2, w2)" by fastforce
  have "quiet w w1" "quiet w1 w2" using 1 2 quiet_reads(6) by (metis snd_conv)+
  then show ?thesis
    using assms 1 2 by (cases r1; cases r2) (auto simp: sniff_def Let_def intro: quiet_trans)
qed

text \<open>The policy a source file has passed: which file its bytes were read from.\<close>

definition admitted :: "manager \<Rightarrow> fs \<Rightarrow> string \<Rightarrow> string \<Rightarrow> string \<Rightarrow> bool" where
  "admitted m fs p0 path data \<longleftrightarrow>
     node_at fs True path = Inr (File_node data) \<and>
     ((path = p0 \<and> node_at fs False p0 = Inr (File_node data)) \<or>
      (m_follow m \<and> (\<exists>q. resolve_at fs True p0 = Inr q \<and> path = abs_path q))) \<and>
     (m_external m \<or> within (m_root m) path) \<and> int (length data) \<le> sint (m_maximum m)"

lemma checked_admitted:
  assumes "inspect_source m p0 w = (Inr (path, info), w')" and "check_source m path info = Inr len"
  obtains data where "info = File_node data" and "admitted m (w_fs w) p0 path data"
proof -
  obtain data where d: "info = File_node data" "m_external m \<or> within (m_root m) path"
      "int (length data) \<le> sint (m_maximum m)"
    using assms(2) by (auto simp: check_source_def split: node.splits if_splits)
  have "(path = p0 \<and> node_at (w_fs w) False p0 = Inr info \<and> \<not> is_link info) \<or>
      (m_follow m \<and> (\<exists>q. resolve_at (w_fs w) True p0 = Inr q \<and> path = abs_path q) \<and> node_at (w_fs w) True path = Inr info)"
    using inspect_source_spec [OF assms(1)] by blast
  then have "admitted m (w_fs w) p0 path data"
    using d node_at_file unfolding admitted_def by (elim disjE) simp_all
  then show thesis using that d(1) by blast
qed

text \<open>A copy that is refused, and one that publishes what the admitted file holds.\<close>

lemma copy_file_cases:
  assumes run: "copy_file lib m c display src w = (r, w')"
  obtains (refused) e where "r = Inl e" "quiet w w'"
  | (published) path data mt e len v where "admitted m (w_fs w) (fst (resolve_source m src w)) path data" "quiet w v"
      "safe_extension e" "publish m c display mt e data len v = (r, w')"
proof -
  obtain p0 w1 where 1: "resolve_source m src w = (p0, w1)" by fastforce
  obtain r2 w2 where 2: "inspect_source m p0 w1 = (r2, w2)" by fastforce
  have q1: "quiet w w1" by (rule resolve_source_quiet [OF 1])
  have q2: "quiet w w2" using q1 inspect_source_spec [OF 2] quiet_trans by blast
  have fs: "w_fs w1 = w_fs w" "w_fs w2 = w_fs w" using q1 q2 by (simp_all add: quiet_def)
  have stop: thesis if "\<exists>e v. (r, w') = (Inl e, v) \<and> quiet w v" using that refused by blast
  show thesis
  proof (cases "trim_space src \<noteq> [] \<and> (\<exists>path info len. r2 = Inr (path, info) \<and> check_source m path info = Inr len)")
    case False
    then show thesis
      using run 1 2 q2 stop by (cases r2) (auto simp: copy_file_def split: if_splits sum.splits)
  next
    case True
    then obtain path info len where p: "r2 = Inr (path, info)" "check_source m path info = Inr len" by blast
    obtain data where d: "info = File_node data" "admitted m (w_fs w1) p0 path data"
      by (rule checked_admitted [OF 2 [unfolded p(1)] p(2)])
    obtain r3 w3 where 3: "os_read_file path w2 = (r3, w3)" by fastforce
    have q3: "quiet w w3" using 3 quiet_reads(3) q2 quiet_trans by (metis snd_conv)
    have r3: "r3 = Inr data" if "\<not> isl r3"
      using that 3 d(2) fs by (auto simp: admitted_def os_read_file_def sys_read_def split: option.splits)
    obtain r4 w4 where 4: "sniff lib data path w3 = (r4, w4)" by fastforce
    note s4 = sniff_spec [OF 4]
    have q4: "quiet w w4" using q3 s4 quiet_trans by blast
    have rest: "(r, w') = (case r3 of Inl e \<Rightarrow> (Inl (Wrapf ''open attachment: %w'' [] e), w3)
        | Inr data \<Rightarrow> (case sniff lib data path w3 of (Inl e, w) \<Rightarrow> (Inl e, w)
           | (Inr (mt, e), w) \<Rightarrow> publish m c display mt e data len w))"
      using run True 1 2 p 3 by (simp add: copy_file_def)
    show thesis
    proof (cases "isl r3 \<or> isl r4")
      case True
      then show thesis using rest r3 4 q3 q4 by (intro stop) (cases r3; cases r4; auto)
    next
      case ok: False
      then obtain mt e where me: "r4 = Inr (mt, e)" by (cases r4) auto
      then have pub: "publish m c display mt e data len w4 = (r, w')" using rest r3 4 ok by simp
      show thesis by (rule published [OF _ q4 _ pub]) (use d(2) fs(1) 1 s4 me in simp_all)
    qed
  qed
qed

text \<open>
  The outcome of attaching some data, over the promises of the store: either the attachment refers to a
  plain name that cleaning knows, and the store holds the data under it, or nothing was spoiled.
\<close>

definition attached :: "(string \<Rightarrow> string \<Rightarrow> world \<Rightarrow> world \<Rightarrow> bool) \<Rightarrow> (string \<Rightarrow> world \<Rightarrow> world \<Rightarrow> bool)
    \<Rightarrow> string \<Rightarrow> string \<Rightarrow> world \<Rightarrow> err + attachment \<Rightarrow> world \<Rightarrow> bool" where
  "attached holds spared display data w r w' \<longleftrightarrow> advances w w' \<and>
     (case r of
        Inr a \<Rightarrow> a_name a = display \<and> plain_seg (a_source a) \<and> known_artifact (a_source a) \<and>
          (\<exists>w1. quiet w w1 \<and> holds (a_source a) data w1 w')
      | Inl _ \<Rightarrow> quiet w w' \<or> (\<exists>name w1. plain_seg name \<and> quiet w w1 \<and> spared name w1 w'))"

lemma attached_quiet:
  assumes q: "quiet w v" and a: "attached holds spared display data v r w'"
  shows "attached holds spared display data w r w'"
proof -
  have t: "quiet v x \<Longrightarrow> quiet w x" for x using q quiet_trans by blast
  have "advances w w'" using q a quiet_advances advances_trans unfolding attached_def by blast
  then show ?thesis using a t unfolding attached_def by (cases r) (simp_all, metis, metis)
qed

lemma attached_stop: "quiet w w' \<Longrightarrow> attached holds spared display data w (Inl e) w'"
  by (simp add: attached_def quiet_advances)

locale attachment_manager = uuid_source "m_new_uuid m" + attachment_store "m_write m" holds spared
  for m :: manager and holds :: "string \<Rightarrow> string \<Rightarrow> world \<Rightarrow> world \<Rightarrow> bool"
    and spared :: "string \<Rightarrow> world \<Rightarrow> world \<Rightarrow> bool"
begin

lemma publish_spec:
  assumes run: "publish m c display mt e data len w = (r, w')" and e: "safe_extension e"
  shows "attached holds spared display data w r w'"
proof -
  obtain r1 w1 where 1: "m_new_uuid m w = (r1, w1)" by fastforce
  note q = new_quiet [OF 1]
  show ?thesis
  proof (cases r1)
    case (Inl x)
    then show ?thesis using run 1 q attached_stop by (auto simp: publish_def)
  next
    case (Inr i)
    define name where "name = i @ ''-attachment'' @ e"
    obtain cs where cs: "e = CHR ''.'' # cs" "list_all is_alnum cs" using e by (rule safe_extensionE)
    then have "slash \<notin> set (''-attachment'' @ e)"
      using is_alnum_ascii by (auto simp: list_all_iff)
    then have plain: "plain_seg name"
      unfolding name_def using artifact_name_plain [of w i w1 "''-attachment'' @ e"] 1 Inr by simp
    have "contains name ''-attachment.''"
      using contains_middle [of i "''-attachment.''" cs] by (simp add: name_def cs)
    then have known: "known_artifact name" by (simp add: known_artifact_def)
    obtain r2 w2 where 2: "m_write m c name data len w1 = (r2, w2)" by fastforce
    have adv: "advances w w2" using q store_advances [OF 2] quiet_advances advances_trans by blast
    have res: "(case r2 of Some x \<Rightarrow> (Inl x, w2)
        | None \<Rightarrow> (Inr \<lparr>a_name = display, a_type = mt, a_source = name\<rparr>, w2)) = (r, w')"
      using run unfolding publish_def 1 Inr prod.case sum.case name_def [symmetric] Let_def 2 .
    show ?thesis
    proof (cases r2)
      case None
      then have "r = Inr \<lparr>a_name = display, a_type = mt, a_source = name\<rparr>" "w' = w2" using res by simp_all
      moreover have "holds name data w1 w2" using store_holds [OF plain] 2 None by simp
      ultimately show ?thesis using adv plain known q by (auto simp: attached_def)
    next
      case (Some x)
      then have "r = Inl x" "w' = w2" using res by simp_all
      moreover have "spared name w1 w2" using store_spares [OF plain] 2 Some by simp
      ultimately show ?thesis using adv plain q by (auto simp: attached_def)
    qed
  qed
qed

lemma copy_spec:
  assumes "copy_file lib m c display src w = (r, w')"
  shows "\<exists>path data. attached holds spared display data w r w' \<and>
    (\<not> isl r \<longrightarrow> admitted m (w_fs w) (fst (resolve_source m src w)) path data)"
  using assms
proof (cases rule: copy_file_cases)
  case (refused e)
  then show ?thesis using attached_stop by auto
next
  case (published path data mt e len v)
  then show ?thesis using attached_quiet [OF published(2) publish_spec [OF published(4,3)]] by blast
qed

lemma bytes_spec:
  assumes "attach_bytes lib m c display mt e data w = (r, w')"
  shows "attached holds spared display data w r w' \<and> (\<not> isl r \<longrightarrow> int (length data) \<le> sint (m_maximum m))"
proof (cases "sint (m_maximum m) < int (length data)")
  case True
  then show ?thesis using assms attached_stop [OF quiet_refl] by (auto simp: attach_bytes_def)
next
  case False
  then show ?thesis
    using assms publish_spec [OF _ safe_lower [OF safe_fallback]] by (auto simp: attach_bytes_def Let_def)
qed

lemma messages_spec:
  assumes "attach_messages lib m c display messages w = (r, w')"
  shows "attached holds spared display (redacted_text m messages @ [newline]) w r w' \<and> (\<not> isl r \<longrightarrow> messages \<noteq> [])"
proof (cases "messages = []")
  case True
  then show ?thesis using assms attached_stop [OF quiet_refl] by (auto simp: attach_messages_def)
next
  case False
  then have "attach_bytes lib m c display ''text/plain; charset=utf-8'' ''.txt'' (redacted_text m messages @ [newline]) w = (r, w')"
    using assms by (simp add: attach_messages_def)
  from bytes_spec [OF this] False show ?thesis by blast
qed

end

section \<open>The manager of the reporter\<close>

definition reporter_manager ::
  "writer \<Rightarrow> string \<Rightarrow> string list \<Rightarrow> int64 \<Rightarrow> bool \<Rightarrow> bool \<Rightarrow> string list \<Rightarrow> manager" where
  "reporter_manager wr project_root roots maximum follow external redactions =
     with_search_roots roots
       (new_manager (write_attachment wr) uuid_new project_root maximum follow external redactions)"

lemma with_search_roots_sel [simp]:
  "m_write (with_search_roots roots m) = m_write m" "m_new_uuid (with_search_roots roots m) = m_new_uuid m"
  "m_root (with_search_roots roots m) = m_root m" "m_maximum (with_search_roots roots m) = m_maximum m"
  "m_follow (with_search_roots roots m) = m_follow m" "m_external (with_search_roots roots m) = m_external m"
  "m_redactions (with_search_roots roots m) = m_redactions m"
  by (induction roots m rule: with_search_roots.induct) (simp_all add: Let_def)

lemma reporter_manager_sel [simp]:
  "m_write (reporter_manager wr root roots mx fl ex red) = write_attachment wr"
  "m_new_uuid (reporter_manager wr root roots mx fl ex red) = uuid_new"
  "m_root (reporter_manager wr root roots mx fl ex red) = clean root"
  "m_maximum (reporter_manager wr root roots mx fl ex red) = mx"
  "m_follow (reporter_manager wr root roots mx fl ex red) = fl"
  "m_external (reporter_manager wr root roots mx fl ex red) = ex"
  "m_redactions (reporter_manager wr root roots mx fl ex red) = red"
  by (simp_all add: reporter_manager_def new_manager_def)

lemma search_roots_abs:
  "is_abs (m_root m) \<Longrightarrow> list_all is_abs (m_search_roots m) \<Longrightarrow> list_all is_abs (m_search_roots (with_search_roots roots m))"
  by (induction roots m rule: with_search_roots.induct) (simp_all add: Let_def is_abs_clean is_abs_path_join)

lemma first_existing_abs:
  "first_existing roots src w = (Some p, w') \<Longrightarrow> list_all is_abs roots \<Longrightarrow> is_abs p"
proof (induction roots arbitrary: w)
  case (Cons root roots)
  then show ?case
    by (auto simp: Let_def is_abs_clean is_abs_path_join split: prod.splits sum.splits)
qed simp

lemma resolve_source_abs:
  assumes "is_abs root"
  shows "is_abs (fst (resolve_source (reporter_manager wr root roots mx fl ex red) src w))"
proof -
  let ?m = "reporter_manager wr root roots mx fl ex red"
  have r: "is_abs (m_root ?m)" using assms by (simp add: is_abs_clean)
  have "list_all is_abs (m_search_roots ?m)"
    unfolding reporter_manager_def using assms by (intro search_roots_abs) (simp_all add: new_manager_def is_abs_clean)
  then have "list_all is_abs (m_root ?m # m_search_roots ?m)" using r by simp
  then show ?thesis
    using r first_existing_abs unfolding resolve_source_def
    by (auto simp del: first_existing.simps simp: is_abs_clean is_abs_path_join split: prod.split option.split)
qed

interpretation reporter: attachment_manager "reporter_manager wr root roots mx fl ex red"
    "\<lambda>name data w w'. writer_ok wr \<longrightarrow> stored (wr_dir wr) name data w w'"
    "\<lambda>name w w'. writer_ok wr \<longrightarrow> unspoiled (wr_dir wr) name w w'"
  for wr root roots mx fl ex red
proof (rule attachment_manager.intro)
  show "uuid_source (m_new_uuid (reporter_manager wr root roots mx fl ex red))"
    by (simp add: random_uuids.uuid_source_axioms)
  show "attachment_store (m_write (reporter_manager wr root roots mx fl ex red))
      (\<lambda>name data w w'. writer_ok wr \<longrightarrow> stored (wr_dir wr) name data w w')
      (\<lambda>name w w'. writer_ok wr \<longrightarrow> unspoiled (wr_dir wr) name w w')"
    by (simp add: safe_writer.attachment_store_axioms)
qed

lemma stored_quiet: "quiet w w1 \<Longrightarrow> stored d n x w1 w' \<Longrightarrow> stored d n x w w'"
  by (simp add: stored_def quiet_def)

text \<open>What an attachment of the reporter is, without the promises of the interfaces.\<close>

lemma attached_reporter:
  assumes "attached (\<lambda>name data w w'. writer_ok wr \<longrightarrow> stored (wr_dir wr) name data w w')
      (\<lambda>name w w'. writer_ok wr \<longrightarrow> unspoiled (wr_dir wr) name w w') display data w (Inr a) w'" and "writer_ok wr"
  shows "a_name a = display \<and> plain_seg (a_source a) \<and> known_artifact (a_source a) \<and>
    stored (wr_dir wr) (a_source a) data w w'"
  using assms stored_quiet by (auto simp: attached_def)

section \<open>A concrete host\<close>

text \<open>A host without media type tables, and a project with a screenshot and a linked directory.\<close>

definition plain_mime :: mime_lib where
  "plain_mime = writer_lib.extend
     (meta_lib.extend plain_meta (writer_lib.fields (\<lambda>_. Inr ''{}'') (\<lambda>_. Inr ''{}'') (\<lambda>_. Inr ''{}'') (\<lambda>_. Inr ''[]'')))
     (mime_lib.fields (\<lambda>_. ''image/png'') (\<lambda>_. []) (\<lambda>_. ''text/plain''))"

definition shots_fs :: fs where
  "shots_fs = [([''p''], Dir_node), ([''p'', ''a.png''], File_node ''img''), ([''p'', ''shots''], Link_node ''/etc''),
     ([''etc''], Dir_node), ([''etc'', ''key''], File_node ''precious'')]"

abbreviation demo_writer :: writer where
  "demo_writer \<equiv> \<lparr>wr_dir = ''/out'', wr_max = 99\<rparr>"

abbreviation demo_manager :: manager where
  "demo_manager \<equiv> reporter_manager demo_writer ''/p'' [] 99 False False [''hunter2'']"

lemma demo_writer_ok: "writer_ok demo_writer"
  unfolding writer_ok_def by code_simp

section \<open>Properties\<close>

lemma sublist_before: "sublist s (t @ [c]) \<Longrightarrow> s \<noteq> [] \<Longrightarrow> c \<notin> set s \<Longrightarrow> sublist s t"
  by (auto simp: sublist_append prefix_Cons sublist_Cons_right dest: suffix_imp_sublist)





text \<open>
  Containment is lexical.  A link in the middle of the path leads out of the project although links
  are refused and external files are not allowed: with \<^verbatim>\<open>shots\<close> a link to a foreign directory, the
  foreign file \<^verbatim>\<open>shots/key\<close> is accepted as an attachment.
\<close>

theorem attachment_escapes_project:
  "m_follow demo_manager = False \<and> m_external demo_manager = False \<and>
   resolve_at shots_fs True ''/p/shots/key'' = Inr [''etc'', ''key''] \<and>
   \<not> isl (fst (copy_file plain_mime demo_manager None ''shot'' ''shots/key'' (calm_world shots_fs)))"
  by code_simp

end
