(* ===== verification/Step_Mapping.thy ===== *)
theory Step_Mapping
  imports Attachments Status Timing Gauge_Proto
begin

text \<open>
  \<^verbatim>\<open>internal/mapping/mapping.go\<close>, the part below a scenario: parameters and their privacy, the steps of a
  scenario with their timing, verdicts and attachments, and the fixtures of hooks.  The mapper holds the
  UUID generator, the attachment manager and the clock as interface values.
\<close>

record mapper =
  mp_cfg :: config
  mp_root :: string
  mp_env :: env_map
  mp_host :: string
  mp_new_uuid :: "world \<Rightarrow> (err + string) \<times> world"
  mp_attach :: "manager option"
  mp_now :: "world \<Rightarrow> gtime \<times> world"

section \<open>Small helpers\<close>

text \<open>The package's own \<^verbatim>\<open>first\<close>: the first value that is more than white space, as it is.\<close>

fun first_nonblank :: "string list \<Rightarrow> string" where
  "first_nonblank [] = []"
| "first_nonblank (v # vs) = (if trim_space v \<noteq> [] then v else first_nonblank vs)"

definition max64 :: "int64 \<Rightarrow> int64 \<Rightarrow> int64" where
  "max64 a b = (if b <s a then a else b)"

definition min64 :: "int64 \<Rightarrow> int64 \<Rightarrow> int64" where
  "min64 a b = (if a <s b then a else b)"

definition matches :: "'u unicode_scheme \<Rightarrow> string \<Rightarrow> string list \<Rightarrow> bool" where
  "matches u name patterns =
     list_ex (\<lambda>p. equal_fold u p name \<or> glob_match (to_lower u p) (to_lower u name)) patterns"

definition private_digest :: "string \<Rightarrow> string" where
  "private_digest v = ''sha256:'' @ sha256_hex v"

definition screenshot_name :: "'u unicode_scheme \<Rightarrow> nat \<Rightarrow> string \<Rightarrow> string" where
  "screenshot_name u index src =
     (if index = 0 \<and> contains (to_lower u (base src)) ''fail'' then ''Failure screenshot''
      else ''Screenshot '' @ show_nat (index + 1))"

definition row_cells :: "proto_row option \<Rightarrow> string list" where
  "row_cells row = (case row of None \<Rightarrow> [] | Some cells \<Rightarrow> cells)"

definition table_json :: "proto_table option \<Rightarrow> string" where
  "table_json table =
     (case table of
        None \<Rightarrow> []
      | Some t \<Rightarrow>
          json_rows ((case pt_headers t of None \<Rightarrow> [] | Some cells \<Rightarrow> [cells])
            @ map the (filter (\<lambda>row. row \<noteq> None) (pt_rows t))))"

fun aggregate_from :: "status \<Rightarrow> step_result list \<Rightarrow> status" where
  "aggregate_from v [] = v"
| "aggregate_from v (s # ss) =
     (if s_status s = Broken then Broken
      else
        let v = (if s_status s = Failed then Failed else v);
            v = (if s_status s = Skipped \<and> v = Passed then Skipped else v)
        in aggregate_from v ss)"

definition aggregate_step_status :: "step_result list \<Rightarrow> status" where
  "aggregate_step_status = aggregate_from Passed"

section \<open>Parameters\<close>

text \<open>The parameter as it is shown, and the value that enters the history identifier.\<close>

definition private_parameter :: "'u unicode_scheme \<Rightarrow> config \<Rightarrow> string \<Rightarrow> string \<Rightarrow> parameter \<times> string" where
  "private_parameter u cfg name v =
     (let p = \<lparr>p_name = name, p_value = v, p_excluded = False, p_mode = Default_mode\<rparr>;
          (p, ident) = (if matches u name (c_mask cfg)
             then (p\<lparr>p_mode := Masked, p_value := ''[MASKED]''\<rparr>, private_digest v) else (p, v));
          (p, ident) = (if matches u name (c_hide cfg)
             then (p\<lparr>p_mode := Hidden, p_value := ''[HIDDEN]''\<rparr>, private_digest v) else (p, ident));
          p = (if matches u name (c_exclude_history cfg) then p\<lparr>p_excluded := True\<rparr> else p)
      in (p, ident))"

text \<open>
  The counter \<^verbatim>\<open>names\<close> of the three loops: \<open>seen\<close> holds the names counted so far, before they got a
  suffix.
\<close>

definition numbered_name :: "string list \<Rightarrow> string \<Rightarrow> string" where
  "numbered_name seen name =
     (let n = count_list seen name + 1 in if 1 < n then name @ ''_'' @ show_nat n else name)"

fun column_parameters :: "'u unicode_scheme \<Rightarrow> config \<Rightarrow> string list \<Rightarrow> nat \<Rightarrow> string list \<Rightarrow> string list
    \<Rightarrow> parameter list \<times> (string \<times> string) list" where
  "column_parameters u cfg headers index seen [] = ([], [])"
| "column_parameters u cfg headers index seen (v # vs) =
     (let column = (if index < length headers \<and> trim_space (headers ! index) \<noteq> [] then headers ! index
                    else ''column_'' @ show_nat (index + 1));
          name = numbered_name seen column;
          (p, ident) = private_parameter u cfg name v;
          (ps, logical) = column_parameters u cfg headers (index + 1) (column # seen) vs
      in (p # ps, if p_excluded p then logical else (name, ident) # logical))"

text \<open>
  The cells of the row a table-driven scenario ran with.  \<^const>\<open>None\<close> is the panic of indexing with a
  negative row number, which only the comparison with the number of rows guards.
\<close>

definition scenario_cells :: "table_driven_fields \<Rightarrow> string list option" where
  "scenario_cells td =
     (let cells = (case td_table_row td of
                     None \<Rightarrow> []
                   | Some row \<Rightarrow> (case pt_rows row of [] \<Rightarrow> [] | r # _ \<Rightarrow> row_cells r))
      in if cells = [] then
           (case td_data_table td of
              None \<Rightarrow> Some cells
            | Some data \<Rightarrow>
                if sint (td_scenario_row_index td) < int (length (pt_rows data)) then
                  map_option row_cells (go_index (pt_rows data) (sint (td_scenario_row_index td)))
                else Some cells)
         else Some cells)"

definition table_headers :: "proto_table option \<Rightarrow> string list" where
  "table_headers table = (case table of None \<Rightarrow> [] | Some t \<Rightarrow> row_cells (pt_headers t))"

definition test_parameters :: "'u unicode_scheme \<Rightarrow> config \<Rightarrow> proto_table_driven option \<Rightarrow> proto_table option
    \<Rightarrow> (parameter list \<times> (string \<times> string) list) option" where
  "test_parameters u cfg table spec_table =
     (case table of
        None \<Rightarrow> Some ([], [])
      | Some t \<Rightarrow>
          let td = ptd_fields t in
          if td_is_scenario_table td then
            map_option (column_parameters u cfg (table_headers (td_data_table td)) 0 []) (scenario_cells td)
          else (case spec_table of
                  None \<Rightarrow> Some ([], [])
                | Some st \<Rightarrow>
                    Some (column_parameters u cfg (table_headers spec_table) 0 []
                      (case go_index (pt_rows st) (sint (td_row_index td)) of
                         None \<Rightarrow> [] | Some row \<Rightarrow> row_cells row))))"

text \<open>The parameter of a fragment that is one.\<close>

definition fragment_parameter :: "fragment option \<Rightarrow> proto_parameter option" where
  "fragment_parameter f =
     (case f of None \<Rightarrow> None | Some f \<Rightarrow> if fr_type f \<noteq> Parameter_fragment then None else fr_parameter f)"

definition parameter_text :: "proto_parameter \<Rightarrow> string" where
  "parameter_text p = (if pp_table p \<noteq> None then table_json (pp_table p) else pp_value p)"

fun fragment_parameters :: "'u unicode_scheme \<Rightarrow> config \<Rightarrow> nat \<Rightarrow> string list \<Rightarrow> fragment option list \<Rightarrow> parameter list" where
  "fragment_parameters u cfg index seen [] = []"
| "fragment_parameters u cfg index seen (f # fs) =
     (case fragment_parameter f of
        None \<Rightarrow> fragment_parameters u cfg index seen fs
      | Some p \<Rightarrow>
          let name = trim_space (pp_name p);
              name = (if name = [] then ''arg_'' @ show_nat (index + 1) else name)
          in fst (private_parameter u cfg (numbered_name seen name) (parameter_text p))
               # fragment_parameters u cfg (index + 1) (name # seen) fs)"

definition step_parameters :: "'u unicode_scheme \<Rightarrow> config \<Rightarrow> proto_step \<Rightarrow> parameter list" where
  "step_parameters u cfg step = fragment_parameters u cfg 0 [] (st_fragments step)"

text \<open>
  Promotion: a walk over all steps, those of a concept before the concept itself; the state holds the
  parameters, the logical pairs and the names counted so far.
\<close>

record promotion =
  pm_params :: "parameter list"
  pm_logical :: "(string \<times> string) list"
  pm_seen :: "string list"

definition promote_fragment :: "'u unicode_scheme \<Rightarrow> config \<Rightarrow> fragment option \<Rightarrow> promotion \<Rightarrow> promotion" where
  "promote_fragment u cfg f s =
     (case fragment_parameter f of
        None \<Rightarrow> s
      | Some v \<Rightarrow>
          if \<not> matches u (pp_name v) (c_promote cfg) then s
          else
            let name = first_nonblank [pp_name v, ''arg_'' @ show_nat (length (pm_params s) + 1)];
                numbered = numbered_name (pm_seen s) name;
                (p, ident) = private_parameter u cfg numbered (parameter_text v)
            in \<lparr>pm_params = pm_params s @ [p],
                pm_logical = (if p_excluded p then pm_logical s else pm_logical s @ [(numbered, ident)]),
                pm_seen = name # pm_seen s\<rparr>)"

definition own_step :: "proto_item \<Rightarrow> proto_step option" where
  "own_step it =
     (if pi_step it = None then (case pi_concept it of None \<Rightarrow> None | Some concept \<Rightarrow> pc_step concept)
      else pi_step it)"

fun promote_items :: "'u unicode_scheme \<Rightarrow> config \<Rightarrow> proto_item option list \<Rightarrow> promotion \<Rightarrow> promotion" where
  "promote_items u cfg [] s = s"
| "promote_items u cfg (None # rest) s = promote_items u cfg rest s"
| "promote_items u cfg (Some it # rest) s =
     (let s = (case pi_concept it of None \<Rightarrow> s | Some concept \<Rightarrow> promote_items u cfg (pc_items concept) s);
          s = (case own_step it of
                 None \<Rightarrow> s
               | Some step \<Rightarrow> fold (promote_fragment u cfg) (st_fragments step) s)
      in promote_items u cfg rest s)"

text \<open>All items of a scenario: contexts, steps, teardown.\<close>

definition scenario_all_items :: "proto_scenario \<Rightarrow> proto_item option list" where
  "scenario_all_items sc = ps_contexts sc @ ps_items sc @ ps_teardown sc"

definition promoted_parameters :: "'u unicode_scheme \<Rightarrow> config \<Rightarrow> proto_scenario
    \<Rightarrow> parameter list \<times> (string \<times> string) list" where
  "promoted_parameters u cfg sc =
     (if c_promote cfg = [] then ([], [])
      else
        let s = promote_items u cfg (scenario_all_items sc) \<lparr>pm_params = [], pm_logical = [], pm_seen = []\<rparr>
        in (pm_params s, pm_logical s))"

section \<open>Attachments of steps and fixtures\<close>

text \<open>
  The recurring sequence of attempts: an attachment that fails stops everything in strict mode and is a
  warning otherwise.  A job is one call of the attachment manager.
\<close>

type_synonym job = "world \<Rightarrow> (err + attachment) \<times> world"

fun run_jobs :: "bool \<Rightarrow> job list \<Rightarrow> attachment list \<Rightarrow> err list \<Rightarrow> world
    \<Rightarrow> attachment list \<times> err list \<times> err option \<times> world" where
  "run_jobs strict [] attached_so_far ws w = (attached_so_far, ws, None, w)"
| "run_jobs strict (j # js) attached_so_far ws w =
     (case j w of
        (Inl e, w) \<Rightarrow>
          if strict then (attached_so_far, ws, Some e, w) else run_jobs strict js attached_so_far (ws @ [e]) w
      | (Inr a, w) \<Rightarrow> run_jobs strict js (attached_so_far @ [a]) ws w)"

fun copy_jobs :: "'u mime_lib_scheme \<Rightarrow> manager \<Rightarrow> ctx \<Rightarrow> nat \<Rightarrow> string list \<Rightarrow> job list" where
  "copy_jobs lib am c index [] = []"
| "copy_jobs lib am c index (file # files) =
     copy_file lib am c (screenshot_name lib index file) file # copy_jobs lib am c (index + 1) files"

fun legacy_jobs :: "'u mime_lib_scheme \<Rightarrow> manager \<Rightarrow> ctx \<Rightarrow> (nat \<Rightarrow> string) \<Rightarrow> nat \<Rightarrow> string list \<Rightarrow> job list" where
  "legacy_jobs lib am c name index [] = []"
| "legacy_jobs lib am c name index (data # rest) =
     attach_bytes lib am c (name (index + 1)) [] ''.png'' data # legacy_jobs lib am c name (index + 1) rest"

definition message_job :: "'u mime_lib_scheme \<Rightarrow> manager \<Rightarrow> ctx \<Rightarrow> string \<Rightarrow> string list \<Rightarrow> job list" where
  "message_job lib am c name messages = (if messages = [] then [] else [attach_messages lib am c name messages])"

definition step_result_of :: "proto_step \<Rightarrow> execution_result option" where
  "step_result_of step = nget None se_result (st_exec step)"

definition step_message_jobs :: "'u mime_lib_scheme \<Rightarrow> manager \<Rightarrow> ctx \<Rightarrow> proto_step \<Rightarrow> job list" where
  "step_message_jobs lib am c step =
     message_job lib am c ''Before step messages'' (hs_pre_messages (st_hooks step))
     @ message_job lib am c ''After step messages'' (hs_post_messages (st_hooks step))
     @ message_job lib am c ''Step messages'' (nget [] er_messages (step_result_of step))"

text \<open>The screenshot files and the legacy screenshot bytes of a step.\<close>

definition step_files :: "proto_step \<Rightarrow> string list" where
  "step_files step =
     hs_pre_files (st_hooks step) @ hs_post_files (st_hooks step) @
     (case step_result_of step of
        None \<Rightarrow> []
      | Some e \<Rightarrow> (if er_failure_file e \<noteq> [] then [er_failure_file e] else []) @ er_files e)"

definition step_legacy :: "proto_step \<Rightarrow> string list" where
  "step_legacy step =
     (if hs_pre_files (st_hooks step) = [] then hs_pre_shots (st_hooks step) else []) @
     (if hs_post_files (st_hooks step) = [] then hs_post_shots (st_hooks step) else []) @
     (case step_result_of step of
        None \<Rightarrow> []
      | Some e \<Rightarrow>
          (if er_failure_file e \<noteq> [] then []
           else if er_failure_shot e \<noteq> [] then [er_failure_shot e]
           else if er_shot e \<noteq> [] then [er_shot e] else []) @
          (if er_files e = [] then er_shots e else []))"

definition table_job :: "'u mime_lib_scheme \<Rightarrow> manager \<Rightarrow> ctx \<Rightarrow> fragment option \<Rightarrow> job list" where
  "table_job lib am c f =
     (case fragment_parameter f of
        None \<Rightarrow> []
      | Some p \<Rightarrow>
          let name = ''Parameter: '' @ first_nonblank [pp_name p, ''step parameter''] in
          if pp_type p = Table_param \<or> pp_type p = Special_table then
            [attach_bytes lib am c name ''application/json'' ''.json'' (table_json (pp_table p))]
          else if pp_type p = Multiline_string \<or> pp_type p = Special_string then
            [attach_bytes lib am c name ''text/markdown; charset=utf-8'' ''.md'' (pp_value p)]
          else [])"

definition legacy_name :: "nat \<Rightarrow> string" where
  "legacy_name k = ''Screenshot '' @ show_nat k @ '' (legacy)''"

definition step_jobs :: "'u mime_lib_scheme \<Rightarrow> config \<Rightarrow> manager \<Rightarrow> ctx \<Rightarrow> proto_step \<Rightarrow> job list" where
  "step_jobs lib cfg am c step =
     (if c_messages cfg then step_message_jobs lib am c step else []) @
     (if c_screenshots cfg then
        copy_jobs lib am c 0 (step_files step) @ legacy_jobs lib am c legacy_name 0 (step_legacy step)
      else []) @
     (if c_tables cfg then concat (map (table_job lib am c) (st_fragments step)) else [])"

definition attach_step :: "'u mime_lib_scheme \<Rightarrow> mapper \<Rightarrow> ctx \<Rightarrow> step_result \<Rightarrow> proto_step \<Rightarrow> world
    \<Rightarrow> step_result \<times> err list \<times> err option \<times> world" where
  "attach_step lib m c target step w =
     (case mp_attach m of
        None \<Rightarrow> (target, [], None, w)
      | Some am \<Rightarrow>
          (case run_jobs (c_strict (mp_cfg m)) (step_jobs lib (mp_cfg m) am c step) (s_attachments target) [] w of
             (atts, ws, e, w) \<Rightarrow> (set_attachments atts target, ws, e, w)))"

section \<open>Steps\<close>

text \<open>The step, the children and the execution result of an item that is a step or a concept.\<close>

definition item_parts :: "proto_item \<Rightarrow> (proto_step \<times> proto_item option list \<times> step_exec option) option" where
  "item_parts it =
     (case pi_type it of
        Step_item \<Rightarrow>
          (case pi_step it of None \<Rightarrow> None | Some step \<Rightarrow> Some (step, [], st_exec step))
      | Concept_item \<Rightarrow>
          (case pi_concept it of
             None \<Rightarrow> None
           | Some concept \<Rightarrow>
               (case pc_step concept of None \<Rightarrow> None | Some step \<Rightarrow> Some (step, pc_items concept, pc_exec concept)))
      | _ \<Rightarrow> None)"

lemma item_parts_smaller [termination_simp]:
  "item_parts it = Some (step, children, e) \<Longrightarrow> items_size children < size it"
  by (auto simp: item_parts_def concept_items_smaller split: item_type.splits option.splits) (cases it, simp)

text \<open>The range of a step that starts at the cursor, inside its parent; at least one millisecond when it fits.\<close>

definition step_range :: "int64 \<Rightarrow> step_exec option \<Rightarrow> trange \<Rightarrow> trange" where
  "step_range cursor execution parent =
     (let duration = (case execution of None \<Rightarrow> 0 | Some e \<Rightarrow> nget 0 er_time (se_result e));
          r = clamp \<lparr>r_start = cursor, r_stop = cursor + max64 duration 0\<rparr> parent
      in if r_stop r = r_start r \<and> r_start r <s r_stop parent
         then r\<lparr>r_stop := min64 (r_stop parent) (r_start r + 1)\<rparr> else r)"

definition step_shell :: "'u unicode_scheme \<Rightarrow> config \<Rightarrow> proto_step \<Rightarrow> step_exec option \<Rightarrow> trange \<Rightarrow> step_result" where
  "step_shell u cfg step execution r =
     (case from_step u execution of (verdict, details) \<Rightarrow>
        Step_result (first_nonblank [st_actual step, st_parsed step, ''Unnamed Gauge step'']) verdict details
          (step_parameters u cfg step) (r_start r) (r_stop r) [] [])"

definition set_steps :: "step_result list \<Rightarrow> step_result \<Rightarrow> step_result" where
  "set_steps v s = Step_result (s_name s) (s_status s) (s_details s) (s_params s) (s_start s) (s_stop s)
     v (s_attachments s)"

lemma set_steps_sel [simp]:
  "s_name (set_steps v s) = s_name s" "s_status (set_steps v s) = s_status s"
  "s_start (set_steps v s) = s_start s" "s_stop (set_steps v s) = s_stop s"
  "s_steps (set_steps v s) = v" "s_details (set_steps v s) = s_details s"
  "s_params (set_steps v s) = s_params s" "s_attachments (set_steps v s) = s_attachments s"
  by (simp_all add: set_steps_def)

text \<open>The children go below the step; only a passed step takes their verdict.\<close>

definition adopt :: "step_result list \<Rightarrow> step_result \<Rightarrow> step_result" where
  "adopt steps s =
     (let s = set_steps steps s in
      if s_status s = Passed then set_status (aggregate_step_status (s_steps s)) s else s)"

definition too_deep :: "int64 \<Rightarrow> step_result list" where
  "too_deep cursor =
     [Step_result ''[Gauge] Maximum concept nesting depth exceeded'' Broken None [] cursor cursor [] []]"

definition finish_step :: "'u mime_lib_scheme \<Rightarrow> mapper \<Rightarrow> ctx \<Rightarrow> bool \<Rightarrow> step_result \<Rightarrow> proto_step \<Rightarrow> world
    \<Rightarrow> step_result \<times> err list \<times> err option \<times> world" where
  "finish_step lib m c atts mapped step w =
     (if atts then attach_step lib m c mapped step w else (mapped, [], None, w))"

text \<open>
  \<^verbatim>\<open>mapItems\<close>.  The depth check comes first; then the loop \<open>map_rest\<close> over the items, with the steps so
  far, the cursor and the warnings.  As in the code, the warnings of a concept's children replace those
  collected before, and the error of that nested call is dropped.
\<close>

function map_items :: "'u mime_lib_scheme \<Rightarrow> mapper \<Rightarrow> ctx \<Rightarrow> bool \<Rightarrow> nat \<Rightarrow> trange \<Rightarrow> proto_item option list \<Rightarrow> int64
    \<Rightarrow> world \<Rightarrow> step_result list \<times> int64 \<times> err list \<times> err option \<times> world"
and map_rest :: "'u mime_lib_scheme \<Rightarrow> mapper \<Rightarrow> ctx \<Rightarrow> bool \<Rightarrow> nat \<Rightarrow> trange \<Rightarrow> proto_item option list
    \<Rightarrow> step_result list \<Rightarrow> int64 \<Rightarrow> err list \<Rightarrow> world \<Rightarrow> step_result list \<times> int64 \<times> err list \<times> err option \<times> world" where
  "map_items lib m c atts depth parent items cursor w =
     (if sint (c_max_depth (mp_cfg m)) < int depth then (too_deep cursor, cursor, [], None, w)
      else map_rest lib m c atts depth parent items [] cursor [] w)"
| "map_rest lib m c atts depth parent [] result cursor warnings w = (result, cursor, warnings, None, w)"
| "map_rest lib m c atts depth parent (None # rest) result cursor warnings w =
     map_rest lib m c atts depth parent rest result cursor warnings w"
| "map_rest lib m c atts depth parent (Some it # rest) result cursor warnings w =
     (case item_parts it of
        None \<Rightarrow> map_rest lib m c atts depth parent rest result cursor warnings w
      | Some (step, children, execution) \<Rightarrow>
          let r = step_range cursor execution parent;
              shell = step_shell lib (mp_cfg m) step execution r
          in case (if children = [] then (shell, warnings, w)
                   else (case map_items lib m c atts (depth + 1) r children (r_start r) w of
                           (steps, _, nested_warnings, _, w) \<Rightarrow> (adopt steps shell, nested_warnings, w))) of
               (mapped, warnings, w) \<Rightarrow>
                 (case finish_step lib m c atts mapped step w of
                    (mapped, current, Some e, w) \<Rightarrow> (result, cursor, warnings @ current, Some e, w)
                  | (mapped, current, None, w) \<Rightarrow>
                      map_rest lib m c atts depth parent rest (result @ [mapped]) (max64 cursor (r_stop r))
                        (warnings @ current) w))"
  by pat_completeness auto
termination
  by (relation "measure (\<lambda>x. case x of
      Inl (lib, m, c, atts, depth, parent, items, cursor, w) \<Rightarrow> Suc (2 * items_size items)
    | Inr (lib, m, c, atts, depth, parent, items, result, cursor, warnings, w) \<Rightarrow> 2 * items_size items)")
    (auto dest: item_parts_smaller)

declare map_items.simps [simp del] map_rest.simps(3) [simp del]

section \<open>Fixtures\<close>

text \<open>The arguments \<^verbatim>\<open>fixture\<close> gets for one side of a container.\<close>

record hook_side =
  hk_failure :: "hook_failure option"
  hk_messages :: "string list"
  hk_files :: "string list"
  hk_legacy :: "string list"

definition fixture_files :: "hook_side \<Rightarrow> string list" where
  "fixture_files h = hk_files h @
     (case hk_failure h of
        None \<Rightarrow> []
      | Some f \<Rightarrow> if hf_failure_file f \<noteq> [] then [hf_failure_file f] else [])"

definition fixture_legacy :: "hook_side \<Rightarrow> string list" where
  "fixture_legacy h = hk_legacy h @
     (case hk_failure h of
        None \<Rightarrow> []
      | Some f \<Rightarrow>
          if hf_failure_file f \<noteq> [] then []
          else if hf_failure_shot f \<noteq> [] then [hf_failure_shot f]
          else if hf_shot f \<noteq> [] then [hf_shot f] else [])"

definition fixture_jobs :: "'u mime_lib_scheme \<Rightarrow> config \<Rightarrow> manager \<Rightarrow> ctx \<Rightarrow> string \<Rightarrow> hook_side \<Rightarrow> job list" where
  "fixture_jobs lib cfg am c name h =
     (if c_messages cfg then message_job lib am c (name @ '' messages'') (hk_messages h) else []) @
     (if c_screenshots cfg then
        copy_jobs lib am c 0 (fixture_files h)
        @ legacy_jobs lib am c (\<lambda>k. name @ '' screenshot '' @ show_nat k @ '' (legacy)'') 0 (fixture_legacy h)
      else [])"

definition fixture :: "'u mime_lib_scheme \<Rightarrow> mapper \<Rightarrow> ctx \<Rightarrow> string \<Rightarrow> hook_side \<Rightarrow> int64 \<Rightarrow> world
    \<Rightarrow> fixture_result \<times> err list \<times> err option \<times> world" where
  "fixture lib m c name h at w =
     (let name = trim_space name;
          f = (case hk_failure h of
                 None \<Rightarrow> \<lparr>f_name = name, f_status = Passed, f_details = None, f_start = at, f_stop = at,
                           f_steps = [], f_attachments = []\<rparr>
               | Some x \<Rightarrow> \<lparr>f_name = name, f_status = Broken, f_details = failure_details (hf_message x) (hf_trace x),
                           f_start = at, f_stop = at, f_steps = [], f_attachments = []\<rparr>)
      in case mp_attach m of
           None \<Rightarrow> (f, [], None, w)
         | Some am \<Rightarrow>
             (case run_jobs (c_strict (mp_cfg m)) (fixture_jobs lib (mp_cfg m) am c name h) [] [] w of
                (atts, ws, e, w) \<Rightarrow> (f\<lparr>f_attachments := atts\<rparr>, ws, e, w)))"

end
