(* ===== verification/Step_Trees.thy ===== *)
theory Step_Trees
  imports Step_Mapping
begin

text \<open>
  What the trees of steps mapped from a scenario guarantee: verdicts, timeline, nesting, completeness and
  the privacy of parameters, each by rule induction over the runs of \<^verbatim>\<open>mapItems\<close>.
\<close>

section \<open>Verdicts of step trees\<close>

lemma status_order [simp]: "Passed \<le> v" "v \<le> Broken"
  by (cases v; simp add: less_eq_status_def)+

lemma max_status [simp]: "max Passed v = v" "max v Passed = v" "max v Broken = Broken" "max Broken v = Broken"
  by (simp_all add: max_def less_eq_status_def) (cases v; simp)+

lemma max_status_middle [simp]:
  "max Failed Skipped = Failed" "max Skipped Failed = Failed" "max Failed Failed = Failed" "max Skipped Skipped = Skipped"
  by (simp_all add: max_def less_eq_status_def)

lemma aggregate_from_max: "v \<noteq> Broken \<Longrightarrow> aggregate_from v ss = fold (\<lambda>s. max (s_status s)) ss v"
proof (induction v ss rule: aggregate_from.induct)
  case (2 v s ss)
  have broken: "fold (\<lambda>s. max (s_status s)) ss Broken = Broken"
    by (induction ss) simp_all
  show ?case
    using 2 broken by (cases "s_status s"; cases v) simp_all
qed simp

lemma fold_max_status: "fold (\<lambda>s. max (s_status s)) ss v = Max (insert v (s_status ` set ss))"
proof (induction ss arbitrary: v)
  case (Cons s ss)
  have "Max (insert (max (s_status s) v) (s_status ` set ss)) = Max (insert v (s_status ` set (s # ss)))"
  proof (cases "ss = []")
    case True
    then show ?thesis by (simp add: max.commute)
  next
    case False
    then show ?thesis by (simp add: max.commute max.left_commute max.assoc)
  qed
  then show ?case using Cons.IH by simp
qed simp

lemma aggregate_Max: "aggregate_step_status ss = Max (insert Passed (s_status ` set ss))"
  by (simp add: aggregate_step_status_def aggregate_from_max fold_max_status)

lemma aggregate_passed_iff: "aggregate_step_status ss = Passed \<longleftrightarrow> (\<forall>s \<in> set ss. s_status s = Passed)"
proof -
  have "s_status s \<le> aggregate_step_status ss" if "s \<in> set ss" for s
    using that by (simp add: aggregate_Max)
  moreover have "aggregate_step_status ss \<in> insert Passed (s_status ` set ss)"
    unfolding aggregate_Max by (rule Max_in) simp_all
  ultimately show ?thesis by (metis antisym image_iff insert_iff status_order(1))
qed

text \<open>A step tree is honest when no step is passed above a step that is not.\<close>

fun honest :: "step_result \<Rightarrow> bool" where
  "honest (Step_result n v d ps a b steps atts) \<longleftrightarrow>
     (v = Passed \<longrightarrow> (\<forall>s \<in> set steps. s_status s = Passed)) \<and> (\<forall>s \<in> set steps. honest s)"

lemma honest_iff:
  "honest s \<longleftrightarrow> (s_status s = Passed \<longrightarrow> (\<forall>c \<in> set (s_steps s). s_status c = Passed)) \<and> (\<forall>c \<in> set (s_steps s). honest c)"
  by (cases s) simp

lemma honest_shell: "honest (step_shell u cfg step e r)"
  by (simp add: step_shell_def split: prod.split)

lemma adopt_sel [simp]:
  "s_steps (adopt steps s) = steps" "s_start (adopt steps s) = s_start s" "s_stop (adopt steps s) = s_stop s"
  by (simp_all add: adopt_def Let_def)

lemma adopt_passed: "s_status (adopt steps s) = Passed \<Longrightarrow> \<forall>c \<in> set steps. s_status c = Passed"
  unfolding adopt_def Let_def aggregate_passed_iff [symmetric] by (cases "s_status s") simp_all

lemma honest_adopt: "\<forall>c \<in> set steps. honest c \<Longrightarrow> honest (adopt steps s)"
  using adopt_passed unfolding honest_iff [of "adopt steps s"] adopt_sel by blast

lemma attach_step_sel:
  assumes "attach_step lib m c s step w = (t, ws, e, w')"
  shows "\<exists>atts. t = set_attachments atts s \<or> t = s"
  using assms by (auto simp: attach_step_def split: option.splits prod.splits)

lemma honest_attachments [simp]: "honest (set_attachments atts s) \<longleftrightarrow> honest s"
  using honest_iff [of "set_attachments atts s"] honest_iff [of s] by simp

lemma honest_attach_step: "attach_step lib m c s step w = (t, ws, e, w') \<Longrightarrow> honest t \<longleftrightarrow> honest s"
  using attach_step_sel by fastforce

section \<open>Invariants of the mapped steps\<close>

text \<open>
  One loop iteration, with the nested call and the attachments named; every invariant below goes
  through this case analysis.
\<close>

lemma map_rest_Some:
  assumes "map_rest lib m c atts depth parent (Some it # rest) result cursor warnings w = (res, cur, ws, e, w')"
  obtains (skip) "item_parts it = None"
      "map_rest lib m c atts depth parent rest result cursor warnings w = (res, cur, ws, e, w')"
  | (step) step children execution mapped ws1 w1 t t_ws t_e w2
    where "item_parts it = Some (step, children, execution)"
      "(children = [] \<and> mapped = step_shell lib (mp_cfg m) step execution (step_range cursor execution parent)
          \<and> ws1 = warnings \<and> w1 = w) \<or>
       (children \<noteq> [] \<and> (\<exists>steps nc ne.
          map_items lib m c atts (depth + 1) (step_range cursor execution parent) children
            (r_start (step_range cursor execution parent)) w = (steps, nc, ws1, ne, w1) \<and>
          mapped = adopt steps (step_shell lib (mp_cfg m) step execution (step_range cursor execution parent))))"
      "finish_step lib m c atts mapped step w1 = (t, t_ws, t_e, w2)"
      "(case t_e of
          Some x \<Rightarrow> (result, cursor, ws1 @ t_ws, Some x, w2)
        | None \<Rightarrow> map_rest lib m c atts depth parent rest (result @ [t])
                    (max64 cursor (r_stop (step_range cursor execution parent))) (ws1 @ t_ws) w2) = (res, cur, ws, e, w')"
proof (cases "item_parts it")
  case None
  then show ?thesis using assms skip by (simp add: map_rest.simps(3))
next
  case (Some p)
  obtain st children execution where p: "p = (st, children, execution)" by (cases p)
  let ?r = "step_range cursor execution parent"
  let ?shell = "step_shell lib (mp_cfg m) st execution ?r"
  obtain mapped ws1 w1 where n: "(if children = [] then (?shell, warnings, w)
      else (case map_items lib m c atts (depth + 1) ?r children (r_start ?r) w of
              (steps, _, nested_warnings, _, w) \<Rightarrow> (adopt steps ?shell, nested_warnings, w))) = (mapped, ws1, w1)"
    by (metis prod_cases3)
  obtain t tws te w2 where t: "finish_step lib m c atts mapped st w1 = (t, tws, te, w2)"
    by (metis prod_cases4)
  have run: "(case te of Some x \<Rightarrow> (result, cursor, ws1 @ tws, Some x, w2)
        | None \<Rightarrow> map_rest lib m c atts depth parent rest (result @ [t]) (max64 cursor (r_stop ?r)) (ws1 @ tws) w2)
      = (res, cur, ws, e, w')"
    using assms unfolding map_rest.simps(3) Some p option.case prod.case Let_def n t
    by (cases te) auto
  have nest: "(children = [] \<and> mapped = ?shell \<and> ws1 = warnings \<and> w1 = w) \<or>
      (children \<noteq> [] \<and> (\<exists>steps nc ne. map_items lib m c atts (depth + 1) ?r children (r_start ?r) w
          = (steps, nc, ws1, ne, w1) \<and> mapped = adopt steps ?shell))"
    using n by (cases "children = []") (auto split: prod.splits)
  show ?thesis by (rule step [OF Some [unfolded p] nest t run])
qed

lemma finish_step_sel:
  assumes "finish_step lib m c atts s step w = (t, ws, e, w')"
  shows "\<exists>a. t = set_attachments a s \<or> t = s"
  using assms attach_step_sel by (fastforce simp: finish_step_def split: if_splits)

text \<open>
  The same computation as a relation, whose rule induction carries the invariants: one rule for each way
  through the loop.
\<close>

inductive items_run :: "'u mime_lib_scheme \<Rightarrow> mapper \<Rightarrow> ctx \<Rightarrow> bool \<Rightarrow> nat \<Rightarrow> trange \<Rightarrow> proto_item option list \<Rightarrow> int64
    \<Rightarrow> world \<Rightarrow> step_result list \<times> int64 \<times> err list \<times> err option \<times> world \<Rightarrow> bool"
  and rest_run :: "'u mime_lib_scheme \<Rightarrow> mapper \<Rightarrow> ctx \<Rightarrow> bool \<Rightarrow> nat \<Rightarrow> trange \<Rightarrow> proto_item option list
    \<Rightarrow> step_result list \<Rightarrow> int64 \<Rightarrow> err list \<Rightarrow> world \<Rightarrow> step_result list \<times> int64 \<times> err list \<times> err option \<times> world \<Rightarrow> bool"
  for lib :: "'u mime_lib_scheme" and m :: mapper and c :: ctx and atts :: bool
where
  Deep: "sint (c_max_depth (mp_cfg m)) < int depth \<Longrightarrow>
     items_run lib m c atts depth parent items cursor w (too_deep cursor, cursor, [], None, w)"
| Start: "\<not> sint (c_max_depth (mp_cfg m)) < int depth \<Longrightarrow>
     rest_run lib m c atts depth parent items [] cursor [] w out \<Longrightarrow>
     items_run lib m c atts depth parent items cursor w out"
| Finish: "rest_run lib m c atts depth parent [] result cursor ws w (result, cursor, ws, None, w)"
| Nil_item: "rest_run lib m c atts depth parent rest result cursor ws w out \<Longrightarrow>
     rest_run lib m c atts depth parent (None # rest) result cursor ws w out"
| Other: "item_parts it = None \<Longrightarrow> rest_run lib m c atts depth parent rest result cursor ws w out \<Longrightarrow>
     rest_run lib m c atts depth parent (Some it # rest) result cursor ws w out"
| Step: "item_parts it = Some (step, [], execution) \<Longrightarrow>
     finish_step lib m c atts (step_shell lib (mp_cfg m) step execution (step_range cursor execution parent)) step w = (t, ws', None, w1) \<Longrightarrow>
     rest_run lib m c atts depth parent rest (result @ [t]) (max64 cursor (r_stop (step_range cursor execution parent))) (ws @ ws') w1 out \<Longrightarrow>
     rest_run lib m c atts depth parent (Some it # rest) result cursor ws w out"
| Stop: "item_parts it = Some (step, [], execution) \<Longrightarrow>
     finish_step lib m c atts (step_shell lib (mp_cfg m) step execution (step_range cursor execution parent)) step w = (t, ws', Some x, w1) \<Longrightarrow>
     rest_run lib m c atts depth parent (Some it # rest) result cursor ws w (result, cursor, ws @ ws', Some x, w1)"
| Concept: "item_parts it = Some (step, children, execution) \<Longrightarrow> children \<noteq> [] \<Longrightarrow>
     items_run lib m c atts (depth + 1) (step_range cursor execution parent) children
       (r_start (step_range cursor execution parent)) w (steps, nc, ws1, ne, w1) \<Longrightarrow>
     finish_step lib m c atts (adopt steps (step_shell lib (mp_cfg m) step execution (step_range cursor execution parent))) step w1 = (t, ws', None, w2) \<Longrightarrow>
     rest_run lib m c atts depth parent rest (result @ [t]) (max64 cursor (r_stop (step_range cursor execution parent))) (ws1 @ ws') w2 out \<Longrightarrow>
     rest_run lib m c atts depth parent (Some it # rest) result cursor ws w out"
| Concept_stop: "item_parts it = Some (step, children, execution) \<Longrightarrow> children \<noteq> [] \<Longrightarrow>
     items_run lib m c atts (depth + 1) (step_range cursor execution parent) children
       (r_start (step_range cursor execution parent)) w (steps, nc, ws1, ne, w1) \<Longrightarrow>
     finish_step lib m c atts (adopt steps (step_shell lib (mp_cfg m) step execution (step_range cursor execution parent))) step w1 = (t, ws', Some x, w2) \<Longrightarrow>
     rest_run lib m c atts depth parent (Some it # rest) result cursor ws w (result, cursor, ws1 @ ws', Some x, w2)"

lemmas items_run_inducts = items_run_rest_run.inducts

lemma items_run_from:
  assumes "map_items lib m c atts depth parent items cursor w = out"
    and "map_rest lib m c atts depth parent items [] cursor [] w = out \<Longrightarrow>
      rest_run lib m c atts depth parent items [] cursor [] w out"
  shows "items_run lib m c atts depth parent items cursor w out"
proof (cases "sint (c_max_depth (mp_cfg m)) < int depth")
  case True
  then have "out = (too_deep cursor, cursor, [], None, w)" using assms(1) by (simp add: map_items.simps)
  then show ?thesis using Deep [OF True] by simp
next
  case False
  then have "map_rest lib m c atts depth parent items [] cursor [] w = out"
    using assms(1) by (simp add: map_items.simps)
  then show ?thesis by (intro Start False assms(2))
qed

lemma rest_run_complete:
  "map_rest lib m c atts depth parent items result cursor ws w = out \<Longrightarrow>
     rest_run lib m c atts depth parent items result cursor ws w out"
proof (induction "items_size items" arbitrary: depth parent items result cursor ws w out rule: less_induct)
  case less
  consider "items = []" | rest where "items = None # rest" | it rest where "items = Some it # rest"
    by (cases items; cases "hd items") auto
  then show ?case
  proof cases
    case 1
    then show ?thesis using less.prems Finish by (auto simp: map_rest.simps)
  next
    case 2
    then have "map_rest lib m c atts depth parent rest result cursor ws w = out" using less.prems by simp
    then show ?thesis unfolding 2 by (intro Nil_item less.hyps) (use 2 in simp_all)
  next
    case 3
    have smaller: "items_size rest < items_size items" using 3 by simp
    obtain res cur fw e w' where out: "out = (res, cur, fw, e, w')" by (cases out) auto
    have "map_rest lib m c atts depth parent (Some it # rest) result cursor ws w = (res, cur, fw, e, w')"
      using less.prems 3 out by simp
    then show ?thesis
    proof (cases rule: map_rest_Some)
      case skip
      then show ?thesis using less.hyps [OF smaller] Other 3 out by blast
    next
      case (step st children execution mapped ws1 w1 t t_ws t_e w2)
      let ?r = "step_range cursor execution parent"
      have rest: "rest_run lib m c atts depth parent rest (result @ [t]) (max64 cursor (r_stop ?r)) (ws1 @ t_ws) w2 out"
        if "t_e = None"
      proof (rule less.hyps [OF smaller])
        show "map_rest lib m c atts depth parent rest (result @ [t]) (max64 cursor (r_stop ?r)) (ws1 @ t_ws) w2 = out"
          using step(4) that out by simp
      qed
      show ?thesis
      proof (cases "children = []")
        case True
        then show ?thesis using step rest 3 out Step Stop by (cases t_e) auto
      next
        case False
        then obtain steps nc ne where n: "map_items lib m c atts (depth + 1) ?r children (r_start ?r) w = (steps, nc, ws1, ne, w1)"
            "mapped = adopt steps (step_shell lib (mp_cfg m) st execution ?r)" using step(2) by auto
        have "items_size children < items_size items" using item_parts_smaller [OF step(1)] 3 by simp
        note inner = less.hyps [OF this]
        have nested: "items_run lib m c atts (depth + 1) ?r children (r_start ?r) w (steps, nc, ws1, ne, w1)"
          using n(1) by (rule items_run_from) (rule inner)
        show ?thesis
          using step rest 3 out Concept [OF _ False nested] Concept_stop [OF _ False nested] n(2)
          by (cases t_e) auto
      qed
    qed
  qed
qed

lemma items_run_complete:
  "map_items lib m c atts depth parent items cursor w = out \<Longrightarrow> items_run lib m c atts depth parent items cursor w out"
  by (erule items_run_from) (rule rest_run_complete)

lemma finish_step_keeps:
  assumes "finish_step lib m c atts s step w = (t, ws, e, w')"
  shows "s_start t = s_start s" "s_stop t = s_stop s" "s_steps t = s_steps s" "s_status t = s_status s"
    "honest s \<Longrightarrow> honest t"
  using finish_step_sel [OF assms] by auto

lemma honest_run:
  "items_run lib m c atts depth parent items cursor w out \<Longrightarrow> \<forall>s \<in> set (fst out). honest s"
  "rest_run lib m c atts depth parent items result cursor ws w out \<Longrightarrow> \<forall>s \<in> set result. honest s \<Longrightarrow>
     \<forall>s \<in> set (fst out). honest s"
proof (induction rule: items_run_inducts)
  case (Step it step execution cursor parent w t ws' w1 depth rest result ws out)
  have "honest t" by (rule finish_step_keeps(5) [OF _ honest_shell]) (rule Step.IH)
  then show ?case by (intro Step.IH(3)) (use Step.prems in auto)
next
  case (Concept it step children execution depth cursor parent w steps nc ws1 ne w1 t ws' w2 rest result out ws)
  have "honest t" by (rule finish_step_keeps(5) [OF _ honest_adopt], rule Concept.IH) (use Concept.IH(2) in simp)
  then show ?case by (intro Concept.IH(5)) (use Concept.prems in auto)
qed (auto simp: too_deep_def)

section \<open>The timeline of the mapped steps\<close>

abbreviation step_span :: "step_result \<Rightarrow> trange" where
  "step_span s \<equiv> \<lparr>r_start = s_start s, r_stop = s_stop s\<rparr>"

text \<open>Steps that follow each other without a gap from \<open>t\<close> on, and where they end.\<close>

fun contiguous :: "int64 \<Rightarrow> step_result list \<Rightarrow> bool" where
  "contiguous t [] = True"
| "contiguous t (s # ss) \<longleftrightarrow> s_start s = t \<and> contiguous (s_stop s) ss"

definition ends_at :: "int64 \<Rightarrow> step_result list \<Rightarrow> int64" where
  "ends_at t ss = foldl (\<lambda>_ s. s_stop s) t ss"

lemma contiguous_snoc: "contiguous t (ss @ [s]) \<longleftrightarrow> contiguous t ss \<and> s_start s = ends_at t ss"
  by (induction ss arbitrary: t) (simp_all add: ends_at_def)

lemma ends_at_snoc [simp]: "ends_at t (ss @ [s]) = s_stop s"
  by (simp add: ends_at_def)

text \<open>A step tree inside a range, with the children of every step back to back from its start.\<close>

fun scheduled :: "trange \<Rightarrow> step_result \<Rightarrow> bool" where
  "scheduled p (Step_result n v d ps a b steps atts) \<longleftrightarrow>
     inside \<lparr>r_start = a, r_stop = b\<rparr> p \<and> contiguous a steps \<and> (\<forall>s \<in> set steps. scheduled \<lparr>r_start = a, r_stop = b\<rparr> s)"

lemma scheduled_iff:
  "scheduled p s \<longleftrightarrow> inside (step_span s) p \<and> contiguous (s_start s) (s_steps s) \<and>
     (\<forall>x \<in> set (s_steps s). scheduled (step_span s) x)"
  by (cases s) simp

text \<open>A parent range that is known, positive and holds the cursor.\<close>

definition room :: "trange \<Rightarrow> int64 \<Rightarrow> bool" where
  "room p cursor \<longleftrightarrow> 0 <s r_start p \<and> inside \<lparr>r_start = cursor, r_stop = cursor\<rparr> p"

lemma step_range_room:
  assumes "room p cursor"
  shows "r_start (step_range cursor e p) = cursor" "inside (step_range cursor e p) p"
    "room (step_range cursor e p) cursor" "room p (r_stop (step_range cursor e p))"
    "max64 cursor (r_stop (step_range cursor e p)) = r_stop (step_range cursor e p)"
proof -
  define c where "c = clamp \<lparr>r_start = cursor, r_stop = cursor +
    max64 (case e of None \<Rightarrow> 0 | Some e \<Rightarrow> nget 0 er_time (se_result e)) 0\<rparr> p"
  have sr: "step_range cursor e p = (if r_stop c = r_start c \<and> r_start c <s r_stop p
      then c\<lparr>r_stop := min64 (r_stop p) (r_start c + 1)\<rparr> else c)"
    by (simp add: step_range_def c_def Let_def)
  have p: "0 < sint (r_start p)" "sint (r_start p) \<le> sint cursor" "sint cursor \<le> sint (r_stop p)"
    using assms by (simp_all add: room_def inside_def sint_simps)
  have nz: "r_start p \<noteq> 0" "r_stop p \<noteq> 0" using p by auto
  have start: "r_start c = cursor"
    using p nz by (simp add: c_def clamp_def Let_def sint_simps)
  have ins: "inside c p"
    unfolding c_def using p nz by (intro clamp_inside) (simp_all add: ordered_def sint_simps)
  have one: "sint (cursor + 1) = sint cursor + 1" if "sint cursor < sint (r_stop p)"
    using that sint64_bounds [of "r_stop p"] sint64_bounds [of cursor] by (subst sint_add64_exact) simp_all
  show s: "r_start (step_range cursor e p) = cursor" using start by (simp add: sr)
  show i: "inside (step_range cursor e p) p"
    using ins start one by (auto simp: sr inside_def min64_def sint_simps)
  then show "room (step_range cursor e p) cursor" "room p (r_stop (step_range cursor e p))"
      "max64 cursor (r_stop (step_range cursor e p)) = r_stop (step_range cursor e p)"
    using s p by (auto simp: room_def inside_def max64_def sint_simps sint_eq_iff64)
qed

lemma step_shell_sel [simp]:
  "s_start (step_shell u cfg step e r) = r_start r" "s_stop (step_shell u cfg step e r) = r_stop r"
  "s_steps (step_shell u cfg step e r) = []" "s_attachments (step_shell u cfg step e r) = []"
  by (simp_all add: step_shell_def split: prod.split)

definition timeline :: "trange \<Rightarrow> int64 \<Rightarrow> step_result list \<Rightarrow> int64 \<Rightarrow> bool" where
  "timeline p start ss cursor \<longleftrightarrow>
     (\<forall>s \<in> set ss. scheduled p s) \<and> contiguous start ss \<and> ends_at start ss = cursor \<and> room p cursor"

lemma timeline_Nil: "room p cursor \<Longrightarrow> timeline p cursor [] cursor"
  by (simp add: timeline_def ends_at_def)

lemma timeline_snoc:
  "timeline p start ss cursor \<Longrightarrow> scheduled p t \<Longrightarrow> s_start t = cursor \<Longrightarrow> room p (s_stop t) \<Longrightarrow>
     timeline p start (ss @ [t]) (s_stop t)"
  by (auto simp: timeline_def contiguous_snoc)

lemma scheduled_finish: "finish_step lib m c atts s step w = (t, ws, e, w') \<Longrightarrow> scheduled p t \<longleftrightarrow> scheduled p s"
  using finish_step_keeps [of lib m c atts s step w t ws e w'] scheduled_iff [of p s] scheduled_iff [of p t] by simp

lemma trange_eta [simp]: "\<lparr>r_start = r_start r, r_stop = r_stop r\<rparr> = (r :: trange)"
  by (cases r) simp

lemma scheduled_shell: "scheduled p (step_shell u cfg step e r) \<longleftrightarrow> inside r p"
  using scheduled_iff [of p "step_shell u cfg step e r"] by simp

lemma scheduled_adopt_shell:
  "scheduled p (adopt steps (step_shell u cfg step e r)) \<longleftrightarrow>
     inside r p \<and> contiguous (r_start r) steps \<and> (\<forall>s \<in> set steps. scheduled r s)"
  using scheduled_iff [of p "adopt steps (step_shell u cfg step e r)"] by simp

lemma timeline_step:
  assumes "timeline p start ss cursor" and "finish_step lib m c atts s step w = (t, ws, e, w')"
    and "scheduled p s" and "s_start s = r_start (step_range cursor x p)" and "s_stop s = r_stop (step_range cursor x p)"
  shows "timeline p start (ss @ [t]) (max64 cursor (r_stop (step_range cursor x p)))"
proof -
  have room: "room p cursor" using assms(1) by (simp add: timeline_def)
  note sr = step_range_room [OF room, of x]
  have t: "s_start t = cursor" "s_stop t = r_stop (step_range cursor x p)" "scheduled p t"
    using finish_step_keeps [OF assms(2)] scheduled_finish [OF assms(2)] assms(3-5) sr(1) by simp_all
  show ?thesis using timeline_snoc [OF assms(1) t(3,1)] t(2) sr(4,5) by simp
qed

lemma timeline_run:
  "items_run lib m c atts depth parent items cursor w out \<Longrightarrow> room parent cursor \<Longrightarrow>
     timeline parent cursor (fst out) (fst (snd out))"
  "rest_run lib m c atts depth parent items result cursor ws w out \<Longrightarrow> timeline parent start result cursor \<Longrightarrow>
     timeline parent start (fst out) (fst (snd out))"
proof (induction arbitrary: and start rule: items_run_inducts)
  case (Deep depth parent items cursor w)
  then show ?case
    by (auto simp: too_deep_def timeline_def ends_at_def room_def)
next
  case (Start depth parent items cursor w out)
  then show ?case using timeline_Nil by blast
next
  case (Step it step execution cursor parent w t ws' w1 depth rest result ws out)
  have room: "room parent cursor" using Step.prems by (simp add: timeline_def)
  show ?case
    by (rule Step.IH(3), rule timeline_step [OF Step.prems Step.IH(1)])
      (use step_range_room(2) [OF room] in \<open>simp_all add: scheduled_shell\<close>)
next
  case (Concept it step children execution depth cursor parent w steps nc ws1 ne w1 t ws' w2 rest result out ws)
  have room: "room parent cursor" using Concept.prems by (simp add: timeline_def)
  note sr = step_range_room [OF room, of execution]
  have inner: "timeline (step_range cursor execution parent) cursor steps nc"
    using Concept.IH(2) sr(1,3) by simp
  show ?case
    by (rule Concept.IH(5), rule timeline_step [OF Concept.prems Concept.IH(3)])
      (use inner sr in \<open>simp_all add: scheduled_adopt_shell timeline_def\<close>)
qed simp_all

section \<open>Depth and completeness\<close>

fun height :: "step_result \<Rightarrow> nat" where
  "height (Step_result n v d ps a b steps atts) = Suc (Max (insert 0 (height ` set steps)))"

lemma height_iff: "height s \<le> Suc n \<longleftrightarrow> (\<forall>x \<in> set (s_steps s). height x \<le> n)"
  by (cases s) simp

lemma height_run:
  "items_run lib m c atts depth parent items cursor w out \<Longrightarrow>
     \<forall>s \<in> set (fst out). height s \<le> nat (sint (c_max_depth (mp_cfg m)) + 1 - int depth) + 1"
  "rest_run lib m c atts depth parent items result cursor ws w out \<Longrightarrow>
     \<not> sint (c_max_depth (mp_cfg m)) < int depth \<Longrightarrow>
     \<forall>s \<in> set result. height s \<le> nat (sint (c_max_depth (mp_cfg m)) + 1 - int depth) + 1 \<Longrightarrow>
     \<forall>s \<in> set (fst out). height s \<le> nat (sint (c_max_depth (mp_cfg m)) + 1 - int depth) + 1"
proof (induction rule: items_run_inducts)
  case (Step it step execution cursor parent w t ws' w1 depth rest result ws out)
  have "height t \<le> Suc 0"
    unfolding height_iff using finish_step_keeps(3) [OF Step.IH(1)] by simp
  then show ?case by (intro Step.IH(3)) (use Step.prems in auto)
next
  case (Concept it step children execution depth cursor parent w steps nc ws1 ne w1 t ws' w2 rest result out ws)
  let ?n = "nat (sint (c_max_depth (mp_cfg m)) + 1 - int depth)"
  have "nat (sint (c_max_depth (mp_cfg m)) + 1 - int (depth + 1)) + 1 = ?n"
    using Concept.prems(1) by (simp add: nat_eq_iff)
  then have "\<forall>s \<in> set steps. height s \<le> ?n" using Concept.IH(2) by simp
  then have "height t \<le> Suc ?n"
    unfolding height_iff using finish_step_keeps(3) [OF Concept.IH(3)] by simp
  then show ?case by (intro Concept.IH(5)) (use Concept.prems in auto)
qed (simp_all add: too_deep_def)

lemma run_jobs_lenient:
  "run_jobs False js as ws w = (as', ws', e, w') \<Longrightarrow>
     e = None \<and> length as' + length ws' = length as + length ws + length js"
proof (induction js arbitrary: as ws w)
  case (Cons j js)
  then show ?case by (cases "j w"; cases "fst (j w)") auto
qed simp

text \<open>The items of a list that become steps.\<close>

definition step_items :: "proto_item option list \<Rightarrow> proto_item list" where
  "step_items items = filter (\<lambda>it. item_parts it \<noteq> None) (map the (filter (\<lambda>it. it \<noteq> None) items))"

lemma finish_step_lenient:
  "\<not> c_strict (mp_cfg m) \<Longrightarrow> finish_step lib m c atts s step w = (t, ws, e, w') \<Longrightarrow> e = None"
  by (auto simp: finish_step_def attach_step_def split: if_splits option.splits prod.splits
      dest: run_jobs_lenient)

lemma lenient_run:
  "items_run lib m c atts depth parent items cursor w out \<Longrightarrow> \<not> c_strict (mp_cfg m) \<Longrightarrow>
     fst (snd (snd (snd out))) = None"
  "rest_run lib m c atts depth parent items result cursor ws w out \<Longrightarrow> \<not> c_strict (mp_cfg m) \<Longrightarrow>
     length (fst out) = length result + length (step_items items) \<and> fst (snd (snd (snd out))) = None"
proof (induction rule: items_run_inducts)
  case (Stop it step execution cursor parent w t ws' x w1 depth rest result ws)
  then show ?case using finish_step_lenient by blast
next
  case (Concept_stop it step children execution depth cursor parent w steps nc ws1 ne w1 t ws' x w2 rest result ws)
  then show ?case using finish_step_lenient by blast
qed (simp_all add: step_items_def)

section \<open>Privacy of parameters\<close>

definition concealed :: "'u unicode_scheme \<Rightarrow> config \<Rightarrow> string \<Rightarrow> bool" where
  "concealed u cfg name \<longleftrightarrow> matches u name (c_mask cfg) \<or> matches u name (c_hide cfg)"

lemma private_parameter_spec:
  assumes "private_parameter u cfg name v = (p, ident)"
  shows "p_name p = name" "p_excluded p \<longleftrightarrow> matches u name (c_exclude_history cfg)"
    "concealed u cfg name \<Longrightarrow> p_value p \<in> {''[MASKED]'', ''[HIDDEN]''} \<and> p_mode p \<noteq> Default_mode \<and> ident = private_digest v"
    "\<not> concealed u cfg name \<Longrightarrow> p_value p = v \<and> p_mode p = Default_mode \<and> ident = v"
  using assms by (auto simp: private_parameter_def concealed_def Let_def split: if_splits)

definition conceals :: "'u unicode_scheme \<Rightarrow> config \<Rightarrow> parameter \<Rightarrow> bool" where
  "conceals u cfg p \<longleftrightarrow> (concealed u cfg (p_name p) \<longrightarrow> p_value p \<in> {''[MASKED]'', ''[HIDDEN]''} \<and> p_mode p \<noteq> Default_mode)"

lemma conceals_private: "conceals u cfg (fst (private_parameter u cfg name v))"
  using private_parameter_spec [OF prod.collapse [symmetric], of u cfg name v] by (auto simp: conceals_def)

lemma conceals_pair: "private_parameter u cfg name v = (p, ident) \<Longrightarrow> conceals u cfg p"
  using conceals_private [of u cfg name v] by simp

lemma conceals_columns: "\<forall>p \<in> set (fst (column_parameters u cfg headers index seen cells)). conceals u cfg p"
proof (induction u cfg headers index seen cells rule: column_parameters.induct)
  case (2 u cfg headers index seen v vs)
  define column where "column = (if index < length headers \<and> trim_space (headers ! index) \<noteq> [] then headers ! index
                    else ''column_'' @ show_nat (index + 1))"
  obtain p ident where p: "private_parameter u cfg (numbered_name seen column) v = (p, ident)" by fastforce
  obtain ps l where r: "column_parameters u cfg headers (index + 1) (column # seen) vs = (ps, l)" by fastforce
  have "fst (column_parameters u cfg headers index seen (v # vs)) = p # ps"
    using p r by (simp add: column_def [symmetric] Let_def del: One_nat_def)
  moreover have "conceals u cfg p" using conceals_private [of u cfg "numbered_name seen column" v] p by simp
  moreover have "\<forall>q \<in> set ps. conceals u cfg q"
    using "2.IH" [OF column_def refl p [symmetric] refl] r by simp
  ultimately show ?case by simp
qed simp

lemma conceals_column_pair:
  "column_parameters u cfg headers index seen cells = (ps, l) \<Longrightarrow> p \<in> set ps \<Longrightarrow> conceals u cfg p"
  using conceals_columns [of u cfg headers index seen cells] by simp

lemma conceals_fragments: "\<forall>p \<in> set (fragment_parameters u cfg index seen fs). conceals u cfg p"
  by (induction u cfg index seen fs rule: fragment_parameters.induct)
    (auto simp: Let_def conceals_private split: option.split)

lemma conceals_promote_fragment:
  "\<forall>p \<in> set (pm_params s). conceals u cfg p \<Longrightarrow> \<forall>p \<in> set (pm_params (promote_fragment u cfg f s)). conceals u cfg p"
  by (auto simp: promote_fragment_def Let_def simp del: first_nonblank.simps split: option.split prod.split
      dest: conceals_pair)

lemma conceals_promote_items:
  "\<forall>p \<in> set (pm_params s). conceals u cfg p \<Longrightarrow> \<forall>p \<in> set (pm_params (promote_items u cfg items s)). conceals u cfg p"
proof (induction u cfg items s rule: promote_items.induct)
  case (3 u cfg it rest s)
  have fold: "\<forall>p \<in> set (pm_params s). conceals u cfg p \<Longrightarrow>
      \<forall>p \<in> set (pm_params (fold (promote_fragment u cfg) fs s)). conceals u cfg p" for fs s
  proof (induction fs arbitrary: s)
    case (Cons f fs)
    show ?case unfolding fold_simps by (rule Cons.IH) (rule conceals_promote_fragment [OF Cons.prems])
  qed simp
  define s1 where "s1 = (case pi_concept it of None \<Rightarrow> s | Some concept \<Rightarrow> promote_items u cfg (pc_items concept) s)"
  define s2 where "s2 = (case own_step it of None \<Rightarrow> s1 | Some step \<Rightarrow> fold (promote_fragment u cfg) (st_fragments step) s1)"
  have 1: "\<forall>p \<in> set (pm_params s1). conceals u cfg p"
    using 3 by (cases "pi_concept it") (simp_all add: s1_def)
  have 2: "\<forall>p \<in> set (pm_params s2). conceals u cfg p"
    using 1 fold by (cases "own_step it") (simp_all add: s2_def)
  show ?case
    using "3.IH"(2) [OF s1_def s2_def 2]
    unfolding promote_items.simps Let_def s1_def [symmetric] s2_def [symmetric] .
qed simp_all

section \<open>Concrete steps\<close>

definition plain_step :: "string \<Rightarrow> string list \<Rightarrow> proto_step" where
  "plain_step text files = \<lparr>st_actual = text, st_parsed = text, st_fragments = [],
     st_exec = Some \<lparr>se_result = Some (no_execution\<lparr>er_time := 5\<rparr>), se_pre_failure = None, se_post_failure = None,
       se_skipped = False, se_skipped_reason = []\<rparr>,
     st_hooks = no_hooks\<lparr>hs_pre_files := files\<rparr>\<rparr>"

definition pin_step :: proto_step where
  "pin_step = (plain_step ''s'' [])\<lparr>st_fragments := [Some \<lparr>fr_type = Parameter_fragment,
     fr_parameter = Some \<lparr>pp_type = Static_param, pp_name = ''pin'', pp_value = ''42'', pp_table = None\<rparr>\<rparr>]\<rparr>"

definition step_item :: "string \<Rightarrow> string list \<Rightarrow> proto_item" where
  "step_item text files = (Proto_item Step_item (Some (plain_step text files)) None None None None None None [])"

definition concept_item :: "string \<Rightarrow> proto_item option list \<Rightarrow> proto_item" where
  "concept_item text items = (Proto_item Concept_item None
     (Some (Proto_concept (Some (plain_step text [])) items (st_exec (plain_step text [])))) None None None None None [])"

definition demo_mapper :: "bool \<Rightarrow> mapper" where
  "demo_mapper strict = \<lparr>mp_cfg = defaults\<lparr>c_strict := strict, c_mask := [''pin'']\<rparr>, mp_root = ''/p'',
     mp_env = Map.empty, mp_host = ''h'', mp_new_uuid = uuid_new, mp_attach = Some demo_manager, mp_now = now\<rparr>"

abbreviation demo_span :: trange where
  "demo_span \<equiv> \<lparr>r_start = 100, r_stop = 120\<rparr>"

lemma demo_parts [simp]:
  "item_parts (step_item x fs) = Some (plain_step x fs, [], st_exec (plain_step x fs))"
  "item_parts (concept_item x items) = Some (plain_step x [], items, st_exec (plain_step x []))"
  by (simp_all add: item_parts_def step_item_def concept_item_def)

lemma demo_range [simp]:
  "step_range 100 (st_exec (plain_step x fs)) demo_span = \<lparr>r_start = 100, r_stop = 105\<rparr>"
  "step_range 105 (st_exec (plain_step x fs)) demo_span = \<lparr>r_start = 105, r_stop = 110\<rparr>"
  "step_range 100 (st_exec (plain_step x fs)) \<lparr>r_start = 100, r_stop = 105\<rparr> = \<lparr>r_start = 100, r_stop = 105\<rparr>"
  by (simp_all add: step_range_def plain_step_def clamp_def max64_def word_sless_alt)

lemma demo_shell [simp]:
  "step_shell plain_mime cfg (plain_step x fs) (st_exec (plain_step x fs)) r =
     Step_result (first_nonblank [x, x, ''Unnamed Gauge step'']) Passed None [] (r_start r) (r_stop r) [] []"
proof -
  have "from_step plain_mime (st_exec (plain_step x fs)) = (Passed, None)"
    by (simp add: from_step_def plain_step_def no_execution_def)
  then show ?thesis by (simp add: step_shell_def step_parameters_def plain_step_def del: first_nonblank.simps)
qed

lemma set_attachments_same [simp]: "set_attachments (s_attachments s) s = s"
  by (cases s) (simp add: set_attachments_def)

lemma demo_finish [simp]: "finish_step plain_mime (demo_mapper strict) None atts s (plain_step x []) w = (s, [], None, w)"
  by (simp add: finish_step_def attach_step_def demo_mapper_def step_jobs_def step_message_jobs_def message_job_def
      step_files_def step_legacy_def step_result_of_def plain_step_def no_execution_def no_hooks_def defaults_def)

lemma demo_missing:
  "\<exists>x w'. \<forall>s. finish_step plain_mime (demo_mapper strict) None True s (plain_step name [''no.png'']) (calm_world shots_fs) =
     (s, if strict then [] else [x], if strict then Some x else None, w')"
proof -
  have "isl (fst (copy_file plain_mime demo_manager None (screenshot_name plain_mime 0 ''no.png'') ''no.png''
      (calm_world shots_fs)))" by code_simp
  then obtain x w' where "copy_file plain_mime demo_manager None (screenshot_name plain_mime 0 ''no.png'') ''no.png''
      (calm_world shots_fs) = (Inl x, w')" by (metis isl_def prod.collapse)
  then show ?thesis
    by (simp add: finish_step_def attach_step_def demo_mapper_def step_jobs_def step_message_jobs_def
        message_job_def step_files_def step_legacy_def step_result_of_def plain_step_def no_execution_def no_hooks_def
        defaults_def del: One_nat_def)
qed

lemma demo_names [simp]: "trim_space ''s'' = ''s''" "trim_space ''t'' = ''t''" "trim_space ''c'' = ''c''" "trim_space ''d'' = ''d''"
  by code_simp+

lemma demo_depth [simp]: "c_max_depth (mp_cfg (demo_mapper strict)) = 100" "c_strict (mp_cfg (demo_mapper strict)) = strict"
  by (simp_all add: demo_mapper_def defaults_def)

lemmas demo_run = map_items.simps map_rest.simps(3) Let_def max64_def adopt_def aggregate_step_status_def
  set_steps_def set_status_def word_sless_alt

lemma demo_plain:
  "map_items plain_mime (demo_mapper strict) None atts 0 demo_span
     [Some (concept_item ''c'' [Some (step_item ''s'' [])]), Some (step_item ''t'' [])] 100 w =
   ([Step_result ''c'' Passed None [] 100 105 [Step_result ''s'' Passed None [] 100 105 [] []] [],
     Step_result ''t'' Passed None [] 105 110 [] []], 110, [], None, w)"
  by (simp add: demo_run)

lemma demo_nested:
  "map_items plain_mime (demo_mapper strict) None atts 0 demo_span
     [Some (concept_item ''c'' [Some (concept_item ''d'' [Some (step_item ''s'' [])])])] 100 w =
   ([Step_result ''c'' Passed None [] 100 105
       [Step_result ''d'' Passed None [] 100 105 [Step_result ''s'' Passed None [] 100 105 [] []] []] []], 105, [], None, w)"
  by (simp add: demo_run)

section \<open>Properties\<close>

text \<open>
  The verdict of a group of steps is the worst verdict in it, in the order passed, skipped, failed,
  broken; it is passed exactly when every step is.
\<close>

theorem aggregate_is_worst:
  "aggregate_step_status ss = Max (insert Passed (s_status ` set ss)) \<and>
   (aggregate_step_status ss = Passed \<longleftrightarrow> s_status ` set ss \<subseteq> {Passed})"
  using aggregate_Max aggregate_passed_iff by auto

text \<open>
  C23.  No step is reported as passed above one that is not: in the whole tree the mapper builds from a
  list of items, at every level, a passed concept has passed steps only.
\<close>

theorem step_trees_honest:
  assumes "map_items lib m c atts depth parent items cursor w = (steps, cur, ws, e, w')"
  shows "\<forall>s \<in> set steps. honest s"
  using honest_run(1) [OF items_run_complete [OF assms]] by simp

theorem step_trees_honest_witness:
  "\<exists>steps cur ws e w'. map_items plain_mime (demo_mapper False) None True 0 demo_span
      [Some (concept_item ''c'' [Some (step_item ''s'' [])]), Some (step_item ''t'' [])] 100 (calm_world shots_fs) =
        (steps, cur, ws, e, w') \<and>
     length steps = 2 \<and> (\<forall>s \<in> set steps. honest s)"
  using step_trees_honest [OF demo_plain [where strict = False and atts = True and w = "calm_world shots_fs"]] demo_plain by fastforce

text \<open>
  C24.  The timeline of steps.  Inside a parent range that is known and positive, and from a cursor in it,
  the steps follow each other without gaps from the cursor on, every step lies inside its parent, and the
  children of every concept again follow each other from the start of the concept and lie inside it;
  whatever durations Gauge reports, overflowing or negative ones included.
\<close>

theorem steps_scheduled:
  assumes "map_items lib m c atts depth parent items cursor w = (steps, cur, ws, e, w')"
    and "0 <s r_start parent" and "r_start parent \<le>s cursor" and "cursor \<le>s r_stop parent"
  shows "contiguous cursor steps \<and> (\<forall>s \<in> set steps. scheduled parent s) \<and>
    cur = ends_at cursor steps \<and> cur \<le>s r_stop parent"
proof -
  have "room parent cursor" using assms(2-4) by (simp add: room_def inside_def sint_simps)
  from timeline_run(1) [OF items_run_complete [OF assms(1)] this]
  show ?thesis by (auto simp: timeline_def room_def inside_def)
qed

theorem steps_scheduled_witness:
  "\<exists>steps cur ws e w'. map_items plain_mime (demo_mapper False) None True 0 demo_span
      [Some (concept_item ''c'' [Some (step_item ''s'' [])]), Some (step_item ''t'' [])] 100 (calm_world shots_fs) =
        (steps, cur, ws, e, w') \<and>
     contiguous 100 steps \<and> (\<forall>s \<in> set steps. scheduled demo_span s) \<and> cur = 110"
  using steps_scheduled [OF demo_plain [where strict = False and atts = True and w = "calm_world shots_fs"]] demo_plain
  by (simp add: word_sless_alt word_sle_eq)

text \<open>
  C27.  Nesting is bounded: however deep Gauge nests concepts, the step trees are at most two levels
  higher than the configured maximum depth, the last level being the marker of the cut.
\<close>

theorem nesting_bounded:
  assumes "map_items lib m c atts 0 parent items cursor w = (steps, cur, ws, e, w')"
    and "1 \<le> sint (c_max_depth (mp_cfg m))"
  shows "\<forall>s \<in> set steps. int (height s) \<le> sint (c_max_depth (mp_cfg m)) + 2"
  using height_run(1) [OF items_run_complete [OF assms(1)]] assms(2) by auto

theorem nesting_bounded_witness:
  "\<exists>steps cur ws e w'. map_items plain_mime (demo_mapper False) None True 0 demo_span
      [Some (concept_item ''c'' [Some (concept_item ''d'' [Some (step_item ''s'' [])])])] 100 (calm_world shots_fs) =
        (steps, cur, ws, e, w') \<and>
     map height steps = [3] \<and> (\<forall>s \<in> set steps. int (height s) \<le> 102)"
  using nesting_bounded [OF demo_nested [where strict = False and atts = True and w = "calm_world shots_fs"]] demo_nested by simp





text \<open>
  The suffix that makes parameter names unique is added before the name is compared with the privacy
  lists: of two table columns named \<^verbatim>\<open>token\<close>, with \<^verbatim>\<open>token\<close> to be masked, the second is shown in clear.
\<close>

theorem duplicate_column_unmasked:
  "map p_value (fst (column_parameters plain_mime (defaults\<lparr>c_mask := [''token'']\<rparr>) [''token'', ''token''] 0 []
      [''s1'', ''s2''])) = [''[MASKED]'', ''s2'']"
proof -
  have "matches plain_mime ''token'' [''token'']" "\<not> matches plain_mime ''token_2'' [''token'']"
    "\<not> matches plain_mime ''token'' []" "\<not> matches plain_mime ''token_2'' []" "show_nat (Suc (Suc 0)) = ''2''"
    "trim_space ''token'' \<noteq> []" by code_simp+
  then show ?thesis
    by (simp add: numbered_name_def private_parameter_def defaults_def Let_def del: show_nat.simps)
qed

text \<open>
  Concepts swallow warnings and errors.  A nested call replaces the warnings collected before it, so
  the warning about the missing screenshot of a first step is gone after a concept; and its error is
  dropped, so in strict mode a missing screenshot inside a concept is not reported.
\<close>

theorem concept_swallows_problems:
  "fst (snd (snd (map_items plain_mime (demo_mapper False) None True 0 demo_span
      [Some (step_item ''s'' [''no.png''])] 100 (calm_world shots_fs)))) \<noteq> [] \<and>
   fst (snd (snd (map_items plain_mime (demo_mapper False) None True 0 demo_span
      [Some (step_item ''s'' [''no.png'']), Some (concept_item ''c'' [Some (step_item ''t'' [])])] 100
      (calm_world shots_fs)))) = [] \<and>
   fst (snd (snd (snd (map_items plain_mime (demo_mapper True) None True 0 demo_span
      [Some (step_item ''s'' [''no.png''])] 100 (calm_world shots_fs))))) \<noteq> None \<and>
   fst (snd (snd (snd (map_items plain_mime (demo_mapper True) None True 0 demo_span
      [Some (concept_item ''c'' [Some (step_item ''s'' [''no.png''])])] 100 (calm_world shots_fs))))) = None"
proof -
  obtain x w' where lenient: "\<And>s. finish_step plain_mime (demo_mapper False) None True s (plain_step ''s'' [''no.png''])
      (calm_world shots_fs) = (s, [x], None, w')" using demo_missing [of False "''s''"] by auto
  obtain y v' where strict: "\<And>s. finish_step plain_mime (demo_mapper True) None True s (plain_step ''s'' [''no.png''])
      (calm_world shots_fs) = (s, [], Some y, v')" using demo_missing [of True "''s''"] by auto
  have span: "step_range 105 (st_exec (plain_step ''c'' [])) \<lparr>r_start = 105, r_stop = 110\<rparr> = \<lparr>r_start = 105, r_stop = 110\<rparr>"
    "step_range 105 (st_exec (plain_step ''t'' [])) \<lparr>r_start = 105, r_stop = 110\<rparr> = \<lparr>r_start = 105, r_stop = 110\<rparr>"
    by (simp_all add: step_range_def plain_step_def clamp_def max64_def word_sless_alt)
  show ?thesis by (simp add: demo_run lenient strict span)
qed

end
