(* ===== verification/Suite_Mapping.thy ===== *)
theory Suite_Mapping
  imports Step_Trees "HOL-Library.List_Lexorder" "HOL-Library.Product_Lexorder" "HOL-Library.Monad_Syntax"
begin

text \<open>
  \<^verbatim>\<open>internal/mapping/mapping.go\<close>, from the scenario upwards: the Allure result of a scenario, live and
  final, the containers that carry the hooks, and the reconciliation of a whole suite.

  A panic of the code is \<^const>\<open>None\<close>; the pure parts that can panic are options, and everything above
  them runs in an option.  An early return with an error is a value next to the state it returns.
\<close>

record live_info =
  lv_range :: trange
  lv_stream :: int32
  lv_runner :: int32
  lv_retry :: int32

record result_artifact =
  ra_key :: string
  ra_result :: test_result

record suite_output =
  so_results :: "result_artifact list"
  so_containers :: "container list"
  so_warnings :: "err list"

section \<open>Reading a scenario\<close>

definition scenario_of_item :: "proto_item \<Rightarrow> proto_scenario option \<times> proto_table_driven option" where
  "scenario_of_item it =
     (if pi_type it = Table_driven_item then
        (case pi_table_driven it of Some t \<Rightarrow> (ptd_scenario t, Some t) | None \<Rightarrow> (pi_scenario it, None))
      else (pi_scenario it, None))"

definition is_scenario :: "proto_item option \<Rightarrow> bool" where
  "is_scenario it =
     (case it of None \<Rightarrow> False | Some it \<Rightarrow> pi_type it = Scenario_item \<or> pi_type it = Table_driven_item)"

definition collect_tags :: "proto_spec \<Rightarrow> proto_scenario \<Rightarrow> string list" where
  "collect_tags spec sc =
     dedupe_by id {} (filter (\<lambda>v. v \<noteq> [])
       (pr_tags spec @ sc_tags (ps_fields sc) @
        concat (map (\<lambda>it. case it of None \<Rightarrow> [] | Some it \<Rightarrow> nget [] id (pi_tags it)) (ps_items sc))))"

definition scenario_description :: "proto_scenario \<Rightarrow> string" where
  "scenario_description sc =
     join [newline, newline] (concat (map (\<lambda>it. case it of
         None \<Rightarrow> []
       | Some it \<Rightarrow> (case pi_comment it of
            None \<Rightarrow> [] | Some text \<Rightarrow> if trim_space text \<noteq> [] then [trim_space text] else []))
       (ps_items sc)))"

text \<open>The first step that ran and failed, in the order of the items, a concept's steps in its place.\<close>

definition failed_step :: "proto_item \<Rightarrow> execution_result option" where
  "failed_step it =
     (case pi_step it of
        None \<Rightarrow> None
      | Some step \<Rightarrow> (case step_result_of step of None \<Rightarrow> None | Some v \<Rightarrow> if er_failed v then Some v else None))"

fun inspect_items :: "proto_item option list \<Rightarrow> execution_result option" where
  "inspect_items [] = None"
| "inspect_items (None # rest) = inspect_items rest"
| "inspect_items (Some it # rest) =
     (case failed_step it of
        Some v \<Rightarrow> Some v
      | None \<Rightarrow>
          (case (case pi_concept it of None \<Rightarrow> None | Some concept \<Rightarrow> inspect_items (pc_items concept)) of
             Some v \<Rightarrow> Some v
           | None \<Rightarrow> inspect_items rest))"

definition find_step_failure :: "proto_scenario \<Rightarrow> execution_result option" where
  "find_step_failure sc = inspect_items (scenario_all_items sc)"

definition scenario_status :: "'u unicode_scheme \<Rightarrow> proto_scenario \<Rightarrow> status \<times> details option" where
  "scenario_status u sc =
     (let f = ps_fields sc in
      if sc_status f = Skipped_exec \<or> sc_skip_errors f \<noteq> [] then
        (Skipped, failure_details (join [newline] (sc_skip_errors f)) [])
      else if sc_pre_failure f \<noteq> None \<or> sc_post_failure f \<noteq> None then
        (let failure = (if sc_pre_failure f = None then sc_post_failure f else sc_pre_failure f)
         in (Broken, failure_details (nget [] hf_message failure) (nget [] hf_trace failure)))
      else if sc_status f = Failed_exec then
        (let execution = find_step_failure sc;
             message = nget [] er_message execution;
             message = (if message = [] then ''Gauge scenario failed without an unambiguous diagnostic'' else message)
         in (from_execution_status Failed_exec [] (failure_kind u execution),
             failure_details message (nget [] er_trace execution)))
      else (from_execution_status (sc_status f) [] Error_none, None))"

text \<open>Gauge counts attempts; an attempt's index is one less, saturated at the largest \<^verbatim>\<open>int32\<close>.\<close>

definition retry_index :: "int64 \<Rightarrow> int32" where
  "retry_index attempts =
     (if attempts \<le>s 1 then 0
      else if 2147483648 <s attempts then 2147483647
      else word_of_int (sint (attempts - 1)))"

definition find_spec_table :: "proto_spec \<Rightarrow> proto_table option" where
  "find_spec_table spec =
     (if \<not> pr_table_driven spec then None
      else (case filter (\<lambda>it. case it of None \<Rightarrow> False | Some it \<Rightarrow> pi_type it = Table_item \<and> pi_table it \<noteq> None)
                   (pr_items spec) of
              Some it # _ \<Rightarrow> pi_table it
            | _ \<Rightarrow> None))"

definition project_from_canonical :: "string \<Rightarrow> string" where
  "project_from_canonical v = (case cut ''::'' v of Some (project, _) \<Rightarrow> project | None \<Rightarrow> ''Gauge project'')"

definition parse_time :: "string \<Rightarrow> int64 \<Rightarrow> gtime" where
  "parse_time v fallback = (case parse_rfc3339 v of Some parsed \<Rightarrow> parsed | None \<Rightarrow> time_of_millis fallback)"

text \<open>The link to the specification in a source browser; \<^const>\<open>None\<close> is the zero link.\<close>

definition source_link :: "'u meta_lib_scheme \<Rightarrow> config \<Rightarrow> string \<Rightarrow> span option \<Rightarrow> link option" where
  "source_link lib cfg path span =
     (case span of
        None \<Rightarrow> None
      | Some sp \<Rightarrow>
          if c_source_template cfg = [] \<or> contains path ''..'' \<or> is_abs path then None
          else
            let address = replace_all (c_source_template cfg) ''{path}'' (replace_all (path_escape path) ''%2F'' ''/'');
                address = replace_all address ''{line}'' (show_int (sint (sp_start sp)))
            in if safe_url lib address
               then Some \<lparr>k_type = ''link'', k_name = ''Gauge specification source'', k_url = address\<rparr> else None)"

definition dedupe_labels :: "label list \<Rightarrow> label list" where
  "dedupe_labels ls =
     dedupe_by (\<lambda>l. label_key (l_name l) (l_value l)) {} (filter (\<lambda>l. l_name l \<noteq> [] \<and> l_value l \<noteq> []) ls)"

text \<open>Canonical identity, path, and the two row numbers of a table-driven attempt.\<close>

definition scenario_identity :: "'u unicode_scheme \<Rightarrow> mapper \<Rightarrow> proto_spec \<Rightarrow> proto_item
    \<Rightarrow> (string \<times> string \<times> int32 \<times> int32) option" where
  "scenario_identity u m spec it =
     (case scenario_of_item it of (sc, table) \<Rightarrow>
        do {
          path \<leftarrow> canonical_path u (mp_root m) (first_nonblank [pr_file spec, pi_file it]);
          let fields = nget no_scenario_fields ps_fields sc;
          let project = first_nonblank [env_get (mp_env m) ''GAUGE_PROJECT_NAME'',
                env_get (mp_env m) ''gauge_project_name'', base (mp_root m)];
          let identity = scenario_identity_text project path (sc_id fields) (sc_heading fields)
                (nget 0 sp_start (sc_span fields)) (nget 0 sp_end (sc_span fields));
          Some (case table of
              None \<Rightarrow> (identity, path, 0, 0)
            | Some t \<Rightarrow> (identity, path, td_row_index (ptd_fields t), td_scenario_row_index (ptd_fields t)))
        })"

section \<open>The result of a scenario\<close>

text \<open>The steps of a section, flat or below one step with the section's name and their worst verdict.\<close>

definition add_section :: "string \<Rightarrow> string \<Rightarrow> step_result list \<Rightarrow> step_result list \<Rightarrow> step_result list" where
  "add_section name mode steps groups =
     (if steps = [] then groups
      else if mode = ''flat'' then groups @ steps
      else groups @ [Step_result name (aggregate_step_status steps) None []
              (s_start (hd steps)) (s_stop (last steps)) steps []])"

text \<open>The loop over the sections: name, mode and items of each.\<close>

fun map_sections :: "'u mime_lib_scheme \<Rightarrow> mapper \<Rightarrow> ctx \<Rightarrow> bool \<Rightarrow> trange
    \<Rightarrow> (string \<times> string \<times> proto_item option list) list \<Rightarrow> step_result list \<Rightarrow> err list \<Rightarrow> int64 \<Rightarrow> world
    \<Rightarrow> step_result list \<times> err list \<times> err option \<times> world" where
  "map_sections lib m c atts parent [] groups warnings cursor w = (groups, warnings, None, w)"
| "map_sections lib m c atts parent ((name, mode, items) # sections) groups warnings cursor w =
     (if mode = ''fixtures'' then map_sections lib m c atts parent sections groups warnings cursor w
      else
        (case map_items lib m c atts 0 parent items cursor w of
           (steps, _, current, Some e, w) \<Rightarrow> ([], warnings @ current, Some e, w)
         | (steps, cursor, current, None, w) \<Rightarrow>
             map_sections lib m c atts parent sections
               (add_section name mode steps groups) (warnings @ current) cursor w))"

definition scenario_steps :: "'u mime_lib_scheme \<Rightarrow> mapper \<Rightarrow> ctx \<Rightarrow> bool \<Rightarrow> proto_scenario \<Rightarrow> trange \<Rightarrow> world
    \<Rightarrow> step_result list \<times> err list \<times> err option \<times> world" where
  "scenario_steps lib m c atts sc parent w =
     map_sections lib m c atts parent
       [(''Context'', c_context_mode (mp_cfg m), ps_contexts sc),
        (''Steps'', ''grouped-steps'', ps_items sc),
        (''Teardown'', c_teardown_mode (mp_cfg m), ps_teardown sc)] [] [] (r_start parent) w"

definition retry_labels :: "int32 \<Rightarrow> label list" where
  "retry_labels retry = (if 0 <s retry then [\<lparr>l_name = ''gauge.retry'', l_value = show_int (sint retry)\<rparr>] else [])"

definition retry_parameters :: "int32 \<Rightarrow> parameter list" where
  "retry_parameters retry =
     (if 0 <s retry then [\<lparr>p_name = ''retry'', p_value = show_int (sint retry), p_excluded = True, p_mode = Default_mode\<rparr>]
      else [])"

definition scenario_labels :: "mapper \<Rightarrow> live_info \<Rightarrow> int32 \<Rightarrow> string \<Rightarrow> string \<Rightarrow> proto_spec \<Rightarrow> string list \<Rightarrow> label list
    \<Rightarrow> label list" where
  "scenario_labels m live retry identity path spec tags parsed =
     (let language = env_get (mp_env m) ''test_language'' in
      [\<lparr>l_name = ''framework'', l_value = ''Gauge''\<rparr>]
      @ (if language \<noteq> [] then [\<lparr>l_name = ''language'', l_value = language\<rparr>] else [])
      @ (if mp_host m \<noteq> [] then [\<lparr>l_name = ''host'', l_value = mp_host m\<rparr>] else [])
      @ [\<lparr>l_name = ''thread'', l_value = ''stream-'' @ show_int (sint (lv_stream live)) @ ''/runner-''
            @ show_int (sint (lv_runner live))\<rparr>,
         \<lparr>l_name = ''parentSuite'', l_value = first_nonblank [env_get (mp_env m) ''GAUGE_PROJECT_NAME'',
            project_from_canonical identity]\<rparr>,
         \<lparr>l_name = ''suite'', l_value = first_nonblank [pr_heading spec, base path]\<rparr>,
         \<lparr>l_name = ''package'', l_value = trim_suffix path (ext path)\<rparr>]
      @ retry_labels retry
      @ map (\<lambda>tag. \<lparr>l_name = ''tag'', l_value = tag\<rparr>) tags
      @ parsed
      @ (if c_behavior_from_spec (mp_cfg m)
         then [\<lparr>l_name = ''feature'', l_value = first_nonblank [pr_heading spec, base path]\<rparr>] else []))"

text \<open>The result before its steps are mapped; the history identifier leaves out the retry.\<close>

definition scenario_result :: "'u mime_lib_scheme \<Rightarrow> mapper \<Rightarrow> proto_spec \<Rightarrow> proto_scenario \<Rightarrow> int32 \<Rightarrow> live_info \<Rightarrow> string
    \<Rightarrow> string \<Rightarrow> string \<Rightarrow> parameter list \<Rightarrow> (string \<times> string) list \<Rightarrow> test_result" where
  "scenario_result lib m spec sc retry live uuid identity path parameters logical =
     (let tags = collect_tags spec sc;
          parsed = parse_tags lib tags (mp_cfg m);
          case_id = test_case_id identity;
          (verdict, details) = scenario_status lib sc
      in \<lparr>t_uuid = uuid, t_name = first_nonblank [sc_heading (ps_fields sc), ''Unnamed Gauge scenario''],
          t_full_name = identity, t_case_id = case_id, t_history_id = history_id case_id logical,
          t_description = scenario_description sc, t_status = verdict, t_details = details,
          t_labels = dedupe_labels (scenario_labels m live retry identity path spec tags (pt_labels parsed)),
          t_links = pt_links parsed, t_params = parameters @ retry_parameters retry,
          t_start = r_start (lv_range live), t_stop = r_stop (lv_range live), t_steps = [], t_attachments = []\<rparr>)"

definition given_uuid :: "mapper \<Rightarrow> string \<Rightarrow> world \<Rightarrow> (err + string) \<times> world" where
  "given_uuid m existing w = (if existing = [] then mp_new_uuid m w else (Inr existing, w))"

definition map_scenario :: "'u mime_lib_scheme \<Rightarrow> mapper \<Rightarrow> ctx \<Rightarrow> proto_spec \<Rightarrow> proto_item \<Rightarrow> int32 \<Rightarrow> live_info \<Rightarrow> string
    \<Rightarrow> bool \<Rightarrow> proto_table option \<Rightarrow> world \<Rightarrow> ((err + result_artifact) \<times> err list \<times> world) option" where
  "map_scenario lib m c spec it retry live existing atts spec_table w =
     (case scenario_of_item it of
        (None, _) \<Rightarrow> Some (Inl (Errorf ''scenario item has no scenario'' []), [], w)
      | (Some sc, table) \<Rightarrow>
          do {
            (identity, path, spec_row, scenario_row) \<leftarrow> scenario_identity lib m spec it;
            (case given_uuid m existing w of
               (Inl e, w) \<Rightarrow> Some (Inl e, [], w)
             | (Inr uuid, w) \<Rightarrow>
                 do {
                   (parameters, logical) \<leftarrow> test_parameters lib (mp_cfg m) table spec_table;
                   let (promoted, promoted_logical) = promoted_parameters lib (mp_cfg m) sc;
                   let shell = scenario_result lib m spec sc retry live uuid identity path (parameters @ promoted)
                         (logical @ promoted_logical);
                   let parsed = parse_tags lib (collect_tags spec sc) (mp_cfg m);
                   Some (case scenario_steps lib m c atts sc (lv_range live) w of
                       (_, current, Some e, w) \<Rightarrow> (Inl e, pt_warnings parsed @ current, w)
                     | (groups, current, None, w) \<Rightarrow>
                         (Inr \<lparr>ra_key = attempt_key identity spec_row scenario_row retry,
                               ra_result = shell\<lparr>t_steps := groups,
                                 t_links := t_links shell @
                                   (case source_link lib (mp_cfg m) path (sc_span (ps_fields sc)) of
                                      None \<Rightarrow> [] | Some k \<Rightarrow> if k_url k \<noteq> [] then [k] else [])\<rparr>\<rparr>,
                          pt_warnings parsed @ current, w))
                 })
          })"

text \<open>\<^verbatim>\<open>MapLiveScenario\<close>: promptly, from the lifecycle event, without the attachments only the suite has.\<close>

definition map_live_scenario :: "'u mime_lib_scheme \<Rightarrow> mapper \<Rightarrow> ctx \<Rightarrow> scenario_ending option \<Rightarrow> string \<Rightarrow> world
    \<Rightarrow> ((err + result_artifact) \<times> err list \<times> world) option" where
  "map_live_scenario lib m c request existing w =
     (case request of
        None \<Rightarrow> Some (Inl (Errorf ''map live scenario: missing scenario result'' []), [], w)
      | Some req \<Rightarrow>
          (case sg_result req of
             None \<Rightarrow> Some (Inl (Errorf ''map live scenario: missing scenario result'' []), [], w)
           | Some res \<Rightarrow>
               (case sn_item res of
                  None \<Rightarrow> Some (Inl (Errorf ''map live scenario: missing scenario result'' []), [], w)
                | Some it \<Rightarrow>
                    (let info = sg_info req;
                         spec_info = (case info of None \<Rightarrow> None | Some i \<Rightarrow> xi_spec i);
                         retry = current_retry info;
                         (t, w) = mp_now m w;
                         live = \<lparr>lv_range = resolve (sn_timestamp res) (sn_time res) t, lv_stream = sg_stream req,
                                 lv_runner = nget 0 xi_runner info, lv_retry = retry\<rparr>;
                         spec = no_spec\<lparr>pr_heading := nget [] ci_name spec_info, pr_file := nget [] ci_file spec_info,
                                 pr_tags := nget [] ci_tags spec_info, pr_items := [Some it]\<rparr>
                     in map_scenario lib m c spec it retry live existing False None w))))"

section \<open>Results Gauge did not supply, and containers\<close>

definition synthetic :: "mapper \<Rightarrow> string \<Rightarrow> string \<Rightarrow> string \<Rightarrow> status \<Rightarrow> gtime \<Rightarrow> world
    \<Rightarrow> (err + result_artifact) \<times> world" where
  "synthetic m name key message verdict start w =
     (case mp_new_uuid m w of
        (Inl e, w) \<Rightarrow> (Inl e, w)
      | (Inr uuid, w) \<Rightarrow>
          (let identity = base (mp_root m) @ ''::[synthetic]::'' @ key;
               case_id = test_case_id identity
           in (Inr \<lparr>ra_key = key,
                 ra_result = \<lparr>t_uuid = uuid, t_name = name, t_full_name = identity, t_case_id = case_id,
                   t_history_id = history_id case_id [], t_description = [], t_status = verdict,
                   t_details = failure_details message [],
                   t_labels = [\<lparr>l_name = ''framework'', l_value = ''Gauge''\<rparr>,
                               \<lparr>l_name = ''parentSuite'', l_value = base (mp_root m)\<rparr>],
                   t_links = [], t_params = [], t_start = unix_milli start, t_stop = unix_milli start,
                   t_steps = [], t_attachments = []\<rparr>\<rparr>, w)))"

definition no_artifact :: result_artifact where
  "no_artifact = \<lparr>ra_key = [], ra_result = \<lparr>t_uuid = [], t_name = [], t_full_name = [], t_case_id = [],
     t_history_id = [], t_description = [], t_status = Broken, t_details = None, t_labels = [], t_links = [],
     t_params = [], t_start = 0, t_stop = 0, t_steps = [], t_attachments = []\<rparr>\<rparr>"

definition no_container :: container where
  "no_container = \<lparr>o_uuid = [], o_name = [], o_children = [], o_befores = [], o_afters = [], o_start = 0, o_stop = 0\<rparr>"

text \<open>The name behind the first colon, with what follows the colon kept as it is.\<close>

definition hook_suffix :: "string \<Rightarrow> string" where
  "hook_suffix name = trim_prefix name (hd (split_on (CHR '':'') name) @ '':'')"

definition make_container :: "'u mime_lib_scheme \<Rightarrow> mapper \<Rightarrow> ctx \<Rightarrow> string \<Rightarrow> string list \<Rightarrow> trange \<Rightarrow> hook_side
    \<Rightarrow> hook_side \<Rightarrow> world \<Rightarrow> container \<times> err list \<times> err option \<times> world" where
  "make_container lib m c name children r before after w =
     (if children = [] then (no_container, [], None, w)
      else
        (case mp_new_uuid m w of
           (Inl e, w) \<Rightarrow> (no_container, [], Some e, w)
         | (Inr uuid, w) \<Rightarrow>
             (let shell = no_container\<lparr>o_uuid := uuid, o_name := name, o_children := children,
                    o_start := r_start r, o_stop := r_stop r\<rparr>
              in case fixture lib m c (''Before '' @ hook_suffix name) before (r_start r) w of
                   (_, ws, Some e, w) \<Rightarrow> (shell, ws, Some e, w)
                 | (b, ws, None, w) \<Rightarrow>
                     (case fixture lib m c (''After '' @ hook_suffix name) after (r_stop r) w of
                        (_, current, Some e, w) \<Rightarrow> (shell, ws @ current, Some e, w)
                      | (a, current, None, w) \<Rightarrow>
                          (shell\<lparr>o_befores := [b], o_afters := [a]\<rparr>, ws @ current, None, w)))))"

definition before_side :: "hook_failure option \<Rightarrow> hook_scope \<Rightarrow> hook_side" where
  "before_side failure h =
     \<lparr>hk_failure = failure, hk_messages = hs_pre_messages h, hk_files = hs_pre_files h, hk_legacy = hs_pre_shots h\<rparr>"

definition after_side :: "hook_failure option \<Rightarrow> hook_scope \<Rightarrow> hook_side" where
  "after_side failure h =
     \<lparr>hk_failure = failure, hk_messages = hs_post_messages h, hk_files = hs_post_files h, hk_legacy = hs_post_shots h\<rparr>"

text \<open>\<^verbatim>\<open>Befores[0].Steps = append(...)\<close>, a panic on an empty list.\<close>

definition first_fixture :: "(fixture_result \<Rightarrow> fixture_result) \<Rightarrow> fixture_result list \<Rightarrow> fixture_result list option" where
  "first_fixture f fs = (case fs of [] \<Rightarrow> None | x # xs \<Rightarrow> Some (f x # xs))"

text \<open>The steps of contexts or of the teardown as steps of a fixture, in the mode \<^verbatim>\<open>fixtures\<close> only.\<close>

definition fixture_steps :: "'u mime_lib_scheme \<Rightarrow> mapper \<Rightarrow> ctx \<Rightarrow> string \<Rightarrow> proto_item option list \<Rightarrow> trange
    \<Rightarrow> world \<Rightarrow> step_result list \<times> err list \<times> err option \<times> world" where
  "fixture_steps lib m c mode items r w =
     (if mode \<noteq> ''fixtures'' then ([], [], None, w)
      else (case map_items lib m c True 0 r items (r_start r) w of
              (steps, _, current, e, w) \<Rightarrow> (steps, current, e, w)))"

definition scenario_container :: "'u mime_lib_scheme \<Rightarrow> mapper \<Rightarrow> ctx \<Rightarrow> proto_scenario \<Rightarrow> string \<Rightarrow> trange \<Rightarrow> world
    \<Rightarrow> (container \<times> err list \<times> err option \<times> world) option" where
  "scenario_container lib m c sc child r w =
     (let f = ps_fields sc in
      case make_container lib m c (''Scenario hooks: '' @ sc_heading f) [child] r
             (before_side (sc_pre_failure f) (sc_hooks f)) (after_side (sc_post_failure f) (sc_hooks f)) w of
        (box, ws, Some e, w) \<Rightarrow> Some (box, ws, Some e, w)
      | (box, ws, None, w) \<Rightarrow>
          (case fixture_steps lib m c (c_context_mode (mp_cfg m)) (ps_contexts sc) r w of
             (_, current, Some e, w) \<Rightarrow> Some (box, ws @ current, Some e, w)
           | (contexts, current, None, w) \<Rightarrow>
               do {
                 befores \<leftarrow> first_fixture (\<lambda>x. x\<lparr>f_steps := f_steps x @ contexts\<rparr>) (o_befores box);
                 let box = box\<lparr>o_befores := befores\<rparr>;
                 (case fixture_steps lib m c (c_teardown_mode (mp_cfg m)) (ps_teardown sc) r w of
                    (_, later, Some e, w) \<Rightarrow> Some (box, (ws @ current) @ later, Some e, w)
                  | (teardown, later, None, w) \<Rightarrow>
                      do {
                        afters \<leftarrow> first_fixture (\<lambda>x. x\<lparr>f_steps := f_steps x @ teardown\<rparr>) (o_afters box);
                        Some (box\<lparr>o_afters := afters\<rparr>, (ws @ current) @ later, None, w)
                      })
               }))"

definition spec_container :: "'u mime_lib_scheme \<Rightarrow> mapper \<Rightarrow> ctx \<Rightarrow> proto_spec \<Rightarrow> string list \<Rightarrow> trange \<Rightarrow> world
    \<Rightarrow> container \<times> err list \<times> err option \<times> world" where
  "spec_container lib m c spec children r w =
     (if children = [] then (no_container, [], None, w)
      else
        make_container lib m c (''Specification hooks: '' @ first_nonblank [pr_heading spec, base (pr_file spec)]) children r
          (before_side (case pr_pre_failures spec of [] \<Rightarrow> None | x # _ \<Rightarrow> x) (pr_hooks spec))
          (after_side (case pr_post_failures spec of [] \<Rightarrow> None | x # _ \<Rightarrow> x) (pr_hooks spec)) w)"

definition suite_container :: "'u mime_lib_scheme \<Rightarrow> mapper \<Rightarrow> ctx \<Rightarrow> suite_result \<Rightarrow> string list \<Rightarrow> trange \<Rightarrow> world
    \<Rightarrow> container \<times> err list \<times> err option \<times> world" where
  "suite_container lib m c suite children r w =
     make_container lib m c (''Suite hooks: '' @ first_nonblank [su_project suite, ''Gauge project'']) children r
       (before_side (su_pre_failure suite) (su_hooks suite)) (after_side (su_post_failure suite) (su_hooks suite)) w"

section \<open>Reconciling a suite\<close>

text \<open>
  The state of the loops: the output so far, the identifiers of all results and of those of the current
  specification, and the cursor for attempts without a live range.
\<close>

record progress =
  pg_out :: suite_output
  pg_children :: "string list"
  pg_spec_children :: "string list"
  pg_cursor :: int64

text \<open>
  A step of the reconciliation: \<^const>\<open>None\<close> is a panic, an error next to the state is an early return.
\<close>

type_synonym flow = "progress \<Rightarrow> world \<Rightarrow> (progress \<times> err option \<times> world) option"

definition after_flow :: "flow \<Rightarrow> flow \<Rightarrow> flow" where
  "after_flow f g s w =
     (case f s w of
        None \<Rightarrow> None
      | Some (s, Some e, w) \<Rightarrow> Some (s, Some e, w)
      | Some (s, None, w) \<Rightarrow> g s w)"

fun each_flow :: "('a \<Rightarrow> flow) \<Rightarrow> 'a list \<Rightarrow> flow" where
  "each_flow f [] s w = Some (s, None, w)"
| "each_flow f (x # xs) s w =
     (case f x s w of
        None \<Rightarrow> None
      | Some (s, Some e, w) \<Rightarrow> Some (s, Some e, w)
      | Some (s, None, w) \<Rightarrow> each_flow f xs s w)"

definition add_result :: "result_artifact \<Rightarrow> progress \<Rightarrow> progress" where
  "add_result a s = s\<lparr>pg_out := (pg_out s)\<lparr>so_results := so_results (pg_out s) @ [a]\<rparr>,
     pg_children := pg_children s @ [t_uuid (ra_result a)]\<rparr>"

definition add_warnings :: "err list \<Rightarrow> progress \<Rightarrow> progress" where
  "add_warnings ws s = s\<lparr>pg_out := (pg_out s)\<lparr>so_warnings := so_warnings (pg_out s) @ ws\<rparr>\<rparr>"

text \<open>
  What becomes of a container: its warnings are kept; an error ends the mapping in strict mode and is
  forgotten otherwise; a container without an identifier is no container.
\<close>

definition keep_container :: "bool \<Rightarrow> container \<times> err list \<times> err option \<times> world \<Rightarrow> progress
    \<Rightarrow> progress \<times> err option \<times> world" where
  "keep_container strict made s =
     (case made of (box, ws, e, w) \<Rightarrow>
        (let s = add_warnings ws s in
         if e \<noteq> None \<and> strict then (s, e, w)
         else (if o_uuid box \<noteq> []
               then s\<lparr>pg_out := (pg_out s)\<lparr>so_containers := so_containers (pg_out s) @ [box]\<rparr>\<rparr> else s, None, w)))"

definition add_synthetic :: "(err + result_artifact) \<times> world \<Rightarrow> progress \<Rightarrow> (progress \<times> err option \<times> world) option" where
  "add_synthetic made s =
     (case made of (Inl e, w) \<Rightarrow> Some (s, Some e, w) | (Inr a, w) \<Rightarrow> Some (add_result a s, None, w))"

definition error_key :: "string \<Rightarrow> nat \<Rightarrow> spec_error \<Rightarrow> string" where
  "error_key path index ge = ''error:'' @ path @ '':'' @ show_int (sint (ge_line ge)) @ '':'' @ show_nat index
     @ '':'' @ ge_message ge"

definition error_step :: "'u mime_lib_scheme \<Rightarrow> mapper \<Rightarrow> proto_spec \<Rightarrow> spec_result \<Rightarrow> trange
    \<Rightarrow> nat \<times> spec_error option \<Rightarrow> flow" where
  "error_step lib m spec result suite_range entry s w =
     (case entry of
        (_, None) \<Rightarrow> Some (s, None, w)
      | (index, Some ge) \<Rightarrow>
          do {
            path \<leftarrow> canonical_path lib (mp_root m) (first_nonblank [ge_file ge, pr_file spec]);
            let kind = (if ge_type ge = Parse_error then ''Parse error'' else ''Validation error'');
            let name = ''[Gauge] '' @ kind @ '': '' @ path @ '':'' @ show_int (sint (ge_line ge));
            add_synthetic (synthetic m name (error_key path index ge) (ge_message ge) Broken
              (parse_time (sr_timestamp result) (r_start suite_range)) w) s
          })"

text \<open>The range of an attempt no lifecycle event was recorded for.\<close>

definition fallback_live :: "int64 \<Rightarrow> int64 \<Rightarrow> trange \<Rightarrow> int32 \<Rightarrow> live_info" where
  "fallback_live cursor duration spec_range retry =
     (let stop = cursor + max64 duration 0;
          stop = (if r_stop spec_range <s stop then r_stop spec_range else stop)
      in \<lparr>lv_range = \<lparr>r_start = cursor, r_stop = stop\<rparr>, lv_stream = 0, lv_runner = 0, lv_retry = retry\<rparr>)"

text \<open>The scenario of an item the loop does not skip.\<close>

definition suite_scenario :: "proto_item option \<Rightarrow> (proto_item \<times> proto_scenario) option" where
  "suite_scenario it =
     (if \<not> is_scenario it then None
      else (case it of
              None \<Rightarrow> None
            | Some it \<Rightarrow> (case fst (scenario_of_item it) of None \<Rightarrow> None | Some sc \<Rightarrow> Some (it, sc))))"

definition scenario_key :: "'u unicode_scheme \<Rightarrow> mapper \<Rightarrow> proto_spec \<Rightarrow> proto_item \<Rightarrow> proto_scenario \<Rightarrow> string option" where
  "scenario_key u m spec it sc =
     map_option (\<lambda>(identity, _, spec_row, scenario_row).
         attempt_key identity spec_row scenario_row (retry_index (sc_retries_count (ps_fields sc))))
       (scenario_identity u m spec it)"

definition scenario_step :: "'u mime_lib_scheme \<Rightarrow> mapper \<Rightarrow> ctx \<Rightarrow> (string \<Rightarrow> live_info option) \<Rightarrow> env_map
    \<Rightarrow> proto_spec \<Rightarrow> trange \<Rightarrow> proto_item option \<Rightarrow> flow" where
  "scenario_step lib m c live existing spec spec_range item s w =
     (case suite_scenario item of
        None \<Rightarrow> Some (s, None, w)
      | Some (it, sc) \<Rightarrow>
          do {
            key \<leftarrow> scenario_key lib m spec it sc;
            let retry = retry_index (sc_retries_count (ps_fields sc));
            let info = (case live key of
                Some info \<Rightarrow> info
              | None \<Rightarrow> fallback_live (pg_cursor s) (sc_time (ps_fields sc)) spec_range retry);
            let s = s\<lparr>pg_cursor := max64 (pg_cursor s) (r_stop (lv_range info))\<rparr>;
            mapped \<leftarrow> map_scenario lib m c spec it retry info (env_get existing key) True (find_spec_table spec) w;
            (case mapped of
               (Inl e, _, w) \<Rightarrow> if c_strict (mp_cfg m) then Some (s, Some e, w) else Some (add_warnings [e] s, None, w)
             | (Inr a, warnings, w) \<Rightarrow>
                 do {
                   let s = add_result a (add_warnings warnings s);
                   let s = s\<lparr>pg_spec_children := pg_spec_children s @ [t_uuid (ra_result a)]\<rparr>;
                   made \<leftarrow> scenario_container lib m c sc (t_uuid (ra_result a)) (lv_range info) w;
                   Some (keep_container (c_strict (mp_cfg m)) made s)
                 })
          })"

definition spec_container_step :: "'u mime_lib_scheme \<Rightarrow> mapper \<Rightarrow> ctx \<Rightarrow> proto_spec \<Rightarrow> trange \<Rightarrow> flow" where
  "spec_container_step lib m c spec spec_range s w =
     Some (keep_container (c_strict (mp_cfg m)) (spec_container lib m c spec (pg_spec_children s) spec_range w) s)"

definition spec_step :: "'u mime_lib_scheme \<Rightarrow> mapper \<Rightarrow> ctx \<Rightarrow> (string \<Rightarrow> live_info option) \<Rightarrow> env_map \<Rightarrow> trange
    \<Rightarrow> nat \<times> spec_result option \<Rightarrow> flow" where
  "spec_step lib m c live existing suite_range entry s w =
     (case entry of
        (index, None) \<Rightarrow>
          add_synthetic (synthetic m ''[Gauge] Invalid empty specification result''
            (''protocol:nil-spec:'' @ show_nat index) ''Gauge supplied a nil specification result'' Broken
            (time_of_millis (r_start suite_range)) w) s
      | (index, Some result) \<Rightarrow>
          (case sr_spec result of
             None \<Rightarrow>
               add_synthetic (synthetic m ''[Gauge] Invalid specification result''
                 (''protocol:missing-proto-spec:'' @ show_nat index)
                 ''Gauge supplied a specification result without a specification'' Broken
                 (time_of_millis (r_start suite_range)) w) s
           | Some spec \<Rightarrow>
               (let spec_range = resolve (sr_timestamp result) (sr_time result) (time_of_millis (r_start suite_range)) in
                after_flow (each_flow (error_step lib m spec result suite_range) (enumerate 0 (sr_errors result)))
                  (after_flow
                    (\<lambda>s w. each_flow (scenario_step lib m c live existing spec spec_range) (pr_items spec)
                       (s\<lparr>pg_spec_children := [], pg_cursor := r_start spec_range\<rparr>) w)
                    (spec_container_step lib m c spec spec_range)) s w)))"

text \<open>A suite without any result gets one that says so.\<close>

definition empty_step :: "mapper \<Rightarrow> suite_result \<Rightarrow> trange \<Rightarrow> flow" where
  "empty_step m suite suite_range s w =
     (if so_results (pg_out s) \<noteq> [] then Some (s, None, w)
      else
        (let (name, message, verdict) =
               (if su_failed suite
                then (''[Gauge] Suite aborted before scenarios executed'', ''Gauge marked the empty suite as failed'', Broken)
                else (''[Gauge] No matching scenarios'', ''Gauge reported no executed or diagnosable scenarios'', Skipped))
         in add_synthetic (synthetic m name ''suite:empty'' message verdict (time_of_millis (r_start suite_range)) w) s))"

definition suite_container_step :: "'u mime_lib_scheme \<Rightarrow> mapper \<Rightarrow> ctx \<Rightarrow> suite_result \<Rightarrow> trange \<Rightarrow> flow" where
  "suite_container_step lib m c suite suite_range s w =
     Some (keep_container (c_strict (mp_cfg m)) (suite_container lib m c suite (pg_children s) suite_range w) s)"

definition no_output :: suite_output where
  "no_output = \<lparr>so_results = [], so_containers = [], so_warnings = []\<rparr>"

definition result_order :: "result_artifact \<Rightarrow> int \<times> string" where
  "result_order a = (sint (t_start (ra_result a)), ra_key a)"

definition sort_output :: "suite_output \<Rightarrow> suite_output" where
  "sort_output v = v\<lparr>so_results := sort_key result_order (so_results v),
     so_containers := sort_key o_uuid (so_containers v)\<rparr>"

definition reconcile :: "'u mime_lib_scheme \<Rightarrow> mapper \<Rightarrow> ctx \<Rightarrow> suite_result \<Rightarrow> (string \<Rightarrow> live_info option) \<Rightarrow> env_map
    \<Rightarrow> trange \<Rightarrow> flow" where
  "reconcile lib m c suite live existing suite_range =
     after_flow (each_flow (spec_step lib m c live existing suite_range) (enumerate 0 (su_specs suite)))
       (after_flow (empty_step m suite suite_range) (suite_container_step lib m c suite suite_range))"

definition map_suite :: "'u mime_lib_scheme \<Rightarrow> mapper \<Rightarrow> ctx \<Rightarrow> suite_result option \<Rightarrow> (string \<Rightarrow> live_info option)
    \<Rightarrow> env_map \<Rightarrow> world \<Rightarrow> (suite_output \<times> err option \<times> world) option" where
  "map_suite lib m c suite live existing w =
     (case suite of
        None \<Rightarrow>
          (let (t, w) = mp_now m w in
           case synthetic m ''[Gauge] Reporter received an empty suite result'' ''protocol:nil-suite''
                  ''Gauge Core sent an empty SuiteExecutionResult'' Broken t w of
             (Inl e, w) \<Rightarrow> Some (no_output\<lparr>so_results := [no_artifact]\<rparr>, Some e, w)
           | (Inr a, w) \<Rightarrow> Some (no_output\<lparr>so_results := [a]\<rparr>, None, w))
      | Some suite \<Rightarrow>
          (let (t, w) = mp_now m w;
               suite_range = resolve (su_timestamp suite) (su_time suite) t
           in case reconcile lib m c suite live existing suite_range
                     \<lparr>pg_out = no_output, pg_children = [], pg_spec_children = [], pg_cursor = 0\<rparr> w of
                None \<Rightarrow> None
              | Some (s, Some e, w) \<Rightarrow> Some (pg_out s, Some e, w)
              | Some (s, None, w) \<Rightarrow> Some (sort_output (pg_out s), None, w)))"

section \<open>Construction\<close>

text \<open>\<^verbatim>\<open>New\<close>, with the host name the operating system gives (empty when it gives none).\<close>

definition new_mapper :: "config \<Rightarrow> string \<Rightarrow> env_map \<Rightarrow> string \<Rightarrow> (world \<Rightarrow> (err + string) \<times> world) \<Rightarrow> manager option
    \<Rightarrow> (world \<Rightarrow> gtime \<times> world) option \<Rightarrow> mapper" where
  "new_mapper cfg root env host uuids manager clock =
     \<lparr>mp_cfg = cfg, mp_root = root, mp_env = env, mp_host = host, mp_new_uuid = uuids, mp_attach = manager,
      mp_now = (case clock of None \<Rightarrow> now | Some now_of \<Rightarrow> now_of)\<rparr>"

end
