(* ===== verification/Scenario_Results.thy ===== *)
theory Scenario_Results
  imports Suite_Mapping
begin

text \<open>
  What the result of one scenario guarantees: its verdict, its labels, identifiers that do not depend on
  the attempt, and a timeline of honest steps inside the range of the attempt.
\<close>

section \<open>The sections of a scenario\<close>

lemma scheduled_move: "scheduled p s \<Longrightarrow> inside (step_span s) q \<Longrightarrow> scheduled q s"
  by (cases s) simp

lemma scheduled_inside: "scheduled p s \<Longrightarrow> inside (step_span s) p"
  by (cases s) simp

lemma timeline_append:
  assumes "timeline p start ss mid" and "timeline p mid tt cursor"
  shows "timeline p start (ss @ tt) cursor"
  using assms(2,1)
proof (induction tt arbitrary: cursor rule: rev_induct)
  case Nil
  then show ?case by (simp add: timeline_def ends_at_def)
next
  case (snoc t tt)
  have t: "scheduled p t" "contiguous mid tt" "s_start t = ends_at mid tt" "s_stop t = cursor" "room p cursor"
    using snoc.prems(1) by (auto simp: timeline_def contiguous_snoc)
  note ins = scheduled_inside [OF t(1)]
  have "room p (ends_at mid tt)"
    using t(3,5) ins by (auto simp: room_def inside_def sint_simps)
  then have "timeline p mid tt (ends_at mid tt)"
    using snoc.prems(1) t(2) by (auto simp: timeline_def)
  from snoc.IH [OF this snoc.prems(2)] timeline_snoc [of p start "ss @ tt" "ends_at mid tt" t] t
  show ?case by simp
qed

lemma timeline_within:
  assumes "timeline p start ss cursor"
  shows "\<forall>s \<in> set ss. scheduled \<lparr>r_start = start, r_stop = cursor\<rparr> s" and "start \<le>s cursor"
proof -
  have "(\<forall>s \<in> set ss. start \<le>s s_start s \<and> s_start s \<le>s s_stop s \<and> s_stop s \<le>s ends_at start ss) \<and> start \<le>s ends_at start ss"
    if "contiguous start ss" "\<forall>s \<in> set ss. s_start s \<le>s s_stop s"
    using that
    by (induction ss rule: rev_induct) (fastforce simp: contiguous_snoc ends_at_def sint_simps)+
  moreover have "\<forall>s \<in> set ss. scheduled p s" "contiguous start ss" "ends_at start ss = cursor"
    using assms by (simp_all add: timeline_def)
  moreover from this have "\<forall>s \<in> set ss. s_start s \<le>s s_stop s"
    using scheduled_inside by (fastforce simp: inside_def)
  ultimately have *: "\<forall>s \<in> set ss. start \<le>s s_start s \<and> s_start s \<le>s s_stop s \<and> s_stop s \<le>s cursor" "start \<le>s cursor"
    and sched: "\<forall>s \<in> set ss. scheduled p s" by blast+
  show "start \<le>s cursor" by (fact *)
  show "\<forall>s \<in> set ss. scheduled \<lparr>r_start = start, r_stop = cursor\<rparr> s"
  proof
    fix s assume s: "s \<in> set ss"
    have "inside (step_span s) \<lparr>r_start = start, r_stop = cursor\<rparr>" using * s by (simp add: inside_def)
    then show "scheduled \<lparr>r_start = start, r_stop = cursor\<rparr> s"
      using sched s scheduled_move by blast
  qed
qed

lemma contiguous_hd: "contiguous t ss \<Longrightarrow> ss \<noteq> [] \<Longrightarrow> s_start (hd ss) = t"
  by (cases ss) simp_all

lemma ends_at_last: "ss \<noteq> [] \<Longrightarrow> ends_at t ss = s_stop (last ss)"
  by (induction ss rule: rev_induct) simp_all

lemma timeline_group:
  assumes "timeline p start ss cursor" and "ss \<noteq> []" and "0 <s r_start p" and "r_start p \<le>s start"
  shows "timeline p start [Step_result name v None [] (s_start (hd ss)) (s_stop (last ss)) ss []] cursor"
proof -
  have ends: "s_start (hd ss) = start" "s_stop (last ss) = cursor"
    using assms(1) contiguous_hd [OF _ assms(2)] ends_at_last [OF assms(2)] unfolding timeline_def by simp_all
  have "inside \<lparr>r_start = start, r_stop = cursor\<rparr> p"
    using assms timeline_within(2) [OF assms(1)] by (auto simp: timeline_def room_def inside_def)
  then have "scheduled p (Step_result name v None [] start cursor ss [])"
    using timeline_within(1) [OF assms(1)] assms(1) unfolding scheduled.simps timeline_def by blast
  moreover have "room p cursor" using assms(1) by (simp add: timeline_def)
  ultimately show ?thesis by (simp add: timeline_def ends ends_at_def del: scheduled.simps)
qed

lemma timeline_add_section:
  assumes "timeline p start groups cursor" and "timeline p cursor steps cur"
  shows "timeline p start (add_section name mode steps groups) cur"
proof (cases "steps = []")
  case True
  then show ?thesis using assms by (simp add: add_section_def timeline_def ends_at_def)
next
  case False
  have "0 <s r_start p" "r_start p \<le>s cursor" using assms(1) by (simp_all add: timeline_def room_def inside_def)
  then show ?thesis
    using timeline_append [OF assms] timeline_append [OF assms(1) timeline_group [OF assms(2) False]] False
    by (simp add: add_section_def)
qed

lemma honest_add_section:
  "\<forall>s \<in> set groups. honest s \<Longrightarrow> \<forall>s \<in> set steps. honest s \<Longrightarrow> \<forall>s \<in> set (add_section name mode steps groups). honest s"
  using honest_iff [of "Step_result name (aggregate_step_status steps) None [] (s_start (hd steps)) (s_stop (last steps)) steps []"]
    aggregate_passed_iff [of steps] by (auto simp: add_section_def)

text \<open>One round of the loop over the sections.\<close>

lemma map_sections_Cons:
  assumes "map_sections lib m c atts p (sec # secs) groups ws cursor w = (out, ws', e, w')"
  obtains (skip) "map_sections lib m c atts p secs groups ws cursor w = (out, ws', e, w')"
  | (failed) x where "out = []" "e = Some x"
  | (mapped) name mode items steps cur current w1 where
      "map_items lib m c atts 0 p items cursor w = (steps, cur, current, None, w1)"
      "map_sections lib m c atts p secs (add_section name mode steps groups) (ws @ current) cur w1 = (out, ws', e, w')"
proof -
  obtain name mode items where sec: "sec = (name, mode, items)" by (cases sec)
  obtain steps cur current x w1 where run: "map_items lib m c atts 0 p items cursor w = (steps, cur, current, x, w1)"
    by (metis prod_cases5)
  show thesis
  proof (cases "mode = ''fixtures''")
    case True
    then show ?thesis using assms sec skip by simp
  next
    case False
    then show ?thesis using assms sec run mapped failed by (cases x) auto
  qed
qed

lemma map_sections_timeline:
  "map_sections lib m c atts p secs groups ws cursor w = (out, ws', None, w') \<Longrightarrow> timeline p start groups cursor \<Longrightarrow>
     \<exists>cur. timeline p start out cur"
proof (induction secs arbitrary: groups ws cursor w)
  case (Cons sec secs)
  from Cons.prems(1) show ?case
  proof (cases rule: map_sections_Cons)
    case (mapped name mode items steps cur current w1)
    have "room p cursor" using Cons.prems(2) by (simp add: timeline_def)
    then have "timeline p cursor steps cur" using timeline_run(1) [OF items_run_complete [OF mapped(1)]] by simp
    then show ?thesis using Cons.IH [OF mapped(2)] timeline_add_section [OF Cons.prems(2)] by blast
  qed (use Cons in auto)
qed auto

lemma map_sections_honest:
  "map_sections lib m c atts p secs groups ws cursor w = (out, ws', e, w') \<Longrightarrow> \<forall>s \<in> set groups. honest s \<Longrightarrow>
     \<forall>s \<in> set out. honest s"
proof (induction secs arbitrary: groups ws cursor w)
  case (Cons sec secs)
  from Cons.prems(1) show ?case
  proof (cases rule: map_sections_Cons)
    case (mapped name mode items steps cur current w1)
    have "\<forall>s \<in> set steps. honest s" using honest_run(1) [OF items_run_complete [OF mapped(1)]] by simp
    then show ?thesis using Cons.IH [OF mapped(2)] honest_add_section [OF Cons.prems(2)] by blast
  qed (use Cons in auto)
qed auto

section \<open>The parts of a mapped scenario\<close>

lemma map_scenario_Inr:
  assumes "map_scenario lib m c spec it retry live existing atts spec_table w = Some (Inr a, ws, w')"
  obtains sc table identity path spec_row scenario_row uuid w1 params logical groups links where
    "scenario_of_item it = (Some sc, table)"
    "scenario_identity lib m spec it = Some (identity, path, spec_row, scenario_row)"
    "given_uuid m existing w = (Inr uuid, w1)"
    "test_parameters lib (mp_cfg m) table spec_table = Some (params, logical)"
    "scenario_steps lib m c atts sc (lv_range live) w1 = (groups, drop (length (pt_warnings
        (parse_tags lib (collect_tags spec sc) (mp_cfg m)))) ws, None, w')"
    "a = \<lparr>ra_key = attempt_key identity spec_row scenario_row retry,
       ra_result = (scenario_result lib m spec sc retry live uuid identity path
           (params @ fst (promoted_parameters lib (mp_cfg m) sc)) (logical @ snd (promoted_parameters lib (mp_cfg m) sc)))
         \<lparr>t_steps := groups, t_links := links\<rparr>\<rparr>"
proof -
  obtain sc table where sc: "scenario_of_item it = (Some sc, table)"
    using assms by (auto simp: map_scenario_def split: prod.splits option.splits)
  obtain identity path spec_row scenario_row
    where ident: "scenario_identity lib m spec it = Some (identity, path, spec_row, scenario_row)"
    using assms sc by (auto simp: map_scenario_def Option.bind_eq_Some_conv)
  obtain r w1 where new: "given_uuid m existing w = (r, w1)" by fastforce
  obtain uuid where r: "r = Inr uuid" using assms sc ident new by (cases r) (auto simp: map_scenario_def)
  obtain params logical where ps: "test_parameters lib (mp_cfg m) table spec_table = Some (params, logical)"
    using assms sc ident new r by (auto simp: map_scenario_def Option.bind_eq_Some_conv)
  obtain promoted promoted_logical where promo: "promoted_parameters lib (mp_cfg m) sc = (promoted, promoted_logical)"
    by fastforce
  obtain groups current e w2 where steps: "scenario_steps lib m c atts sc (lv_range live) w1 = (groups, current, e, w2)"
    by (metis prod_cases4)
  have e: "e = None"
    using assms sc ident new r ps promo steps by (cases e) (auto simp: map_scenario_def Let_def)
  show thesis
    by (rule that [OF sc ident new [unfolded r] ps])
      (use assms sc ident new r ps promo steps e in \<open>auto simp: map_scenario_def Let_def\<close>)
qed

lemma scenario_result_sel [simp]:
  "t_uuid (scenario_result lib m spec sc retry live uuid identity path params logical) = uuid"
  "t_full_name (scenario_result lib m spec sc retry live uuid identity path params logical) = identity"
  "t_case_id (scenario_result lib m spec sc retry live uuid identity path params logical) = test_case_id identity"
  "t_history_id (scenario_result lib m spec sc retry live uuid identity path params logical) =
     history_id (test_case_id identity) logical"
  "t_start (scenario_result lib m spec sc retry live uuid identity path params logical) = r_start (lv_range live)"
  "t_stop (scenario_result lib m spec sc retry live uuid identity path params logical) = r_stop (lv_range live)"
  "t_status (scenario_result lib m spec sc retry live uuid identity path params logical) = fst (scenario_status lib sc)"
  "t_params (scenario_result lib m spec sc retry live uuid identity path params logical) = params @ retry_parameters retry"
  "t_labels (scenario_result lib m spec sc retry live uuid identity path params logical) =
     dedupe_labels (scenario_labels m live retry identity path spec (collect_tags spec sc)
       (pt_labels (parse_tags lib (collect_tags spec sc) (mp_cfg m))))"
  by (simp_all add: scenario_result_def Let_def split: prod.split)

lemma given_uuid_plain:
  assumes "uuid_source (mp_new_uuid m)" and "given_uuid m existing w = (Inr uuid, w')"
  shows "uuid \<noteq> []" and "existing \<noteq> [] \<Longrightarrow> uuid = existing"
  using assms uuid_source.new_plain [of "mp_new_uuid m"] by (auto simp: given_uuid_def split: if_splits)

lemma dedupe_labels_spec:
  "distinct (dedupe_labels ls)"
  "l \<in> set (dedupe_labels ls) \<Longrightarrow> l \<in> set ls \<and> l_name l \<noteq> [] \<and> l_value l \<noteq> []"
  "l \<in> set ls \<Longrightarrow> l_name l \<noteq> [] \<Longrightarrow> l_value l \<noteq> [] \<Longrightarrow>
     \<exists>k \<in> set (dedupe_labels ls). label_key (l_name k) (l_value k) = label_key (l_name l) (l_value l)"
proof -
  let ?key = "\<lambda>l. label_key (l_name l) (l_value l)"
  let ?kept = "filter (\<lambda>l. l_name l \<noteq> [] \<and> l_value l \<noteq> []) ls"
  show "distinct (dedupe_labels ls)"
    using dedupe_by_distinct [of ?key "{}" ?kept] by (simp add: dedupe_labels_def distinct_map)
  show "l \<in> set ls \<and> l_name l \<noteq> [] \<and> l_value l \<noteq> []" if "l \<in> set (dedupe_labels ls)"
    using that dedupe_by_subset [of ?key "{}" ?kept] by (auto simp: dedupe_labels_def)
  show "\<exists>k \<in> set (dedupe_labels ls). ?key k = ?key l" if "l \<in> set ls" "l_name l \<noteq> []" "l_value l \<noteq> []"
  proof -
    have "?key l \<in> ?key ` set ?kept" using that by auto
    then have "?key l \<in> ?key ` set (dedupe_labels ls)"
      using dedupe_by_set_key [of ?key "{}" ?kept] by (simp add: dedupe_labels_def)
    then show ?thesis by auto
  qed
qed

lemma label_key_plain:
  assumes "label_key n v = label_key n' v'" and "nul \<notin> set n'" and "nul \<notin> set v'"
  shows "n = n' \<and> v = v'"
proof -
  have "n @ nul # v = n' @ nul # v'" using assms(1) by (simp add: label_key_def)
  then show ?thesis using assms(2,3) by (auto simp: append_eq_append_conv2 Cons_eq_append_conv append_eq_Cons_conv)
qed

lemma label_kept:
  assumes "l \<in> set ls" and "l_name l \<noteq> []" and "l_value l \<noteq> []" and "nul \<notin> set (l_name l)" and "nul \<notin> set (l_value l)"
  shows "l \<in> set (dedupe_labels ls)"
proof -
  obtain k where k: "k \<in> set (dedupe_labels ls)" "label_key (l_name k) (l_value k) = label_key (l_name l) (l_value l)"
    using dedupe_labels_spec(3) [OF assms(1-3)] by blast
  then have "l_name k = l_name l \<and> l_value k = l_value l" using label_key_plain assms(4,5) by blast
  then have "k = l" by (cases k; cases l) simp
  then show ?thesis using k(1) by simp
qed

lemma scenario_labels_mem:
  "\<lparr>l_name = ''framework'', l_value = ''Gauge''\<rparr> \<in> set (scenario_labels m live retry identity path spec tags ls)"
  "tag \<in> set tags \<Longrightarrow>
     \<lparr>l_name = ''tag'', l_value = tag\<rparr> \<in> set (scenario_labels m live retry identity path spec tags ls)"
  by (simp_all add: scenario_labels_def Let_def del: first_nonblank.simps)

lemma scenario_cells_None: "scenario_cells td = None \<Longrightarrow> sint (td_scenario_row_index td) < 0"
  by (auto simp: scenario_cells_def go_index_def Let_def split: option.splits if_splits)

lemma test_parameters_total:
  assumes "\<And>t. table = Some t \<Longrightarrow> 0 \<le> sint (td_scenario_row_index (ptd_fields t))"
  shows "test_parameters u cfg table spec_table \<noteq> None"
proof (cases table)
  case (Some t)
  have "scenario_cells (ptd_fields t) \<noteq> None"
    using assms [OF Some] scenario_cells_None [of "ptd_fields t"] by fastforce
  then show ?thesis by (auto simp: test_parameters_def Let_def Some split: option.split)
qed (simp add: test_parameters_def)

lemma ascii_first: "\<forall>v \<in> set vs. is_ascii v \<Longrightarrow> is_ascii (first_nonblank vs)"
  by (induction vs) (auto simp: is_ascii_def)

lemma scenario_identity_total:
  assumes "is_ascii (mp_root m)" and "is_ascii (pr_file spec)" and "is_ascii (pi_file it)"
  shows "scenario_identity u m spec it \<noteq> None"
proof -
  obtain path where "canonical_path u (mp_root m) (first_nonblank [pr_file spec, pi_file it]) = Some path"
    using canonical_path_total [OF assms(1) ascii_first [of "[pr_file spec, pi_file it]"], of u] assms(2,3) by auto
  then show ?thesis
    by (cases "scenario_of_item it") (simp add: scenario_identity_def Let_def del: first_nonblank.simps split: option.split)
qed

lemma scenario_total:
  assumes "is_ascii (mp_root m)" and "is_ascii (pr_file spec)" and "is_ascii (pi_file it)"
    and "\<And>t. snd (scenario_of_item it) = Some t \<Longrightarrow> 0 \<le> sint (td_scenario_row_index (ptd_fields t))"
  shows "map_scenario lib m c spec it retry live existing atts spec_table w \<noteq> None"
proof -
  obtain sc table where sc: "scenario_of_item it = (sc, table)" by fastforce
  obtain identity path spec_row scenario_row
    where ident: "scenario_identity lib m spec it = Some (identity, path, spec_row, scenario_row)"
    using scenario_identity_total [OF assms(1-3), of lib] by auto
  have "test_parameters lib (mp_cfg m) table spec_table \<noteq> None"
    by (rule test_parameters_total) (use assms(4) sc in simp)
  then obtain ps logical where "test_parameters lib (mp_cfg m) table spec_table = Some (ps, logical)" by auto
  then show ?thesis
    using sc ident by (auto simp: map_scenario_def Let_def split: option.split sum.split prod.split)
qed

lemma inspect_items_failed: "inspect_items items = Some v \<Longrightarrow> er_failed v"
  by (induction items rule: inspect_items.induct)
    (auto simp: failed_step_def split: option.splits if_splits)

section \<open>A concrete scenario\<close>

definition demo_scenario :: "string list \<Rightarrow> proto_scenario" where
  "demo_scenario tags = Proto_scenario (no_scenario_fields\<lparr>sc_id := ''id'', sc_heading := ''s'', sc_status := Passed_exec,
     sc_tags := tags\<rparr>) [] [Some (step_item ''s'' [])] []"

definition scenario_item :: "proto_scenario \<Rightarrow> proto_item" where
  "scenario_item sc = Proto_item Scenario_item None None (Some sc) None None None None []"

definition demo_spec :: "proto_item list \<Rightarrow> proto_spec" where
  "demo_spec items = no_spec\<lparr>pr_heading := ''d'', pr_file := ''/p/a.spec'', pr_items := map Some items\<rparr>"

abbreviation demo_live :: live_info where
  "demo_live \<equiv> \<lparr>lv_range = demo_span, lv_stream = 1, lv_runner = 2, lv_retry = 0\<rparr>"

lemma demo_scenario_of_item [simp]: "scenario_of_item (scenario_item sc) = (Some sc, None)"
  by (simp add: scenario_of_item_def scenario_item_def)

lemma demo_identity [simp]:
  "scenario_identity plain_mime (demo_mapper strict) (demo_spec items) (scenario_item (demo_scenario tags)) =
     Some (''p::a.spec::id'', ''a.spec'', 0, 0)"
proof -
  have "canonical_path plain_mime ''/p'' (first_nonblank [''/p/a.spec'', []]) = Some ''a.spec''"
    "first_nonblank [[], [], base ''/p''] = ''p''"
    "scenario_identity_text ''p'' ''a.spec'' ''id'' ''s'' 0 0 = ''p::a.spec::id''" by code_simp+
  then show ?thesis
    by (simp add: scenario_identity_def demo_mapper_def demo_spec_def no_spec_def scenario_item_def demo_scenario_def
        no_scenario_fields_def scenario_of_item_def env_get_def del: first_nonblank.simps)
qed

lemma demo_steps [simp]:
  "scenario_steps plain_mime (demo_mapper strict) None atts (demo_scenario tags) demo_span w =
     ([Step_result ''Steps'' Passed None [] 100 105 [Step_result ''s'' Passed None [] 100 105 [] []] []], [], None, w)"
proof -
  have modes: "c_context_mode (mp_cfg (demo_mapper strict)) = ''grouped-steps''"
    "c_teardown_mode (mp_cfg (demo_mapper strict)) = ''grouped-steps''"
    by (simp_all add: demo_mapper_def defaults_def)
  have none: "map_items plain_mime (demo_mapper strict) None atts 0 demo_span [] cursor w = ([], cursor, [], None, w)" for cursor
    by (simp add: demo_run)
  have one: "map_items plain_mime (demo_mapper strict) None atts 0 demo_span [Some (step_item ''s'' [])] 100 w =
      ([Step_result ''s'' Passed None [] 100 105 [] []], 105, [], None, w)"
    by (simp add: demo_run)
  show ?thesis
    by (simp add: scenario_steps_def demo_scenario_def modes none one add_section_def aggregate_step_status_def)
qed

lemma demo_mapped:
  assumes "u \<noteq> []"
  shows "\<exists>a. map_scenario plain_mime (demo_mapper strict) None (demo_spec items) (scenario_item (demo_scenario tags)) retry
     demo_live u atts None w =
       Some (Inr a, pt_warnings (parse_tags plain_mime (collect_tags (demo_spec items) (demo_scenario tags))
         (mp_cfg (demo_mapper strict))), w) \<and> ra_key a = attempt_key ''p::a.spec::id'' 0 0 retry \<and> t_uuid (ra_result a) = u"
proof -
  have "c_promote (mp_cfg (demo_mapper strict)) = []" by (simp add: demo_mapper_def defaults_def)
  then show ?thesis
    using assms by (simp add: map_scenario_def given_uuid_def test_parameters_def promoted_parameters_def Let_def)
qed

section \<open>Properties\<close>

text \<open>
  C19.  A scenario is reported as passed exactly when Gauge reports it passed, without skip errors and
  without a failed hook; and as failed exactly when Gauge reports it failed, nothing was skipped, no hook
  failed, and the first failed step shows an assertion or a verification failure.
\<close>

theorem scenario_verdict:
  "(fst (scenario_status u sc) = Passed \<longleftrightarrow>
      sc_status (ps_fields sc) = Passed_exec \<and> sc_skip_errors (ps_fields sc) = [] \<and>
      sc_pre_failure (ps_fields sc) = None \<and> sc_post_failure (ps_fields sc) = None) \<and>
   (fst (scenario_status u sc) = Failed \<longleftrightarrow>
      sc_status (ps_fields sc) = Failed_exec \<and> sc_skip_errors (ps_fields sc) = [] \<and>
      sc_pre_failure (ps_fields sc) = None \<and> sc_post_failure (ps_fields sc) = None \<and>
      (\<exists>v. find_step_failure sc = Some v \<and> er_failed v \<and>
         failure_kind u (Some v) \<in> {Error_assertion, Error_verification}))"
proof -
  have kind: "failure_kind u (find_step_failure sc) \<in> {Error_assertion, Error_verification} \<longleftrightarrow>
      (\<exists>v. find_step_failure sc = Some v \<and> er_failed v \<and> failure_kind u (Some v) \<in> {Error_assertion, Error_verification})"
    by (cases "find_step_failure sc") (auto simp: failure_kind_def find_step_failure_def dest: inspect_items_failed)
  have spaces: "trim_space [] = []" by (simp add: trim_space_def)
  show ?thesis
    unfolding kind [symmetric]
    by (auto simp: scenario_status_def Let_def from_execution_status_def spaces split: execution_status.splits)
qed

text \<open>
  C16.  Attempts share their history.  Two attempts at the same item of a specification have the same test
  case identifier and the same history identifier, whatever their retry, live data, attachments and
  result identifiers; and attempts with different retry numbers have different keys.
\<close>

theorem attempts_share_history:
  assumes "map_scenario lib m c spec it retry live existing atts spec_table w = Some (Inr a, ws, w')"
    and "map_scenario lib m c' spec it retry' live' existing' atts' spec_table v = Some (Inr b, vs, v')"
  shows "t_case_id (ra_result a) = t_case_id (ra_result b) \<and> t_history_id (ra_result a) = t_history_id (ra_result b) \<and>
    (ra_key a = ra_key b \<longleftrightarrow> retry = retry')"
  by (rule map_scenario_Inr [OF assms(1)], rule map_scenario_Inr [OF assms(2)]) (auto dest: attempt_key_inj_aux)

theorem attempts_share_history_witness:
  "\<exists>a b ws vs w' v'.
     map_scenario plain_mime (demo_mapper False) None (demo_spec []) (scenario_item (demo_scenario [])) 0 demo_live ''u''
       True None (calm_world shots_fs) = Some (Inr a, ws, w') \<and>
     map_scenario plain_mime (demo_mapper False) None (demo_spec []) (scenario_item (demo_scenario [])) 1 demo_live ''v''
       False None (calm_world shots_fs) = Some (Inr b, vs, v') \<and>
     t_history_id (ra_result a) = t_history_id (ra_result b) \<and> ra_key a \<noteq> ra_key b"
proof -
  obtain a ws w' where a: "map_scenario plain_mime (demo_mapper False) None (demo_spec []) (scenario_item (demo_scenario []))
      0 demo_live ''u'' True None (calm_world shots_fs) = Some (Inr a, ws, w')"
    using demo_mapped [of "''u''" False "[]" "[]" 0 True "calm_world shots_fs"] by auto
  obtain b vs v' where b: "map_scenario plain_mime (demo_mapper False) None (demo_spec []) (scenario_item (demo_scenario []))
      1 demo_live ''v'' False None (calm_world shots_fs) = Some (Inr b, vs, v')"
    using demo_mapped [of "''v''" False "[]" "[]" 1 False "calm_world shots_fs"] by auto
  show ?thesis using a b attempts_share_history [OF a b] by auto
qed

text \<open>
  C17.  The steps of a result.  When the range of an attempt is known and ordered, the result carries
  exactly this range, its steps follow each other without gaps from its start, every step at every depth
  lies inside its parent, grouped sections included, and no step is passed above one that is not.
\<close>

theorem scenario_steps_on_time:
  assumes "map_scenario lib m c spec it retry live existing atts spec_table w = Some (Inr a, ws, w')"
    and "0 <s r_start (lv_range live)" and "ordered (lv_range live)"
  shows "\<lparr>r_start = t_start (ra_result a), r_stop = t_stop (ra_result a)\<rparr> = lv_range live \<and>
    contiguous (t_start (ra_result a)) (t_steps (ra_result a)) \<and>
    (\<forall>s \<in> set (t_steps (ra_result a)). scheduled (lv_range live) s \<and> honest s)"
proof (rule map_scenario_Inr [OF assms(1)])
  fix sc table identity path spec_row scenario_row uuid w1 params logical groups links current
  assume steps: "scenario_steps lib m c atts sc (lv_range live) w1 = (groups, drop (length (pt_warnings
        (parse_tags lib (collect_tags spec sc) (mp_cfg m)))) ws, None, w')"
    and a: "a = \<lparr>ra_key = attempt_key identity spec_row scenario_row retry,
       ra_result = (scenario_result lib m spec sc retry live uuid identity path
           (params @ fst (promoted_parameters lib (mp_cfg m) sc)) (logical @ snd (promoted_parameters lib (mp_cfg m) sc)))
         \<lparr>t_steps := groups, t_links := links\<rparr>\<rparr>"
  have "room (lv_range live) (r_start (lv_range live))"
    using assms(2,3) by (simp add: room_def inside_def ordered_def sint_simps)
  from map_sections_timeline [OF steps [unfolded scenario_steps_def] timeline_Nil [OF this]]
  have "contiguous (r_start (lv_range live)) groups" "\<forall>s \<in> set groups. scheduled (lv_range live) s"
    by (auto simp: timeline_def)
  moreover have "\<forall>s \<in> set groups. honest s"
    by (rule map_sections_honest [OF steps [unfolded scenario_steps_def]]) simp
  ultimately show ?thesis by (simp add: a)
qed

theorem scenario_steps_on_time_witness:
  "\<exists>a ws w'. map_scenario plain_mime (demo_mapper False) None (demo_spec []) (scenario_item (demo_scenario [])) 0 demo_live
       ''u'' True None (calm_world shots_fs) = Some (Inr a, ws, w') \<and>
     contiguous 100 (t_steps (ra_result a)) \<and> (\<forall>s \<in> set (t_steps (ra_result a)). scheduled demo_span s \<and> honest s)"
proof -
  obtain a ws w' where a: "map_scenario plain_mime (demo_mapper False) None (demo_spec []) (scenario_item (demo_scenario []))
      0 demo_live ''u'' True None (calm_world shots_fs) = Some (Inr a, ws, w')"
    using demo_mapped [of "''u''" False "[]" "[]" 0 True "calm_world shots_fs"] by auto
  show ?thesis using a scenario_steps_on_time [OF a] by (auto simp: ordered_def sint_simps)
qed

text \<open>
  Labels are never repeated, never without a name or a value, name the framework, and carry every
  tag of the specification and of the scenario.
\<close>

theorem result_labels:
  assumes "map_scenario lib m c spec it retry live existing atts spec_table w = Some (Inr a, ws, w')"
    and "scenario_of_item it = (Some sc, table)"
  shows "distinct (t_labels (ra_result a)) \<and>
    (\<forall>l \<in> set (t_labels (ra_result a)). l_name l \<noteq> [] \<and> l_value l \<noteq> []) \<and>
    \<lparr>l_name = ''framework'', l_value = ''Gauge''\<rparr> \<in> set (t_labels (ra_result a)) \<and>
    (\<forall>tag \<in> set (pr_tags spec) \<union> set (sc_tags (ps_fields sc)). tag \<noteq> [] \<longrightarrow> nul \<notin> set tag \<longrightarrow>
       \<lparr>l_name = ''tag'', l_value = tag\<rparr> \<in> set (t_labels (ra_result a)))"
proof (rule map_scenario_Inr [OF assms(1)])
  fix sc' table identity path spec_row scenario_row uuid w1 params logical groups links current
  assume sc': "scenario_of_item it = (Some sc', table)"
    and a: "a = \<lparr>ra_key = attempt_key identity spec_row scenario_row retry,
       ra_result = (scenario_result lib m spec sc' retry live uuid identity path
           (params @ fst (promoted_parameters lib (mp_cfg m) sc')) (logical @ snd (promoted_parameters lib (mp_cfg m) sc')))
         \<lparr>t_steps := groups, t_links := links\<rparr>\<rparr>"
  have sc: "sc' = sc" using sc' assms(2) by simp
  let ?all = "scenario_labels m live retry identity path spec (collect_tags spec sc)
      (pt_labels (parse_tags lib (collect_tags spec sc) (mp_cfg m)))"
  have labels: "t_labels (ra_result a) = dedupe_labels ?all" by (simp add: a sc)
  have "\<lparr>l_name = ''framework'', l_value = ''Gauge''\<rparr> \<in> set (dedupe_labels ?all)"
    by (rule label_kept) (simp_all add: scenario_labels_mem)
  moreover have "\<lparr>l_name = ''tag'', l_value = tag\<rparr> \<in> set (dedupe_labels ?all)"
    if "tag \<in> set (pr_tags spec) \<union> set (sc_tags (ps_fields sc))" "tag \<noteq> []" "nul \<notin> set tag" for tag
  proof (rule label_kept)
    have "tag \<in> set (collect_tags spec sc)"
      using that dedupe_by_set_key [where k = "id :: string \<Rightarrow> string" and seen = "{}"] by (auto simp: collect_tags_def)
    then show "\<lparr>l_name = ''tag'', l_value = tag\<rparr> \<in> set ?all" by (rule scenario_labels_mem)
  qed (use that in simp_all)
  ultimately show ?thesis using dedupe_labels_spec(1) [of ?all] dedupe_labels_spec(2) [of _ ?all] unfolding labels by blast
qed

theorem result_labels_witness:
  "\<exists>a ws w'. map_scenario plain_mime (demo_mapper False) None (demo_spec []) (scenario_item (demo_scenario [''smoke'']))
       0 demo_live ''u'' True None (calm_world shots_fs) = Some (Inr a, ws, w') \<and>
     \<lparr>l_name = ''tag'', l_value = ''smoke''\<rparr> \<in> set (t_labels (ra_result a))"
proof -
  obtain a ws w' where a: "map_scenario plain_mime (demo_mapper False) None (demo_spec [])
      (scenario_item (demo_scenario [''smoke''])) 0 demo_live ''u'' True None (calm_world shots_fs) = Some (Inr a, ws, w')"
    using demo_mapped [of "''u''" False "[]" "[''smoke'']" 0 True "calm_world shots_fs"] by auto
  show ?thesis
    using a result_labels [OF a demo_scenario_of_item] by (auto simp: demo_scenario_def)
qed

text \<open>
  Mapping a scenario panics only on file names outside ASCII or on a negative row number: for ASCII
  paths and a row number Gauge's tables have, it always returns, with a result or an error.
\<close>

theorem scenario_no_panic:
  assumes "is_ascii (mp_root m)" and "is_ascii (pr_file spec)" and "is_ascii (pi_file it)"
    and "\<And>t. snd (scenario_of_item it) = Some t \<Longrightarrow> 0 \<le> sint (td_scenario_row_index (ptd_fields t))"
  shows "map_scenario lib m c spec it retry live existing atts spec_table w \<noteq> None"
  using scenario_total assms by blast

theorem scenario_no_panic_witness:
  "map_scenario plain_mime (demo_mapper False) None (demo_spec []) (scenario_item (demo_scenario [])) 0 demo_live []
     True None (calm_world shots_fs) \<noteq> None"
proof (rule scenario_no_panic)
  show "is_ascii (mp_root (demo_mapper False))" unfolding demo_mapper_def by code_simp
  show "is_ascii (pr_file (demo_spec []))" "is_ascii (pi_file (scenario_item (demo_scenario [])))" by code_simp+
qed simp

text \<open>
  A negative row number of a scenario table is compared with the number of rows only and then used as an
  index: mapping such a scenario panics.
\<close>

lemma negative_row_panics:
  "test_parameters u cfg (Some (Proto_table_driven None \<lparr>td_row_index = 0, td_is_scenario_table = True,
     td_scenario_row_index = - 1, td_data_table = Some \<lparr>pt_headers = None, pt_rows = [Some [''x'']]\<rparr>,
     td_table_row = None\<rparr>)) st = None"
  by (simp add: test_parameters_def scenario_cells_def go_index_def)

text \<open>
  An attempt's index is one less than the number of attempts, never negative, and saturates at the
  largest 32-bit integer.
\<close>

theorem retry_index_saturates:
  "sint (retry_index attempts) = max 0 (min (sint attempts - 1) 2147483647)"
proof -
  have "sint (attempts - 1) = sint attempts - 1" if "1 < sint attempts"
    using that sint64_bounds [of attempts] by (subst sint_sub64_exact) simp_all
  moreover have "sint (word_of_int (sint (attempts - 1)) :: int32) = sint (attempts - 1)"
    if "1 < sint attempts" "sint attempts \<le> 2147483648"
    using that calculation by (intro sint_of_int32) simp_all
  ultimately show ?thesis
    unfolding retry_index_def by (cases "attempts \<le>s 1"; cases "2147483648 <s attempts") (auto simp only: sint_simps if_True if_False, simp_all)
qed

text \<open>
  The range of an attempt without live data can be reversed: when the attempts before it took longer than
  the specification reports, it starts at the cursor, after the end it is cut to.
\<close>

lemma fallback_range_reversed:
  "lv_range (fallback_live 50 10 \<lparr>r_start = 0, r_stop = 40\<rparr> 0) = \<lparr>r_start = 50, r_stop = 40\<rparr>"
  by (simp add: fallback_live_def max64_def word_sless_alt)

end
