(* ===== verification/Suite_Reconciliation.thy ===== *)
theory Suite_Reconciliation
  imports Scenario_Results
begin

text \<open>
  What the reconciliation of a suite guarantees: every scenario is accounted for, containers refer to
  results of the same output, identifiers and ranges of the live results are kept, the output is sorted,
  and nothing panics on ordinary paths.

  The loops are flows over the progress of the reconciliation.  Two interfaces say what is proved of a
  flow step by step and then holds of the whole: a relation between the states before and after, and an
  account of the keys it adds.
\<close>

section \<open>Interfaces of flows\<close>

definition upholds :: "(progress \<Rightarrow> progress \<Rightarrow> bool) \<Rightarrow> flow \<Rightarrow> bool" where
  "upholds R f \<longleftrightarrow> (\<forall>s w s' e w'. f s w = Some (s', e, w') \<longrightarrow> R s s')"

lemma upholdsI: "(\<And>s w s' e w'. f s w = Some (s', e, w') \<Longrightarrow> R s s') \<Longrightarrow> upholds R f"
  by (auto simp: upholds_def)

lemma upholdsD: "upholds R f \<Longrightarrow> f s w = Some (s', e, w') \<Longrightarrow> R s s'"
  unfolding upholds_def by blast

locale flow_relation =
  fixes R :: "progress \<Rightarrow> progress \<Rightarrow> bool"
  assumes same: "R s s" and chain: "R a b \<Longrightarrow> R b c \<Longrightarrow> R a c"
begin

lemma after_flow_upholds:
  assumes "upholds R f" and "upholds R g"
  shows "upholds R (after_flow f g)"
proof (rule upholdsI)
  fix s w s' e w'
  assume run: "after_flow f g s w = Some (s', e, w')"
  then obtain s1 x w1 where f: "f s w = Some (s1, x, w1)"
    by (auto simp: after_flow_def split: option.splits)
  show "R s s'"
  proof (cases x)
    case None
    then have "g s1 w1 = Some (s', e, w')" using run f by (simp add: after_flow_def)
    then show ?thesis using assms upholdsD [OF assms(1) f] upholdsD chain by blast
  next
    case (Some x)
    then show ?thesis using run f upholdsD [OF assms(1) f] by (simp add: after_flow_def)
  qed
qed

lemma each_flow_upholds:
  assumes "\<And>x. x \<in> set xs \<Longrightarrow> upholds R (f x)"
  shows "upholds R (each_flow f xs)"
  using assms
proof (induction xs)
  case Nil
  show ?case by (rule upholdsI) (simp add: same)
next
  case (Cons x xs)
  have "each_flow f (x # xs) = after_flow (f x) (each_flow f xs)"
    by (intro ext) (simp add: after_flow_def)
  then show ?case using Cons after_flow_upholds by simp
qed

end

definition accounts :: "(string list \<Rightarrow> progress \<Rightarrow> progress \<Rightarrow> bool) \<Rightarrow> string list \<Rightarrow> flow \<Rightarrow> bool" where
  "accounts A ks f \<longleftrightarrow> (\<forall>s w s' w'. f s w = Some (s', None, w') \<longrightarrow> A ks s s')"

lemma accountsI: "(\<And>s w s' w'. f s w = Some (s', None, w') \<Longrightarrow> A ks s s') \<Longrightarrow> accounts A ks f"
  by (auto simp: accounts_def)

lemma accountsD: "accounts A ks f \<Longrightarrow> f s w = Some (s', None, w') \<Longrightarrow> A ks s s'"
  unfolding accounts_def by blast

locale flow_account =
  fixes A :: "string list \<Rightarrow> progress \<Rightarrow> progress \<Rightarrow> bool"
  assumes none_added: "A [] s s" and both: "A ks a b \<Longrightarrow> A ls b c \<Longrightarrow> A (ks @ ls) a c"
begin

lemma after_flow_accounts:
  assumes "accounts A ks f" and "accounts A ls g"
  shows "accounts A (ks @ ls) (after_flow f g)"
proof (rule accountsI)
  fix s w s' w'
  assume run: "after_flow f g s w = Some (s', None, w')"
  then obtain s1 w1 where "f s w = Some (s1, None, w1)" "g s1 w1 = Some (s', None, w')"
    by (auto simp: after_flow_def split: option.splits)
  then show "A (ks @ ls) s s'" using assms accountsD both by blast
qed

lemma each_flow_accounts:
  assumes "\<And>x. x \<in> set xs \<Longrightarrow> accounts A (K x) (f x)"
  shows "accounts A (concat (map K xs)) (each_flow f xs)"
  using assms
proof (induction xs)
  case Nil
  show ?case by (rule accountsI) (simp add: none_added)
next
  case (Cons x xs)
  have "each_flow f (x # xs) = after_flow (f x) (each_flow f xs)"
    by (intro ext) (simp add: after_flow_def)
  then show ?case using Cons after_flow_accounts [of "K x" "f x"] by simp
qed

end

section \<open>The state of the reconciliation\<close>

text \<open>
  The collected identifiers are those of the results; those of the current specification are among them;
  every container has an identifier and children, all of them results; and every result satisfies \<open>P\<close>.
\<close>

definition linked :: "string set \<Rightarrow> container \<Rightarrow> bool" where
  "linked ids box \<longleftrightarrow> o_uuid box \<noteq> [] \<and> o_children box \<noteq> [] \<and> set (o_children box) \<subseteq> ids"

lemma linked_insert: "linked ids box \<Longrightarrow> linked (insert x ids) box"
  by (auto simp: linked_def)

definition sound :: "(result_artifact \<Rightarrow> bool) \<Rightarrow> progress \<Rightarrow> bool" where
  "sound P s \<longleftrightarrow>
     pg_children s = map (\<lambda>a. t_uuid (ra_result a)) (so_results (pg_out s)) \<and>
     set (pg_spec_children s) \<subseteq> set (pg_children s) \<and>
     (\<forall>box \<in> set (so_containers (pg_out s)). linked (set (pg_children s)) box) \<and>
     (\<forall>a \<in> set (so_results (pg_out s)). P a)"

interpretation soundness: flow_relation "\<lambda>s s'. sound P s \<longrightarrow> sound P s'" for P
  by unfold_locales auto

abbreviation keeps_sound :: "(result_artifact \<Rightarrow> bool) \<Rightarrow> flow \<Rightarrow> bool" where
  "keeps_sound P \<equiv> upholds (\<lambda>s s'. sound P s \<longrightarrow> sound P s')"

lemma add_warnings_sel [simp]:
  "so_results (pg_out (add_warnings ws s)) = so_results (pg_out s)"
  "so_containers (pg_out (add_warnings ws s)) = so_containers (pg_out s)"
  "so_warnings (pg_out (add_warnings ws s)) = so_warnings (pg_out s) @ ws"
  "pg_children (add_warnings ws s) = pg_children s" "pg_spec_children (add_warnings ws s) = pg_spec_children s"
  "pg_cursor (add_warnings ws s) = pg_cursor s"
  by (simp_all add: add_warnings_def)

lemma add_result_sel [simp]:
  "so_results (pg_out (add_result a s)) = so_results (pg_out s) @ [a]"
  "so_containers (pg_out (add_result a s)) = so_containers (pg_out s)"
  "so_warnings (pg_out (add_result a s)) = so_warnings (pg_out s)"
  "pg_children (add_result a s) = pg_children s @ [t_uuid (ra_result a)]"
  "pg_spec_children (add_result a s) = pg_spec_children s"
  by (simp_all add: add_result_def)

lemma sound_warnings [simp]: "sound P (add_warnings ws s) \<longleftrightarrow> sound P s"
  by (simp add: sound_def)

lemma sound_cursor [simp]: "sound P (s\<lparr>pg_cursor := c\<rparr>) \<longleftrightarrow> sound P s"
  by (simp add: sound_def)

lemma sound_add_result: "sound P s \<Longrightarrow> P a \<Longrightarrow> sound P (add_result a s)"
  by (auto simp: sound_def intro: linked_insert)

lemma sound_add_scenario:
  "sound P s \<Longrightarrow> P a \<Longrightarrow>
     sound P (add_result a (add_warnings ws s)\<lparr>pg_spec_children := pg_spec_children s @ [t_uuid (ra_result a)]\<rparr>)"
  by (auto simp: sound_def intro: linked_insert)

lemma make_container_children:
  assumes "make_container lib m c name children r before after w = (box, ws, e, w')"
  shows "box = no_container \<or> (o_children box = children \<and> children \<noteq> [])"
    and "e = None \<Longrightarrow> children \<noteq> [] \<Longrightarrow> length (o_befores box) = 1 \<and> length (o_afters box) = 1 \<and> o_children box = children \<and>
      (uuid_source (mp_new_uuid m) \<longrightarrow> o_uuid box \<noteq> [])"
  using assms
  by (auto simp: make_container_def Let_def uuid_source.new_plain split: if_splits sum.splits prod.splits option.splits)

lemma scenario_container_children:
  assumes "scenario_container lib m c sc child r w = Some (box, ws, e, w')"
  shows "box = no_container \<or> o_children box = [child]"
proof -
  let ?f = "ps_fields sc"
  obtain b0 ws0 e0 w0 where made: "make_container lib m c (''Scenario hooks: '' @ sc_heading ?f) [child] r
      (before_side (sc_pre_failure ?f) (sc_hooks ?f)) (after_side (sc_post_failure ?f) (sc_hooks ?f)) w = (b0, ws0, e0, w0)"
    by (metis prod_cases4)
  have "b0 = no_container \<or> o_children b0 = [child]" using make_container_children(1) [OF made] by auto
  moreover have "box = b0 \<or> (e0 = None \<and> o_children box = o_children b0)"
  proof (cases e0)
    case None
    obtain s1 c1 e1 w1 where 1: "fixture_steps lib m c (c_context_mode (mp_cfg m)) (ps_contexts sc) r w0 = (s1, c1, e1, w1)"
      by (metis prod_cases4)
    obtain s2 c2 e2 w2 where 2: "fixture_steps lib m c (c_teardown_mode (mp_cfg m)) (ps_teardown sc) r w1 = (s2, c2, e2, w2)"
      by (metis prod_cases4)
    show ?thesis
      using assms unfolding scenario_container_def Let_def made None
      by (cases e1; cases e2) (auto simp: 1 2 Option.bind_eq_Some_conv)
  qed (use assms made in \<open>auto simp: scenario_container_def Let_def\<close>)
  moreover have "b0 \<noteq> no_container" if "e0 = None"
    using make_container_children(2) [OF made that] by (auto simp: no_container_def)
  ultimately show ?thesis by auto
qed

lemma sound_keep_container:
  assumes "keep_container strict (box, ws, e, w) s = (s', e', w')"
    and "box = no_container \<or> (o_children box \<noteq> [] \<and> set (o_children box) \<subseteq> set (pg_children s))"
    and "sound P s"
  shows "sound P s'"
proof -
  have "s' = add_warnings ws s \<or> (o_uuid box \<noteq> [] \<and> s' = (add_warnings ws s)\<lparr>pg_out := (pg_out (add_warnings ws s))
      \<lparr>so_containers := so_containers (pg_out (add_warnings ws s)) @ [box]\<rparr>\<rparr>)"
    using assms(1) by (auto simp: keep_container_def Let_def split: if_splits)
  moreover have "linked (set (pg_children s)) box" if "o_uuid box \<noteq> []"
    using that assms(2) by (auto simp: linked_def no_container_def)
  ultimately show ?thesis using assms(3) by (auto simp: sound_def)
qed

section \<open>Every step keeps the state sound\<close>

text \<open>
  Where a result comes from: it is one Gauge did not supply, named as such, or it keeps the identifier and
  the range recorded live under its key.
\<close>

definition faithful :: "mapper \<Rightarrow> (string \<Rightarrow> live_info option) \<Rightarrow> env_map \<Rightarrow> result_artifact \<Rightarrow> bool" where
  "faithful m live existing a \<longleftrightarrow>
     t_full_name (ra_result a) = base (mp_root m) @ ''::[synthetic]::'' @ ra_key a \<or>
     ((env_get existing (ra_key a) \<noteq> [] \<longrightarrow> t_uuid (ra_result a) = env_get existing (ra_key a)) \<and>
      (\<forall>info. live (ra_key a) = Some info \<longrightarrow>
         \<lparr>r_start = t_start (ra_result a), r_stop = t_stop (ra_result a)\<rparr> = lv_range info))"

lemma synthetic_Inr:
  "synthetic m name key message verdict start w = (Inr a, w') \<Longrightarrow>
     ra_key a = key \<and> faithful m live existing a \<and> t_status (ra_result a) = verdict"
  by (auto simp: synthetic_def faithful_def Let_def split: sum.splits prod.splits)

lemma add_synthetic_cases:
  assumes "add_synthetic (synthetic m name key message verdict start w) s = Some (s', e, w')"
  obtains (failed) x where "s' = s" "e = Some x"
  | (added) a where "s' = add_result a s" "e = None" "ra_key a = key" "\<And>live existing. faithful m live existing a"
      "t_status (ra_result a) = verdict"
  using assms synthetic_Inr
  by (cases "synthetic m name key message verdict start w"; cases "fst (synthetic m name key message verdict start w)")
    (auto simp: add_synthetic_def)

lemma sound_synthetic:
  "add_synthetic (synthetic m name key message verdict start w) s = Some (s', e, w') \<Longrightarrow>
     sound (faithful m live existing) s \<Longrightarrow> sound (faithful m live existing) s'"
  by (erule add_synthetic_cases) (auto intro: sound_add_result)

lemma map_scenario_faithful:
  assumes "map_scenario lib m c spec it retry info (env_get existing key) atts st w = Some (Inr a, ws, w')"
    and "scenario_key lib m spec it sc = Some key" and "retry = retry_index (sc_retries_count (ps_fields sc))"
    and "\<And>i. live key = Some i \<Longrightarrow> i = info"
  shows "ra_key a = key \<and> faithful m live existing a"
proof (rule map_scenario_Inr [OF assms(1)])
  fix sc' table identity path spec_row scenario_row uuid w1 params logical groups links
  assume ident: "scenario_identity lib m spec it = Some (identity, path, spec_row, scenario_row)"
    and new: "given_uuid m (env_get existing key) w = (Inr uuid, w1)"
    and a: "a = \<lparr>ra_key = attempt_key identity spec_row scenario_row retry,
       ra_result = (scenario_result lib m spec sc' retry info uuid identity path
           (params @ fst (promoted_parameters lib (mp_cfg m) sc')) (logical @ snd (promoted_parameters lib (mp_cfg m) sc')))
         \<lparr>t_steps := groups, t_links := links\<rparr>\<rparr>"
  have key: "ra_key a = key" using ident assms(2,3) a by (simp add: scenario_key_def)
  have "t_uuid (ra_result a) = env_get existing key" if "env_get existing key \<noteq> []"
    using new that a by (simp add: given_uuid_def)
  moreover have "\<lparr>r_start = t_start (ra_result a), r_stop = t_stop (ra_result a)\<rparr> = lv_range i" if "live key = Some i" for i
    using assms(4) [OF that] a by simp
  ultimately show ?thesis using key by (auto simp: faithful_def)
qed

lemma keeps_error_step: "keeps_sound (faithful m live existing) (error_step lib m spec result r entry)"
proof (rule upholdsI, rule impI)
  fix s w s' e w'
  assume run: "error_step lib m spec result r entry s w = Some (s', e, w')" and s: "sound (faithful m live existing) s"
  show "sound (faithful m live existing) s'"
    using run s sound_synthetic
    by (cases entry; cases "snd entry") (fastforce simp: error_step_def Option.bind_eq_Some_conv Let_def)+
qed

text \<open>One scenario of the loop, on success or not.\<close>

lemma scenario_step_cases:
  assumes "scenario_step lib m c live existing spec spec_range item s w = Some (s', e, w')"
  obtains (skipped) "suite_scenario item = None" "s' = s" "e = None"
  | (failed) it sc key x cur where "suite_scenario item = Some (it, sc)" "scenario_key lib m spec it sc = Some key"
      "e = Some x" "c_strict (mp_cfg m)" "s' = s\<lparr>pg_cursor := cur\<rparr>"
  | (warned) it sc key x cur where "suite_scenario item = Some (it, sc)" "scenario_key lib m spec it sc = Some key"
      "e = None" "\<not> c_strict (mp_cfg m)" "s' = add_warnings [x] (s\<lparr>pg_cursor := cur\<rparr>)"
  | (mapped) it sc key a ws cur r w1 box current x w2 where "suite_scenario item = Some (it, sc)"
      "scenario_key lib m spec it sc = Some key" "ra_key a = key" "faithful m live existing a"
      "scenario_container lib m c sc (t_uuid (ra_result a)) r w1 = Some (box, current, x, w2)"
      "keep_container (c_strict (mp_cfg m)) (box, current, x, w2)
         (add_result a (add_warnings ws (s\<lparr>pg_cursor := cur\<rparr>))
            \<lparr>pg_spec_children := pg_spec_children s @ [t_uuid (ra_result a)]\<rparr>) = (s', e, w')"
proof (cases "suite_scenario item")
  case None
  then show ?thesis using assms skipped by (simp add: scenario_step_def)
next
  case (Some p)
  obtain it sc where sc: "suite_scenario item = Some (it, sc)" using Some by (cases p) simp
  obtain key where key: "scenario_key lib m spec it sc = Some key"
    using assms sc by (auto simp: scenario_step_def Option.bind_eq_Some_conv)
  let ?retry = "retry_index (sc_retries_count (ps_fields sc))"
  obtain info where info: "info = (case live key of Some info \<Rightarrow> info
      | None \<Rightarrow> fallback_live (pg_cursor s) (sc_time (ps_fields sc)) spec_range ?retry)" by blast
  obtain made ws w1 where run: "map_scenario lib m c spec it ?retry info (env_get existing key) True (find_spec_table spec) w
      = Some (made, ws, w1)"
    using assms sc key by (auto simp: scenario_step_def Option.bind_eq_Some_conv Let_def info)
  obtain s1 where s1: "s1 = s\<lparr>pg_cursor := max64 (pg_cursor s) (r_stop (lv_range info))\<rparr>" by blast
  have step: "(case (made, ws, w1) of
      (Inl e, _, w) \<Rightarrow> if c_strict (mp_cfg m) then Some (s1, Some e, w) else Some (add_warnings [e] s1, None, w)
    | (Inr a, warnings, w) \<Rightarrow>
        do {
          let s = add_result a (add_warnings warnings s1);
          let s = s\<lparr>pg_spec_children := pg_spec_children s @ [t_uuid (ra_result a)]\<rparr>;
          made \<leftarrow> scenario_container lib m c sc (t_uuid (ra_result a)) (lv_range info) w;
          Some (keep_container (c_strict (mp_cfg m)) made s)
        }) = Some (s', e, w')"
    using assms unfolding scenario_step_def sc option.case prod.case key Let_def Option.bind.simps info [symmetric] run s1 .
  show ?thesis
  proof (cases made)
    case (Inl x)
    then show ?thesis using step sc key failed warned s1 by (auto split: if_splits)
  next
    case (Inr a)
    have "live key = Some i \<Longrightarrow> i = info" for i by (simp add: info)
    from map_scenario_faithful [OF run [unfolded Inr] key refl this]
    have a: "ra_key a = key" "faithful m live existing a" by auto
    obtain box current x w2 where made: "scenario_container lib m c sc (t_uuid (ra_result a)) (lv_range info) w1
        = Some (box, current, x, w2)"
      using step Inr by (auto simp: Let_def Option.bind_eq_Some_conv)
    show ?thesis
      by (rule mapped [OF sc key a made]) (use step Inr made s1 in \<open>simp add: Let_def\<close>)
  qed
qed

lemma keeps_scenario_step:
  "keeps_sound (faithful m live existing) (scenario_step lib m c live existing spec spec_range item)"
proof (rule upholdsI, rule impI)
  fix s w s' e w'
  assume run: "scenario_step lib m c live existing spec spec_range item s w = Some (s', e, w')"
    and s: "sound (faithful m live existing) s"
  from run show "sound (faithful m live existing) s'"
  proof (cases rule: scenario_step_cases)
    case (mapped it sc key a ws cur r w1 box current x w2)
    let ?s = "add_result a (add_warnings ws (s\<lparr>pg_cursor := cur\<rparr>))
      \<lparr>pg_spec_children := pg_spec_children s @ [t_uuid (ra_result a)]\<rparr>"
    have "sound (faithful m live existing) ?s"
      using sound_add_scenario [of _ "s\<lparr>pg_cursor := cur\<rparr>" a ws] s mapped(4) by simp
    moreover have "box = no_container \<or> (o_children box \<noteq> [] \<and> set (o_children box) \<subseteq> set (pg_children ?s))"
      using scenario_container_children [OF mapped(5)] by auto
    ultimately show ?thesis using sound_keep_container [OF mapped(6)] by blast
  qed (use s in simp_all)
qed

lemma keeps_containers:
  "keeps_sound P (spec_container_step lib m c spec r)" "keeps_sound P (suite_container_step lib m c suite r)"
proof -
  show "keeps_sound P (spec_container_step lib m c spec r)"
  proof (rule upholdsI, rule impI)
    fix s w s' e w'
    assume run: "spec_container_step lib m c spec r s w = Some (s', e, w')" and s: "sound P s"
    obtain box ws x w1 where made: "spec_container lib m c spec (pg_spec_children s) r w = (box, ws, x, w1)"
      by (metis prod_cases4)
    have "box = no_container \<or> (o_children box = pg_spec_children s \<and> pg_spec_children s \<noteq> [])"
      using made make_container_children(1) by (fastforce simp: spec_container_def split: if_splits)
    moreover have "set (pg_spec_children s) \<subseteq> set (pg_children s)" using s unfolding sound_def by blast
    ultimately show "sound P s'"
      by (intro sound_keep_container [OF _ _ s, of "c_strict (mp_cfg m)" box ws x w1 s' e w'])
        (use run made in \<open>auto simp: spec_container_step_def\<close>)
  qed
  show "keeps_sound P (suite_container_step lib m c suite r)"
  proof (rule upholdsI, rule impI)
    fix s w s' e w'
    assume run: "suite_container_step lib m c suite r s w = Some (s', e, w')" and s: "sound P s"
    obtain box ws x w1 where made: "suite_container lib m c suite (pg_children s) r w = (box, ws, x, w1)"
      by (metis prod_cases4)
    have "box = no_container \<or> (o_children box = pg_children s \<and> pg_children s \<noteq> [])"
      using made make_container_children(1) unfolding suite_container_def by blast
    then show "sound P s'"
      by (intro sound_keep_container [OF _ _ s, of "c_strict (mp_cfg m)" box ws x w1 s' e w'])
        (use run made in \<open>auto simp: suite_container_step_def\<close>)
  qed
qed

lemma keeps_new_spec:
  assumes "keeps_sound P f"
  shows "keeps_sound P (\<lambda>s w. f (s\<lparr>pg_spec_children := [], pg_cursor := t\<rparr>) w)"
proof (rule upholdsI, rule impI)
  fix s w s' e w'
  assume "f (s\<lparr>pg_spec_children := [], pg_cursor := t\<rparr>) w = Some (s', e, w')" and "sound P s"
  then show "sound P s'" using upholdsD [OF assms] by (fastforce simp: sound_def)
qed

lemma keeps_synthetic: "keeps_sound (faithful m live existing) (\<lambda>s w. add_synthetic (synthetic m name key message verdict start w) s)"
  by (rule upholdsI) (blast intro: sound_synthetic)

text \<open>The flow of one specification, by what Gauge delivered for it.\<close>

lemma spec_step_flow:
  obtains (nil) index where "entry = (index, None)"
      "spec_step lib m c live existing r entry = (\<lambda>s w. add_synthetic (synthetic m
         ''[Gauge] Invalid empty specification result'' (''protocol:nil-spec:'' @ show_nat index)
         ''Gauge supplied a nil specification result'' Broken (time_of_millis (r_start r)) w) s)"
  | (missing) index result where "entry = (index, Some result)" "sr_spec result = None"
      "spec_step lib m c live existing r entry = (\<lambda>s w. add_synthetic (synthetic m
         ''[Gauge] Invalid specification result'' (''protocol:missing-proto-spec:'' @ show_nat index)
         ''Gauge supplied a specification result without a specification'' Broken (time_of_millis (r_start r)) w) s)"
  | (given) index result spec q where "entry = (index, Some result)" "sr_spec result = Some spec"
      "spec_step lib m c live existing r entry =
         after_flow (each_flow (error_step lib m spec result r) (enumerate 0 (sr_errors result)))
           (after_flow (\<lambda>s w. each_flow (scenario_step lib m c live existing spec q) (pr_items spec)
                (s\<lparr>pg_spec_children := [], pg_cursor := r_start q\<rparr>) w)
             (spec_container_step lib m c spec q))"
proof -
  obtain index result where entry: "entry = (index, result)" by fastforce
  show thesis
  proof (cases result)
    case None
    show ?thesis by (rule nil [of index]) (auto simp: spec_step_def entry None intro!: ext)
  next
    case (Some result)
    show ?thesis
    proof (cases "sr_spec result")
      case None
      show ?thesis by (rule missing [of index result]) (auto simp: spec_step_def entry Some None intro!: ext)
    next
      case spec: (Some spec)
      show ?thesis
        by (rule given [of index result spec "resolve (sr_timestamp result) (sr_time result) (time_of_millis (r_start r))"])
          (auto simp: spec_step_def entry Some spec Let_def intro!: ext)
    qed
  qed
qed

lemma keeps_spec_step: "keeps_sound (faithful m live existing) (spec_step lib m c live existing r entry)"
  by (rule spec_step_flow [of entry lib m c live existing r])
    (simp_all only:, (intro keeps_synthetic soundness.after_flow_upholds soundness.each_flow_upholds keeps_new_spec
      keeps_error_step keeps_scenario_step keeps_containers)+)

lemma keeps_empty_step: "keeps_sound (faithful m live existing) (empty_step m suite r)"
proof (rule upholdsI, rule impI)
  fix s w s' e w'
  assume "empty_step m suite r s w = Some (s', e, w')" and "sound (faithful m live existing) s"
  then show "sound (faithful m live existing) s'"
    using sound_synthetic by (fastforce simp: empty_step_def Let_def split: if_splits)
qed

lemma keeps_reconcile: "keeps_sound (faithful m live existing) (reconcile lib m c suite live existing r)"
  unfolding reconcile_def
  by (intro soundness.after_flow_upholds soundness.each_flow_upholds keeps_spec_step keeps_empty_step keeps_containers)

section \<open>Every scenario is accounted for\<close>

text \<open>The keys a suite asks for, in order: one per invalid specification, per error, per scenario.\<close>

definition error_keys :: "'u unicode_scheme \<Rightarrow> mapper \<Rightarrow> proto_spec \<Rightarrow> nat \<times> spec_error option \<Rightarrow> string list" where
  "error_keys u m spec entry =
     (case entry of
        (_, None) \<Rightarrow> []
      | (index, Some ge) \<Rightarrow>
          (case canonical_path u (mp_root m) (first_nonblank [ge_file ge, pr_file spec]) of
             None \<Rightarrow> [] | Some path \<Rightarrow> [error_key path index ge]))"

definition scenario_keys :: "'u unicode_scheme \<Rightarrow> mapper \<Rightarrow> proto_spec \<Rightarrow> proto_item option \<Rightarrow> string list" where
  "scenario_keys u m spec item =
     (case suite_scenario item of
        None \<Rightarrow> []
      | Some (it, sc) \<Rightarrow> (case scenario_key u m spec it sc of None \<Rightarrow> [] | Some key \<Rightarrow> [key]))"

definition spec_keys :: "'u unicode_scheme \<Rightarrow> mapper \<Rightarrow> nat \<times> spec_result option \<Rightarrow> string list" where
  "spec_keys u m entry =
     (case entry of
        (index, None) \<Rightarrow> [''protocol:nil-spec:'' @ show_nat index]
      | (index, Some result) \<Rightarrow>
          (case sr_spec result of
             None \<Rightarrow> [''protocol:missing-proto-spec:'' @ show_nat index]
           | Some spec \<Rightarrow>
               concat (map (error_keys u m spec) (enumerate 0 (sr_errors result)))
               @ concat (map (scenario_keys u m spec) (pr_items spec))))"

definition suite_keys :: "'u unicode_scheme \<Rightarrow> mapper \<Rightarrow> suite_result \<Rightarrow> string list" where
  "suite_keys u m suite = concat (map (spec_keys u m) (enumerate 0 (su_specs suite)))"

text \<open>
  What a flow makes of the keys asked for: it adds results for some of them, in order, and a warning for
  every other one; in strict mode for none.
\<close>

abbreviation keys_of :: "progress \<Rightarrow> string list" where
  "keys_of s \<equiv> map ra_key (so_results (pg_out s))"

definition adds :: "bool \<Rightarrow> string list \<Rightarrow> progress \<Rightarrow> progress \<Rightarrow> bool" where
  "adds strict ks s s' \<longleftrightarrow>
     (\<exists>kept ws. keys_of s' = keys_of s @ kept \<and> so_warnings (pg_out s') = so_warnings (pg_out s) @ ws \<and>
        subseq kept ks \<and> length ks \<le> length kept + length ws \<and> (strict \<longrightarrow> kept = ks))"

lemma addsI:
  "keys_of s' = keys_of s @ kept \<Longrightarrow> so_warnings (pg_out s') = so_warnings (pg_out s) @ ws \<Longrightarrow> subseq kept ks \<Longrightarrow>
     length ks \<le> length kept + length ws \<Longrightarrow> (strict \<Longrightarrow> kept = ks) \<Longrightarrow> adds strict ks s s'"
  unfolding adds_def by blast

interpretation accounting: flow_account "adds strict" for strict
proof unfold_locales
  show "adds strict [] s s" for s by (rule addsI [of _ _ "[]" "[]"]) simp_all
  fix ks ls a b c
  assume ab: "adds strict ks a b" and bc: "adds strict ls b c"
  show "adds strict (ks @ ls) a c"
  proof -
    obtain k1 w1 where 1: "keys_of b = keys_of a @ k1" "so_warnings (pg_out b) = so_warnings (pg_out a) @ w1"
        "subseq k1 ks" "length ks \<le> length k1 + length w1" "strict \<longrightarrow> k1 = ks"
      using ab unfolding adds_def by blast
    obtain k2 w2 where 2: "keys_of c = keys_of b @ k2" "so_warnings (pg_out c) = so_warnings (pg_out b) @ w2"
        "subseq k2 ls" "length ls \<le> length k2 + length w2" "strict \<longrightarrow> k2 = ls"
      using bc unfolding adds_def by blast
    show ?thesis
      by (rule addsI [of _ _ "k1 @ k2" "w1 @ w2"])
        (use 1 2 list_emb_append_mono in \<open>simp_all add: list_emb_append_mono\<close>)
  qed
qed

abbreviation counts :: "mapper \<Rightarrow> string list \<Rightarrow> flow \<Rightarrow> bool" where
  "counts m \<equiv> accounts (adds (c_strict (mp_cfg m)))"

lemma keep_container_adds:
  assumes "keep_container strict (box, ws, e, w) s = (s', e', w')"
  shows "keys_of s' = keys_of s" "so_warnings (pg_out s') = so_warnings (pg_out s) @ ws"
  using assms by (auto simp: keep_container_def Let_def split: if_splits)

lemma keep_container_counts: "keep_container b made s = (s', e, w') \<Longrightarrow> adds strict [] s s'"
  using keep_container_adds [of b "fst made" "fst (snd made)"] by (cases made) (auto intro: addsI [of _ _ "[]"])

lemma counts_containers: "counts m [] (spec_container_step lib m c spec r)" "counts m [] (suite_container_step lib m c suite r)"
  unfolding spec_container_step_def suite_container_step_def
  by (rule accountsI, rule keep_container_counts, simp)+

lemma adds_synthetic:
  assumes "add_synthetic (synthetic m name key message verdict start w) s = Some (s', None, w')"
  shows "adds strict [key] s s'"
  using assms by (cases rule: add_synthetic_cases) (auto intro: addsI [of _ _ "[key]" "[]"])

lemma counts_error_step: "counts m (error_keys lib m spec entry) (error_step lib m spec result r entry)"
proof (rule accountsI)
  fix s w s' w'
  assume run: "error_step lib m spec result r entry s w = Some (s', None, w')"
  obtain index ge where entry: "entry = (index, ge)" by fastforce
  show "adds (c_strict (mp_cfg m)) (error_keys lib m spec entry) s s'"
  proof (cases ge)
    case None
    then show ?thesis using run entry accounting.none_added by (simp add: error_step_def error_keys_def)
  next
    case (Some g)
    then obtain path where path: "canonical_path lib (mp_root m) (first_nonblank [ge_file g, pr_file spec]) = Some path"
      using run entry by (auto simp: error_step_def Option.bind_eq_Some_conv simp del: first_nonblank.simps)
    show ?thesis
      using run entry Some path adds_synthetic
      by (simp add: error_step_def error_keys_def Let_def del: first_nonblank.simps)
  qed
qed

lemma counts_scenario_step:
  "counts m (scenario_keys lib m spec item) (scenario_step lib m c live existing spec r item)"
proof (rule accountsI)
  fix s w s' w'
  assume "scenario_step lib m c live existing spec r item s w = Some (s', None, w')"
  then show "adds (c_strict (mp_cfg m)) (scenario_keys lib m spec item) s s'"
  proof (cases rule: scenario_step_cases)
    case skipped
    then show ?thesis using accounting.none_added by (simp add: scenario_keys_def)
  next
    case (warned it sc key x cur)
    then show ?thesis by (intro addsI [of _ _ "[]" "[x]"]) (simp_all add: scenario_keys_def)
  next
    case (mapped it sc key a ws cur q w1 box current x w2)
    show ?thesis
      using keep_container_adds [OF mapped(6)] mapped(1-3)
      by (intro addsI [of _ _ "[key]" "ws @ current"]) (simp_all add: scenario_keys_def)
  qed simp
qed

lemma counts_new_spec:
  assumes "counts m ks f"
  shows "counts m ks (\<lambda>s w. f (s\<lparr>pg_spec_children := [], pg_cursor := t\<rparr>) w)"
proof (rule accountsI)
  fix s w s' w'
  assume "f (s\<lparr>pg_spec_children := [], pg_cursor := t\<rparr>) w = Some (s', None, w')"
  from accountsD [OF assms this] show "adds (c_strict (mp_cfg m)) ks s s'" by (simp add: adds_def)
qed

lemma counts_synthetic: "counts m [key] (\<lambda>s w. add_synthetic (synthetic m name key message verdict start w) s)"
  by (rule accountsI) (rule adds_synthetic)

lemma counts_spec_step: "counts m (spec_keys lib m entry) (spec_step lib m c live existing r entry)"
proof (rule spec_step_flow [of entry lib m c live existing r])
  fix index result spec q
  assume entry: "entry = (index, Some result)" "sr_spec result = Some spec"
    and flow: "spec_step lib m c live existing r entry =
         after_flow (each_flow (error_step lib m spec result r) (enumerate 0 (sr_errors result)))
           (after_flow (\<lambda>s w. each_flow (scenario_step lib m c live existing spec q) (pr_items spec)
                (s\<lparr>pg_spec_children := [], pg_cursor := r_start q\<rparr>) w)
             (spec_container_step lib m c spec q))"
  have keys: "spec_keys lib m entry = concat (map (error_keys lib m spec) (enumerate 0 (sr_errors result)))
      @ (concat (map (scenario_keys lib m spec) (pr_items spec)) @ [])"
    by (simp add: spec_keys_def entry)
  show ?thesis
    unfolding flow keys
    by (intro accounting.after_flow_accounts accounting.each_flow_accounts counts_new_spec counts_error_step
        counts_scenario_step counts_containers)
qed (simp_all add: spec_keys_def counts_synthetic)

text \<open>The parts of a reconciliation that succeeds.\<close>

lemma map_suite_SomeE:
  assumes "map_suite lib m c (Some suite) live existing w = Some (out, None, w')"
  obtains s0 s1 s2 s3 r w0 w1 w2 where
    "s0 = \<lparr>pg_out = no_output, pg_children = [], pg_spec_children = [], pg_cursor = 0\<rparr>"
    "each_flow (spec_step lib m c live existing r) (enumerate 0 (su_specs suite)) s0 w0 = Some (s1, None, w1)"
    "empty_step m suite r s1 w1 = Some (s2, None, w2)"
    "suite_container_step lib m c suite r s2 w2 = Some (s3, None, w')"
    "reconcile lib m c suite live existing r s0 w0 = Some (s3, None, w')"
    "out = sort_output (pg_out s3)"
proof -
  obtain t w0 where now: "mp_now m w = (t, w0)" by fastforce
  let ?r = "resolve (su_timestamp suite) (su_time suite) t"
  let ?s = "\<lparr>pg_out = no_output, pg_children = [], pg_spec_children = [], pg_cursor = 0\<rparr>"
  obtain s3 where run: "reconcile lib m c suite live existing ?r ?s w0 = Some (s3, None, w')" "out = sort_output (pg_out s3)"
    using assms now by (auto simp: map_suite_def Let_def split: option.splits)
  from run(1) obtain s1 w1 s2 w2 where
    "each_flow (spec_step lib m c live existing ?r) (enumerate 0 (su_specs suite)) ?s w0 = Some (s1, None, w1)"
    "empty_step m suite ?r s1 w1 = Some (s2, None, w2)" "suite_container_step lib m c suite ?r s2 w2 = Some (s3, None, w')"
    by (auto simp: reconcile_def after_flow_def split: option.splits)
  from that [OF refl this run] show thesis .
qed

lemma map_suite_sound:
  assumes "map_suite lib m c (Some suite) live existing w = Some (out, None, w')"
  obtains s where "sound (faithful m live existing) s" "out = sort_output (pg_out s)"
proof (rule map_suite_SomeE [OF assms])
  fix s0 s1 s2 s3 r w0 w1 w2
  assume s0: "s0 = \<lparr>pg_out = no_output, pg_children = [], pg_spec_children = [], pg_cursor = 0\<rparr>"
    and run: "reconcile lib m c suite live existing r s0 w0 = Some (s3, None, w')"
    and out: "out = sort_output (pg_out s3)"
  have "sound (faithful m live existing) s0" by (simp add: s0 sound_def no_output_def)
  then show thesis using upholdsD [OF keeps_reconcile run] out that by blast
qed

lemma empty_step_keys:
  assumes "empty_step m suite r s w = Some (s', None, w')"
  shows "keys_of s' = (if keys_of s = [] then [''suite:empty''] else keys_of s)"
    "so_warnings (pg_out s') = so_warnings (pg_out s)"
    "keys_of s = [] \<Longrightarrow> \<exists>a. so_results (pg_out s') = [a] \<and> t_status (ra_result a) = (if su_failed suite then Broken else Skipped)"
  using assms
  by (auto simp: empty_step_def Let_def split: if_splits elim!: add_synthetic_cases)

lemma sort_output_sel [simp]:
  "set (so_results (sort_output v)) = set (so_results v)" "mset (so_results (sort_output v)) = mset (so_results v)"
  "set (so_containers (sort_output v)) = set (so_containers v)" "so_warnings (sort_output v) = so_warnings v"
  by (simp_all add: sort_output_def)

lemma map_suite_faithful:
  assumes "map_suite lib m c suite live existing w = Some (out, None, w')" and "a \<in> set (so_results out)"
  shows "faithful m live existing a"
proof (cases suite)
  case None
  then show ?thesis
    using assms synthetic_Inr by (fastforce simp: map_suite_def no_output_def split: sum.splits prod.splits)
next
  case (Some s)
  show ?thesis
    by (rule map_suite_sound [OF assms(1) [unfolded Some]]) (use assms(2) in \<open>auto simp: sound_def\<close>)
qed

section \<open>Nothing panics on ordinary paths\<close>

definition returns :: "flow \<Rightarrow> bool" where
  "returns f \<longleftrightarrow> (\<forall>s w. f s w \<noteq> None)"

lemma returns_after: "returns f \<Longrightarrow> returns g \<Longrightarrow> returns (after_flow f g)"
  by (auto simp: returns_def after_flow_def split: option.split)

lemma returns_each: "(\<And>x. x \<in> set xs \<Longrightarrow> returns (f x)) \<Longrightarrow> returns (each_flow f xs)"
proof (induction xs)
  case (Cons x xs)
  have "each_flow f (x # xs) = after_flow (f x) (each_flow f xs)" by (intro ext) (simp add: after_flow_def)
  then show ?case using Cons returns_after by simp
qed (simp add: returns_def)

lemma returns_synthetic: "returns (\<lambda>s w. add_synthetic (synthetic m name key message verdict start w) s)"
  by (auto simp: returns_def add_synthetic_def split: sum.split prod.split)

lemma first_fixture_one: "length fs = 1 \<Longrightarrow> \<exists>gs. first_fixture f fs = Some gs"
  by (cases fs) (auto simp: first_fixture_def)

lemma scenario_container_total: "scenario_container lib m c sc child r w \<noteq> None"
proof -
  let ?f = "ps_fields sc"
  obtain box ws e w0 where made: "make_container lib m c (''Scenario hooks: '' @ sc_heading ?f) [child] r
      (before_side (sc_pre_failure ?f) (sc_hooks ?f)) (after_side (sc_post_failure ?f) (sc_hooks ?f)) w = (box, ws, e, w0)"
    by (metis prod_cases4)
  show ?thesis
  proof (cases e)
    case None
    have one: "length (o_befores box) = 1" "length (o_afters box) = 1"
      using make_container_children(2) [OF made None] by auto
    obtain s1 c1 e1 w1 where 1: "fixture_steps lib m c (c_context_mode (mp_cfg m)) (ps_contexts sc) r w0 = (s1, c1, e1, w1)"
      by (metis prod_cases4)
    obtain s2 c2 e2 w2 where 2: "fixture_steps lib m c (c_teardown_mode (mp_cfg m)) (ps_teardown sc) r w1 = (s2, c2, e2, w2)"
      by (metis prod_cases4)
    obtain bs where bs: "first_fixture (\<lambda>x. x\<lparr>f_steps := f_steps x @ s1\<rparr>) (o_befores box) = Some bs"
      using first_fixture_one [OF one(1)] by blast
    obtain as where as: "first_fixture (\<lambda>x. x\<lparr>f_steps := f_steps x @ s2\<rparr>) (o_afters box) = Some as"
      using first_fixture_one [OF one(2)] by blast
    show ?thesis
      unfolding scenario_container_def Let_def made None
      by (cases e1; cases e2) (simp_all add: 1 2 bs as)
  qed (use made in \<open>simp add: scenario_container_def Let_def\<close>)
qed

text \<open>Paths in ASCII, and row numbers that a table can have.\<close>

definition plain_item :: "proto_item option \<Rightarrow> bool" where
  "plain_item item \<longleftrightarrow> (case item of None \<Rightarrow> True | Some it \<Rightarrow> is_ascii (pi_file it) \<and>
     (case snd (scenario_of_item it) of None \<Rightarrow> True | Some t \<Rightarrow> 0 \<le> sint (td_scenario_row_index (ptd_fields t))))"

definition plain_spec :: "spec_result option \<Rightarrow> bool" where
  "plain_spec result \<longleftrightarrow>
     (case result of None \<Rightarrow> True | Some r \<Rightarrow>
        (case sr_spec r of None \<Rightarrow> True | Some spec \<Rightarrow> is_ascii (pr_file spec) \<and> list_all plain_item (pr_items spec) \<and>
           list_all (\<lambda>e. case e of None \<Rightarrow> True | Some ge \<Rightarrow> is_ascii (ge_file ge)) (sr_errors r)))"

lemma returns_scenario_step:
  assumes "is_ascii (mp_root m)" and "is_ascii (pr_file spec)" and "plain_item item"
  shows "returns (scenario_step lib m c live existing spec r item)"
  unfolding returns_def
proof (intro allI)
  fix s w
  show "scenario_step lib m c live existing spec r item s w \<noteq> None"
  proof (cases "suite_scenario item")
    case None
    then show ?thesis by (simp add: scenario_step_def)
  next
    case (Some p)
    obtain it sc where p: "p = (it, sc)" by (cases p)
    have it: "item = Some it" using Some p by (auto simp: suite_scenario_def split: option.splits if_splits)
    have ok: "is_ascii (pi_file it)" "\<And>t. snd (scenario_of_item it) = Some t \<Longrightarrow> 0 \<le> sint (td_scenario_row_index (ptd_fields t))"
      using assms(3) it by (auto simp: plain_item_def)
    obtain key where key: "scenario_key lib m spec it sc = Some key"
      using scenario_identity_total [OF assms(1,2) ok(1), of lib] by (auto simp: scenario_key_def)
    have total: "map_scenario lib m c spec it retry info ex True st w \<noteq> None" for retry info ex st
      by (rule scenario_total [OF assms(1,2) ok])
    let ?retry = "retry_index (sc_retries_count (ps_fields sc))"
    obtain info where info: "info = (case live key of Some info \<Rightarrow> info
        | None \<Rightarrow> fallback_live (pg_cursor s) (sc_time (ps_fields sc)) r ?retry)" by blast
    obtain made ws w1 where run: "map_scenario lib m c spec it ?retry info (env_get existing key) True (find_spec_table spec) w
        = Some (made, ws, w1)" using total by (metis option.exhaust prod_cases3)
    show ?thesis
    proof (cases made)
      case (Inl x)
      then show ?thesis using run by (simp add: scenario_step_def Some p key Let_def info)
    next
      case (Inr a)
      obtain box where "scenario_container lib m c sc (t_uuid (ra_result a)) (lv_range info) w1 = Some box"
        using scenario_container_total by blast
      then show ?thesis using run Inr by (simp add: scenario_step_def Some p key Let_def info)
    qed
  qed
qed

lemma returns_error_step:
  assumes "is_ascii (mp_root m)" and "is_ascii (pr_file spec)"
    and "case snd entry of None \<Rightarrow> True | Some ge \<Rightarrow> is_ascii (ge_file ge)"
  shows "returns (error_step lib m spec result r entry)"
proof -
  obtain index g where entry: "entry = (index, g)" by fastforce
  show ?thesis
  proof (cases g)
    case None
    then show ?thesis by (simp add: returns_def error_step_def entry)
  next
    case (Some ge)
    then obtain path where "canonical_path lib (mp_root m) (first_nonblank [ge_file ge, pr_file spec]) = Some path"
      using canonical_path_total [OF assms(1) ascii_first [of "[ge_file ge, pr_file spec]"], of lib] assms(2,3) entry by auto
    then show ?thesis
      using returns_synthetic by (simp add: returns_def error_step_def entry Some Let_def del: first_nonblank.simps)
  qed
qed

lemma returns_spec_step:
  assumes "is_ascii (mp_root m)" and "plain_spec (snd entry)"
  shows "returns (spec_step lib m c live existing r entry)"
proof (rule spec_step_flow [of entry lib m c live existing r])
  fix index result spec q
  assume entry: "entry = (index, Some result)" "sr_spec result = Some spec"
    and flow: "spec_step lib m c live existing r entry =
         after_flow (each_flow (error_step lib m spec result r) (enumerate 0 (sr_errors result)))
           (after_flow (\<lambda>s w. each_flow (scenario_step lib m c live existing spec q) (pr_items spec)
                (s\<lparr>pg_spec_children := [], pg_cursor := r_start q\<rparr>) w)
             (spec_container_step lib m c spec q))"
  have ok: "is_ascii (pr_file spec)" "\<forall>x \<in> set (pr_items spec). plain_item x"
      "\<forall>x \<in> set (sr_errors result). case x of None \<Rightarrow> True | Some ge \<Rightarrow> is_ascii (ge_file ge)"
    using assms(2) entry by (auto simp: plain_spec_def list_all_iff)
  have "returns (each_flow (error_step lib m spec result r) (enumerate 0 (sr_errors result)))"
    by (rule returns_each) (use ok(3) assms(1) ok(1) in \<open>auto intro!: returns_error_step simp: in_set_enumerate_eq\<close>)
  moreover have "returns (each_flow (scenario_step lib m c live existing spec q) (pr_items spec))"
    by (rule returns_each) (use ok assms(1) returns_scenario_step in blast)
  then have "returns (\<lambda>s w. each_flow (scenario_step lib m c live existing spec q) (pr_items spec)
                (s\<lparr>pg_spec_children := [], pg_cursor := r_start q\<rparr>) w)" by (simp add: returns_def)
  moreover have "returns (spec_container_step lib m c spec q)" by (simp add: returns_def spec_container_step_def)
  ultimately show ?thesis unfolding flow by (intro returns_after)
qed (simp_all only: returns_synthetic)

section \<open>A concrete suite\<close>

text \<open>A world whose random source never fails.\<close>

definition lucky :: "world \<Rightarrow> bool" where
  "lucky w \<longleftrightarrow> (\<forall>t. \<not> isl (w_rand_at w t))"

lemma lucky_simps [simp]: "lucky (tick w) \<longleftrightarrow> lucky w" "lucky (calm_world fs)"
  by (simp_all add: lucky_def calm_world_def)

lemma lucky_new: "lucky w \<Longrightarrow> \<exists>u. uuid_new w = (Inr u, tick w) \<and> u \<noteq> []"
  using random_uuids.new_plain [of w] unfolding lucky_def uuid_new_def
  by (cases "w_rand_at w (w_tick w)") (auto simp: isl_def)

definition demo_suite :: suite_result where
  "demo_suite = \<lparr>su_specs = [Some \<lparr>sr_spec = Some (demo_spec [scenario_item (demo_scenario [])]), sr_errors = [],
      sr_timestamp = [], sr_time = 0\<rparr>], su_pre_failure = None, su_post_failure = None, su_failed = False, su_time = 0,
     su_timestamp = [], su_project = [], su_environment = [], su_hooks = no_hooks\<rparr>"

lemma demo_fixture [simp]:
  "fixture plain_mime (demo_mapper strict) None name (before_side None no_hooks) t w =
     (\<lparr>f_name = trim_space name, f_status = Passed, f_details = None, f_start = t, f_stop = t, f_steps = [],
       f_attachments = []\<rparr>, [], None, w)"
  "fixture plain_mime (demo_mapper strict) None name (after_side None no_hooks) t w =
     (\<lparr>f_name = trim_space name, f_status = Passed, f_details = None, f_start = t, f_stop = t, f_steps = [],
       f_attachments = []\<rparr>, [], None, w)"
  by (simp_all add: fixture_def before_side_def after_side_def fixture_jobs_def fixture_files_def fixture_legacy_def
      message_job_def no_hooks_def demo_mapper_def defaults_def Let_def)

lemma demo_container:
  assumes "lucky w" and "children \<noteq> []"
  shows "\<exists>box. make_container plain_mime (demo_mapper strict) None name children r (before_side None no_hooks)
      (after_side None no_hooks) w = (box, [], None, tick w) \<and> o_uuid box \<noteq> [] \<and> o_children box = children \<and>
      length (o_befores box) = 1 \<and> length (o_afters box) = 1"
proof -
  obtain u where u: "uuid_new w = (Inr u, tick w)" "u \<noteq> []" using lucky_new [OF assms(1)] by blast
  have "mp_new_uuid (demo_mapper strict) = uuid_new" by (simp add: demo_mapper_def)
  then show ?thesis using u assms(2) by (simp add: make_container_def Let_def)
qed

lemma demo_items [simp]: "pr_items (demo_spec items) = map Some items" "find_spec_table (demo_spec items) = None"
    "pr_hooks (demo_spec items) = no_hooks" "pr_pre_failures (demo_spec items) = []" "pr_post_failures (demo_spec items) = []"
  by (simp_all add: demo_spec_def no_spec_def find_spec_table_def)

lemma demo_fields [simp]: "sc_pre_failure (ps_fields (demo_scenario tags)) = None"
    "sc_post_failure (ps_fields (demo_scenario tags)) = None" "sc_hooks (ps_fields (demo_scenario tags)) = no_hooks"
    "retry_index (sc_retries_count (ps_fields (demo_scenario tags))) = 0"
  by (simp_all add: demo_scenario_def no_scenario_fields_def retry_index_def word_sle_eq)

lemma demo_suite_scenario [simp]:
  "suite_scenario (Some (scenario_item sc)) = Some (scenario_item sc, sc)"
  by (simp add: suite_scenario_def is_scenario_def) (simp add: scenario_item_def)

lemma demo_key [simp]:
  "scenario_key plain_mime (demo_mapper strict) (demo_spec items) (scenario_item (demo_scenario tags)) (demo_scenario tags) =
     Some (attempt_key ''p::a.spec::id'' 0 0 0)"
  by (simp add: scenario_key_def)

lemma demo_suite_keys:
  "suite_keys plain_mime (demo_mapper strict) demo_suite = [attempt_key ''p::a.spec::id'' 0 0 0]"
  by (simp add: suite_keys_def demo_suite_def spec_keys_def scenario_keys_def)

lemma demo_scenario_container:
  assumes "lucky w"
  shows "\<exists>box. scenario_container plain_mime (demo_mapper strict) None (demo_scenario tags) child r w = Some (box, [], None, tick w)"
proof -
  have modes: "c_context_mode (mp_cfg (demo_mapper strict)) = ''grouped-steps''"
    "c_teardown_mode (mp_cfg (demo_mapper strict)) = ''grouped-steps''"
    by (simp_all add: demo_mapper_def defaults_def)
  obtain box where "make_container plain_mime (demo_mapper strict) None
      (''Scenario hooks: '' @ sc_heading (ps_fields (demo_scenario tags))) [child] r
      (before_side None no_hooks) (after_side None no_hooks) w = (box, [], None, tick w)"
      and one: "length (o_befores box) = 1" "length (o_afters box) = 1"
    using demo_container [OF assms, of "[child]"] by blast
  moreover obtain x y where "o_befores box = [x]" "o_afters box = [y]" using one by (auto simp: length_Suc_conv)
  ultimately show ?thesis
    by (simp add: scenario_container_def fixture_steps_def modes first_fixture_def)
qed

lemma demo_scenario_step:
  assumes "lucky w"
  shows "\<exists>s' w'. scenario_step plain_mime (demo_mapper strict) None (\<lambda>k. Some demo_live) (\<lambda>k. Some ''u'')
      (demo_spec items) q (Some (scenario_item (demo_scenario []))) s w = Some (s', None, w') \<and> lucky w' \<and>
      keys_of s' = keys_of s @ [attempt_key ''p::a.spec::id'' 0 0 0] \<and> pg_children s' \<noteq> [] \<and> pg_spec_children s' \<noteq> []"
proof -
  obtain a ws where a: "map_scenario plain_mime (demo_mapper strict) None (demo_spec items) (scenario_item (demo_scenario []))
      0 demo_live ''u'' True None w = Some (Inr a, ws, w)" "ra_key a = attempt_key ''p::a.spec::id'' 0 0 0" "t_uuid (ra_result a) = ''u''"
    using demo_mapped [of "''u''" strict items "[]" 0 True w] by auto
  obtain box where "scenario_container plain_mime (demo_mapper strict) None (demo_scenario []) ''u'' demo_span w = Some (box, [], None, tick w)"
    using demo_scenario_container [OF assms] by blast
  then show ?thesis
    using a assms by (auto simp: scenario_step_def env_get_def Let_def keep_container_def)
qed

lemma demo_container_steps:
  assumes "lucky w"
  shows "pg_spec_children s \<noteq> [] \<Longrightarrow> \<exists>s' w'. spec_container_step plain_mime (demo_mapper strict) None (demo_spec items) r s w =
      Some (s', None, w') \<and> lucky w' \<and> keys_of s' = keys_of s \<and> pg_children s' = pg_children s"
    and "pg_children s \<noteq> [] \<Longrightarrow> \<exists>s' w'. suite_container_step plain_mime (demo_mapper strict) None demo_suite r s w =
      Some (s', None, w') \<and> lucky w' \<and> keys_of s' = keys_of s"
proof -
  assume "pg_spec_children s \<noteq> []"
  then show "\<exists>s' w'. spec_container_step plain_mime (demo_mapper strict) None (demo_spec items) r s w =
      Some (s', None, w') \<and> lucky w' \<and> keys_of s' = keys_of s \<and> pg_children s' = pg_children s"
    using demo_container [OF assms, of "pg_spec_children s" strict
        "''Specification hooks: '' @ first_nonblank [pr_heading (demo_spec items), base (pr_file (demo_spec items))]" r] assms
    by (auto simp: spec_container_step_def spec_container_def keep_container_def Let_def simp del: first_nonblank.simps)
next
  assume "pg_children s \<noteq> []"
  then show "\<exists>s' w'. suite_container_step plain_mime (demo_mapper strict) None demo_suite r s w =
      Some (s', None, w') \<and> lucky w' \<and> keys_of s' = keys_of s"
    using demo_container [OF assms, of "pg_children s" strict
        "''Suite hooks: '' @ first_nonblank [su_project demo_suite, ''Gauge project'']" r] assms
    by (auto simp: suite_container_step_def suite_container_def keep_container_def demo_suite_def Let_def simp del: first_nonblank.simps)
qed

lemma demo_suite_mapped:
  "\<exists>out w'. map_suite plain_mime (demo_mapper strict) None (Some demo_suite) (\<lambda>k. Some demo_live) (\<lambda>k. Some ''u'')
     (calm_world shots_fs) = Some (out, None, w')"
proof -
  have now: "mp_now (demo_mapper strict) w = (w_now_at w (w_tick w), tick w)" for w
    by (simp add: demo_mapper_def now_def)
  let ?s0 = "\<lparr>pg_out = no_output, pg_children = [], pg_spec_children = [], pg_cursor = 0\<rparr>"
  let ?r = "resolve (su_timestamp demo_suite) (su_time demo_suite) (w_now_at (calm_world shots_fs) (w_tick (calm_world shots_fs)))"
  let ?q = "resolve [] 0 (time_of_millis (r_start ?r))"
  let ?spec = "demo_spec [scenario_item (demo_scenario [])]"
  obtain s1 w1 where 1: "scenario_step plain_mime (demo_mapper strict) None (\<lambda>k. Some demo_live) (\<lambda>k. Some ''u'') ?spec ?q
      (Some (scenario_item (demo_scenario []))) (?s0\<lparr>pg_spec_children := [], pg_cursor := r_start ?q\<rparr>) (tick (calm_world shots_fs)) =
      Some (s1, None, w1)" "lucky w1" "keys_of s1 \<noteq> []" "pg_children s1 \<noteq> []" "pg_spec_children s1 \<noteq> []"
    using demo_scenario_step [of "tick (calm_world shots_fs)"] by fastforce
  obtain s2 w2 where 2: "spec_container_step plain_mime (demo_mapper strict) None ?spec ?q s1 w1 = Some (s2, None, w2)"
      "lucky w2" "keys_of s2 \<noteq> []" "pg_children s2 \<noteq> []"
    using demo_container_steps(1) [OF 1(2,5)] 1(3,4) by metis
  obtain s3 w3 where 3: "suite_container_step plain_mime (demo_mapper strict) None demo_suite ?r s2 w2 = Some (s3, None, w3)"
    using demo_container_steps(2) [OF 2(2,4)] by blast
  have specs: "su_specs demo_suite = [Some \<lparr>sr_spec = Some ?spec, sr_errors = [], sr_timestamp = [], sr_time = 0\<rparr>]"
    by (simp add: demo_suite_def)
  have "reconcile plain_mime (demo_mapper strict) None demo_suite (\<lambda>k. Some demo_live) (\<lambda>k. Some ''u'') ?r ?s0
      (tick (calm_world shots_fs)) = Some (s3, None, w3)"
    using 1(1) 2(1,3) 3
    by (simp add: reconcile_def specs spec_step_def after_flow_def empty_step_def)
  then show ?thesis by (simp add: map_suite_def now Let_def)
qed

section \<open>Properties\<close>

text \<open>
  C14.  Every scenario is accounted for.  The keys of the results are keys of the suite, in any case one;
  every key without a result has left a warning, and in strict mode a reconciliation that succeeds has
  one result for every key.  Only an otherwise empty suite gets the key of an empty suite.
\<close>

theorem suite_accounts:
  assumes "map_suite lib m c (Some suite) live existing w = Some (out, None, w')"
  shows "\<exists>kept. subseq kept (suite_keys lib m suite) \<and>
    mset (map ra_key (so_results out)) = mset (if kept = [] then [''suite:empty''] else kept) \<and>
    length (suite_keys lib m suite) \<le> length kept + length (so_warnings out) \<and>
    (c_strict (mp_cfg m) \<longrightarrow> kept = suite_keys lib m suite)"
proof (rule map_suite_SomeE [OF assms])
  fix s0 s1 s2 s3 r w0 w1 w2
  assume s0: "s0 = \<lparr>pg_out = no_output, pg_children = [], pg_spec_children = [], pg_cursor = 0\<rparr>"
    and specs: "each_flow (spec_step lib m c live existing r) (enumerate 0 (su_specs suite)) s0 w0 = Some (s1, None, w1)"
    and empty: "empty_step m suite r s1 w1 = Some (s2, None, w2)"
    and box: "suite_container_step lib m c suite r s2 w2 = Some (s3, None, w')"
    and out: "out = sort_output (pg_out s3)"
  have "adds (c_strict (mp_cfg m)) (suite_keys lib m suite) s0 s1"
    unfolding suite_keys_def
    by (rule accountsD [OF accounting.each_flow_accounts specs]) (rule counts_spec_step)
  then obtain kept ws where kept: "keys_of s1 = kept" "so_warnings (pg_out s1) = ws" "subseq kept (suite_keys lib m suite)"
      "length (suite_keys lib m suite) \<le> length kept + length ws" "c_strict (mp_cfg m) \<longrightarrow> kept = suite_keys lib m suite"
    unfolding adds_def by (auto simp: s0 no_output_def)
  have "adds False [] s2 s3" using box keep_container_counts unfolding suite_container_step_def by blast
  then obtain ws' where "keys_of s3 = keys_of s2" "so_warnings (pg_out s3) = so_warnings (pg_out s2) @ ws'"
    unfolding adds_def by auto
  moreover have keys: "mset (map ra_key (so_results out)) = mset (keys_of s3)"
    by (simp only: mset_map sort_output_sel out)
  ultimately show ?thesis
    unfolding keys using kept empty_step_keys(1,2) [OF empty] by (intro exI [of _ kept]) (simp add: out)
qed

theorem suite_accounts_witness:
  "\<exists>out w'. map_suite plain_mime (demo_mapper True) None (Some demo_suite) (\<lambda>k. Some demo_live) (\<lambda>k. Some ''u'')
     (calm_world shots_fs) = Some (out, None, w') \<and> map ra_key (so_results out) = [attempt_key ''p::a.spec::id'' 0 0 0]"
proof -
  obtain out w' where run: "map_suite plain_mime (demo_mapper True) None (Some demo_suite) (\<lambda>k. Some demo_live) (\<lambda>k. Some ''u'')
     (calm_world shots_fs) = Some (out, None, w')" using demo_suite_mapped by blast
  have "mset (map ra_key (so_results out)) = mset [attempt_key ''p::a.spec::id'' 0 0 0]"
    using suite_accounts [OF run] by (auto simp: demo_suite_keys simp del: mset_map)
  then have "map ra_key (so_results out) = [attempt_key ''p::a.spec::id'' 0 0 0]"
    by (metis mset_single_iff_right mset_single_iff mset.simps)
  then show ?thesis by (intro exI conjI) (rule run)
qed

text \<open>
  C15.  The output hangs together.  Every container has an identifier and at least one child, and all its
  children are results of the same output.  Every result Gauge supplied keeps the identifier under which
  it was written live, and the range recorded live, so the final file replaces the live one.
\<close>

theorem suite_linked:
  assumes "map_suite lib m c (Some suite) live existing w = Some (out, None, w')"
  shows "(\<forall>box \<in> set (so_containers out). o_uuid box \<noteq> [] \<and> o_children box \<noteq> [] \<and>
      set (o_children box) \<subseteq> (\<lambda>a. t_uuid (ra_result a)) ` set (so_results out)) \<and>
    (\<forall>a \<in> set (so_results out). faithful m live existing a)"
proof (rule map_suite_sound [OF assms])
  fix s
  assume s: "sound (faithful m live existing) s" and out: "out = sort_output (pg_out s)"
  have "set (pg_children s) = (\<lambda>a. t_uuid (ra_result a)) ` set (so_results (pg_out s))" using s by (simp add: sound_def)
  with s show ?thesis unfolding out sort_output_sel sound_def linked_def by metis
qed

theorem suite_linked_witness:
  "\<exists>out w'. map_suite plain_mime (demo_mapper True) None (Some demo_suite) (\<lambda>k. Some demo_live) (\<lambda>k. Some ''u'')
     (calm_world shots_fs) = Some (out, None, w') \<and>
     (\<forall>a \<in> set (so_results out). faithful (demo_mapper True) (\<lambda>k. Some demo_live) (\<lambda>k. Some ''u'') a)"
  using demo_suite_mapped [of True] suite_linked by blast

text \<open>
  The output is in a fixed order: results by start and key, containers by identifier.
\<close>

theorem suite_sorted:
  assumes "map_suite lib m c (Some suite) live existing w = Some (out, None, w')"
  shows "sorted (map result_order (so_results out)) \<and> sorted (map o_uuid (so_containers out)) \<and> so_results out \<noteq> []"
proof (rule map_suite_SomeE [OF assms])
  fix s0 s1 s2 s3 r w0 w1 w2
  assume empty: "empty_step m suite r s1 w1 = Some (s2, None, w2)"
    and box: "suite_container_step lib m c suite r s2 w2 = Some (s3, None, w')"
    and out: "out = sort_output (pg_out s3)"
  have "adds False [] s2 s3" using box keep_container_counts unfolding suite_container_step_def by blast
  then have "keys_of s3 = keys_of s2" unfolding adds_def by auto
  then have "keys_of s3 \<noteq> []" using empty_step_keys(1) [OF empty] by simp
  then have "so_results (sort_output (pg_out s3)) \<noteq> []"
    using sort_output_sel(1) [of "pg_out s3"] by (metis list.map_disc_iff set_empty)
  then show ?thesis unfolding out by (simp add: sort_output_def)
qed

theorem suite_sorted_witness:
  "\<exists>out w'. map_suite plain_mime (demo_mapper True) None (Some demo_suite) (\<lambda>k. Some demo_live) (\<lambda>k. Some ''u'')
     (calm_world shots_fs) = Some (out, None, w') \<and> so_results out \<noteq> []"
  using demo_suite_mapped [of True] suite_sorted by blast

text \<open>
  C18.  Reconciliation always returns.  For any suite with paths in ASCII and row numbers its tables can
  have, under any project root in ASCII, mapping ends with an output or an error; no loop, no missing part
  of a message and no failure of the environment makes it panic.
\<close>

theorem suite_returns:
  assumes "is_ascii (mp_root m)" and "\<And>s. suite = Some s \<Longrightarrow> list_all plain_spec (su_specs s)"
  shows "\<exists>out e w'. map_suite lib m c suite live existing w = Some (out, e, w')"
proof (cases suite)
  case None
  then show ?thesis
    by (cases "mp_now m w") (auto simp: map_suite_def split: prod.split sum.split)
next
  case (Some s)
  have ok: "plain_spec (snd entry)" if "entry \<in> set (enumerate 0 (su_specs s))" for entry
    using that assms(2) [OF Some] by (auto simp: in_set_enumerate_eq list_all_length)
  have "returns (reconcile lib m c s live existing r)" for r
    unfolding reconcile_def
  proof (intro returns_after returns_each)
    show "returns (spec_step lib m c live existing r entry)" if "entry \<in> set (enumerate 0 (su_specs s))" for entry
      by (rule returns_spec_step [OF assms(1) ok [OF that]])
    show "returns (empty_step m s r)"
      using returns_synthetic by (auto simp: returns_def empty_step_def Let_def)
    show "returns (suite_container_step lib m c s r)" by (simp add: returns_def suite_container_step_def)
  qed
  then show ?thesis
    unfolding returns_def by (cases "mp_now m w") (fastforce simp: map_suite_def Some split: option.split)
qed

theorem suite_returns_witness:
  "\<exists>out e w'. map_suite plain_mime (demo_mapper True) None (Some demo_suite) Map.empty Map.empty (calm_world shots_fs) =
     Some (out, e, w')"
proof (rule suite_returns)
  show "is_ascii (mp_root (demo_mapper True))" unfolding demo_mapper_def by code_simp
  have "is_ascii ''/p/a.spec''" by code_simp
  then have ascii: "is_ascii (pr_file (demo_spec items))" for items by (simp add: demo_spec_def)
  have item: "plain_item (Some (scenario_item sc))" for sc
    by (simp add: plain_item_def) (simp add: scenario_item_def is_ascii_def)
  have "list_all plain_spec (su_specs demo_suite)" by (simp add: demo_suite_def plain_spec_def ascii item)
  then show "list_all plain_spec (su_specs s)" if "Some demo_suite = Some s" for s using that by simp
qed

text \<open>
  Outside strict mode a container that could not be made, for want of an identifier, leaves no trace: no
  container and no warning.
\<close>

lemma lost_container_silent:
  "keep_container False (no_container, [], Some e, w) s = (s, None, w)"
  by (simp add: keep_container_def no_container_def add_warnings_def)

end
