(* ===== verification/Replace_Windows.thy ===== *)
theory Replace_Windows
  imports Output_Writer
begin

text \<open>
  \<^verbatim>\<open>internal/output/replace_windows.go\<close>: the replacement of a file on Windows.  The paths are converted
  to zero-terminated UTF-16 (\<^verbatim>\<open>syscall.UTF16PtrFromString\<close>, written out here) and handed to
  \<^verbatim>\<open>MoveFileExW\<close> of \<^verbatim>\<open>kernel32.dll\<close>, which is a parameter.  The lemmas show that the conversion loses
  nothing, so that with the documented behaviour of the system call the replacement is the renaming
  the writer relies on.
\<close>

section \<open>Wide strings\<close>

text \<open>\<^verbatim>\<open>utf16.AppendRune\<close>.\<close>

definition utf16_units :: "nat \<Rightarrow> 16 word list" where
  "utf16_units r =
     (if r < 0xD800 \<or> (0xE000 \<le> r \<and> r < 0x10000) then [of_nat r]
      else if 0x10000 \<le> r \<and> r \<le> 0x10FFFF then
        [of_nat (0xD800 + (r - 0x10000) div 1024), of_nat (0xDC00 + (r - 0x10000) mod 1024)]
      else [of_nat rune_error])"

text \<open>A surrogate written in three bytes, which is no UTF-8 but kept as one unit.\<close>

definition surrogate_bytes :: "nat list \<Rightarrow> bool" where
  "surrogate_bytes bs =
     (case bs of a # b # c # _ \<Rightarrow> a = 0xED \<and> cont_in 0xA0 0xBF b \<and> cont_in 0x80 0xBF c | _ \<Rightarrow> False)"

function wide_units :: "nat list \<Rightarrow> 16 word list" where
  "wide_units [] = []"
| "wide_units (a # bs) =
     (let (r, w) = decode_rune (a # bs) in
      if r = rune_error \<and> surrogate_bytes (a # bs) then
        of_nat ((a mod 16) * 4096 + (hd bs mod 64) * 64 + hd (tl bs) mod 64) # wide_units (drop 2 bs)
      else utf16_units r @ wide_units (drop (w - 1) bs))"
  by pat_completeness auto
termination
  by (relation "measure length") (auto simp: less_Suc_eq_le)

text \<open>The zero-terminated buffer; a string with a zero byte is refused.\<close>

definition einval :: err where "einval = Os_error ''invalid argument''"

definition utf16_ptr_from_string :: "string \<Rightarrow> err + 16 word list" where
  "utf16_ptr_from_string s =
     (if CHR 0x00 \<in> set s then Inl einval else Inr (wide_units (map ord s) @ [0]))"

section \<open>The replacement\<close>

definition move_file_replace_existing :: "64 word" where "move_file_replace_existing = 0x1"

definition move_file_write_through :: "64 word" where "move_file_write_through = 0x8"

type_synonym move_file_ex = "16 word list \<Rightarrow> 16 word list \<Rightarrow> 64 word \<Rightarrow> world \<Rightarrow> (64 word \<times> err) \<times> world"

definition atomic_replace_windows :: "move_file_ex \<Rightarrow> string \<Rightarrow> string \<Rightarrow> world \<Rightarrow> err option \<times> world" where
  "atomic_replace_windows move source target w =
     (case utf16_ptr_from_string source of
        Inl e \<Rightarrow> (Some e, w)
      | Inr source_ptr \<Rightarrow>
          (case utf16_ptr_from_string target of
             Inl e \<Rightarrow> (Some e, w)
           | Inr target_ptr \<Rightarrow>
               (case move source_ptr target_ptr (or move_file_replace_existing move_file_write_through) w of
                  ((result, call_err), w) \<Rightarrow> if result = 0 then (Some call_err, w) else (None, w))))"

section \<open>What the system call reads\<close>

definition high_surrogate :: "nat \<Rightarrow> bool" where "high_surrogate u \<longleftrightarrow> 0xD800 \<le> u \<and> u < 0xDC00"

definition low_surrogate :: "nat \<Rightarrow> bool" where "low_surrogate u \<longleftrightarrow> 0xDC00 \<le> u \<and> u < 0xE000"

fun wide_runes :: "nat list \<Rightarrow> nat list" where
  "wide_runes [] = []"
| "wide_runes [u] = [u]"
| "wide_runes (u # v # us) =
     (if high_surrogate u \<and> low_surrogate v then (0x10000 + (u - 0xD800) * 1024 + (v - 0xDC00)) # wide_runes us
      else u # wide_runes (v # us))"

text \<open>The text of the buffer up to the first zero.\<close>

definition wide_text :: "16 word list \<Rightarrow> string" where
  "wide_text us = concat (map encode_rune (wide_runes (map unat (takeWhile (\<lambda>u. u \<noteq> 0) us))))"

definition valid_utf8 :: "string \<Rightarrow> bool" where
  "valid_utf8 s = list_all (\<lambda>(r, bs). \<not> (r = rune_error \<and> length bs = 1)) (runes s)"

definition scalar :: "nat \<Rightarrow> bool" where
  "scalar r \<longleftrightarrow> r < 0xD800 \<or> (0xE000 \<le> r \<and> r \<le> 0x10FFFF)"

lemma byte_above:
  assumes "cont_in lo hi b" and "off \<le> lo" and "hi < off + k"
  shows "\<exists>y. b = off + y \<and> y < k \<and> lo - off \<le> y \<and> y \<le> hi - off"
  using assms by (intro exI [of _ "b - off"]) (auto simp: cont_in_def)

text \<open>What the decoder recognises: an error of width 1, or a rune in two, three or four bytes.\<close>

lemma decode_two:
  assumes "decode_rune (a # bs) = (r, w)" and "\<not> (r = rune_error \<and> w = 1)" and "0x80 \<le> a" and "cont_in 0xC2 0xDF a"
  obtains x y rest where "bs = (0x80 + y) # rest" "a = 0xC0 + x" "r = x * 64 + y" "w = 2" "2 \<le> x" "x < 32" "y < 64"
proof -
  obtain b rest where b: "bs = b # rest" "cont_in 0x80 0xBF b" "r = (a - 0xC0) * 64 + (b - 0x80)" "w = 2"
    using assms by (auto split: list.splits if_splits)
  obtain x where "a = 0xC0 + x" "x < 32" "2 \<le> x" using byte_above [OF assms(4), where off = "0xC0" and k = 32] by auto
  moreover obtain y where "b = 0x80 + y" "y < 64" using byte_above [OF b(2), where off = "0x80" and k = 64] by auto
  ultimately show thesis using that [of y rest x] b by simp
qed

lemma decode_three:
  assumes "decode_rune (a # bs) = (r, w)" and "\<not> (r = rune_error \<and> w = 1)" and "0x80 \<le> a" and "cont_in 0xE0 0xEF a"
  obtains x y z rest where "bs = (0x80 + y) # (0x80 + z) # rest" "a = 0xE0 + x" "r = (x * 64 + y) * 64 + z" "w = 3"
    "x < 16" "y < 64" "z < 64" "x = 0 \<longrightarrow> 32 \<le> y" "x = 13 \<longrightarrow> y < 32"
proof -
  have n: "\<not> cont_in 0xC2 0xDF a" using assms(4) by (simp add: cont_in_def)
  obtain b c rest where b: "bs = b # c # rest"
      "cont_in (if a = 0xE0 then 0xA0 else 0x80) (if a = 0xED then 0x9F else 0xBF) b" "cont_in 0x80 0xBF c"
      "r = (a - 0xE0) * 4096 + (b - 0x80) * 64 + (c - 0x80)" "w = 3"
    using assms n by (auto split: list.splits if_split_asm)
  obtain x where x: "a = 0xE0 + x" "x < 16" using byte_above [OF assms(4), where off = "0xE0" and k = 16] by auto
  obtain y where "b = 0x80 + y" "y < 64" "x = 0 \<longrightarrow> 32 \<le> y" "x = 13 \<longrightarrow> y < 32"
    using byte_above [OF b(2), where off = "0x80" and k = 64] x by (cases "x = 0"; cases "x = 13"; auto)
  moreover obtain z where "c = 0x80 + z" "z < 64" using byte_above [OF b(3), where off = "0x80" and k = 64] by auto
  ultimately show thesis using that [of y z rest x] b x by simp
qed

lemma decode_four:
  assumes "decode_rune (a # bs) = (r, w)" and "\<not> (r = rune_error \<and> w = 1)" and "0x80 \<le> a" and "cont_in 0xF0 0xF4 a"
  obtains x y z v rest where "bs = (0x80 + y) # (0x80 + z) # (0x80 + v) # rest" "a = 0xF0 + x"
    "r = ((x * 64 + y) * 64 + z) * 64 + v" "w = 4" "x < 5" "y < 64" "z < 64" "v < 64"
    "x = 0 \<longrightarrow> 16 \<le> y" "x = 4 \<longrightarrow> y < 16"
proof -
  have n: "\<not> cont_in 0xC2 0xDF a" "\<not> cont_in 0xE0 0xEF a" using assms(4) by (simp_all add: cont_in_def)
  obtain b c d rest where b: "bs = b # c # d # rest"
      "cont_in (if a = 0xF0 then 0x90 else 0x80) (if a = 0xF4 then 0x8F else 0xBF) b" "cont_in 0x80 0xBF c"
      "cont_in 0x80 0xBF d" "r = (a - 0xF0) * 262144 + (b - 0x80) * 4096 + (c - 0x80) * 64 + (d - 0x80)" "w = 4"
    using assms n by (auto split: list.splits if_split_asm)
  obtain x where x: "a = 0xF0 + x" "x < 5" using byte_above [OF assms(4), where off = "0xF0" and k = 5] by auto
  obtain y where "b = 0x80 + y" "y < 64" "x = 0 \<longrightarrow> 16 \<le> y" "x = 4 \<longrightarrow> y < 16"
    using byte_above [OF b(2), where off = "0x80" and k = 64] x by (cases "x = 0"; cases "x = 4"; auto)
  moreover obtain z where "c = 0x80 + z" "z < 64" using byte_above [OF b(3), where off = "0x80" and k = 64] by auto
  moreover obtain v where "d = 0x80 + v" "v < 64" using byte_above [OF b(4), where off = "0x80" and k = 64] by auto
  ultimately show thesis using that [of y z v rest x] b x by simp
qed

lemma decode_rune_forms:
  assumes "decode_rune (a # bs) = (r, w)"
  obtains "r = rune_error" "w = 1" "0x80 \<le> a"
  | "r = a" "w = 1" "a < 0x80"
  | x y rest where "bs = (0x80 + y) # rest" "a = 0xC0 + x" "r = x * 64 + y" "w = 2" "2 \<le> x" "x < 32" "y < 64"
  | x y z rest where "bs = (0x80 + y) # (0x80 + z) # rest" "a = 0xE0 + x" "r = (x * 64 + y) * 64 + z" "w = 3"
      "x < 16" "y < 64" "z < 64" "x = 0 \<longrightarrow> 32 \<le> y" "x = 13 \<longrightarrow> y < 32"
  | x y z v rest where "bs = (0x80 + y) # (0x80 + z) # (0x80 + v) # rest" "a = 0xF0 + x"
      "r = ((x * 64 + y) * 64 + z) * 64 + v" "w = 4" "x < 5" "y < 64" "z < 64" "v < 64"
      "x = 0 \<longrightarrow> 16 \<le> y" "x = 4 \<longrightarrow> y < 16"
proof (cases "a < 0x80 \<or> (r = rune_error \<and> w = 1)")
  case True
  then show thesis using assms that(1,2) by (cases "a < 0x80") simp_all
next
  case False
  then have a: "0x80 \<le> a" and ok: "\<not> (r = rune_error \<and> w = 1)" by auto
  note dec = assms ok a
  consider "cont_in 0xC2 0xDF a" | "cont_in 0xE0 0xEF a" | "cont_in 0xF0 0xF4 a"
    using assms a ok by (auto split: if_split_asm)
  then show thesis
  proof cases
    case 1 show thesis by (rule decode_two [OF dec 1]) (rule that(3))
  next
    case 2 show thesis by (rule decode_three [OF dec 2]) (rule that(4))
  next
    case 3 show thesis by (rule decode_four [OF dec 3]) (rule that(5))
  qed
qed

lemma digit:
  fixes k v :: nat
  assumes "v < 64"
  shows "(k * 64 + v) div 64 = k" "(k * 64 + v) mod 64 = v"
  using assms by simp_all

lemma four_byte_bounds:
  fixes x y z v :: nat
  assumes "x < 5" "y < 64" "z < 64" "v < 64" "x = 0 \<longrightarrow> 16 \<le> y" "x = 4 \<longrightarrow> y < 16"
  shows "0x10000 \<le> ((x * 64 + y) * 64 + z) * 64 + v" and "((x * 64 + y) * 64 + z) * 64 + v \<le> 0x10FFFF"
proof -
  show "0x10000 \<le> ((x * 64 + y) * 64 + z) * 64 + v" using assms by (cases "x = 0") simp_all
  show "((x * 64 + y) * 64 + z) * 64 + v \<le> 0x10FFFF" using assms by (cases "x = 4") simp_all
qed

lemma three_byte_bounds:
  fixes x y z :: nat
  assumes "x < 16" "y < 64" "z < 64" "x = 0 \<longrightarrow> 32 \<le> y" "x = 13 \<longrightarrow> y < 32"
  shows "0x800 \<le> (x * 64 + y) * 64 + z" and "(x * 64 + y) * 64 + z < 0x10000"
    and "(x * 64 + y) * 64 + z < 0xD800 \<or> 0xE000 \<le> (x * 64 + y) * 64 + z"
proof -
  show "0x800 \<le> (x * 64 + y) * 64 + z" using assms by (cases "x = 0") simp_all
  show "(x * 64 + y) * 64 + z < 0x10000" using assms by simp
  consider "x \<le> 12" | "x = 13" | "14 \<le> x" by linarith
  then show "(x * 64 + y) * 64 + z < 0xD800 \<or> 0xE000 \<le> (x * 64 + y) * 64 + z"
    by cases (use assms in simp_all)
qed

lemma decode_rune_scalar: "scalar (fst (decode_rune (a # bs)))"
proof -
  obtain r w where d: "decode_rune (a # bs) = (r, w)" by fastforce
  then have "scalar r"
  proof (cases rule: decode_rune_forms)
    case (4 x y z rest)
    then show ?thesis using three_byte_bounds [OF 4(5-9)] by (simp add: scalar_def 4(3))
  next
    case (5 x y z v rest)
    then show ?thesis using four_byte_bounds [OF 5(5-10)] by (simp add: scalar_def 5(3))
  qed (simp_all add: scalar_def rune_error_def)
  then show ?thesis by (simp only: d fst_conv)
qed

lemma encode_decode:
  assumes "decode_rune (a # bs) = (r, w)" and "\<not> (r = rune_error \<and> w = 1)"
  shows "encode_rune r = map chr (take w (a # bs))"
  using assms(1)
proof (cases rule: decode_rune_forms)
  case 1
  then show ?thesis using assms(2) by simp
next
  case (3 x y rest)
  have d: "r div 64 = x" "r mod 64 = y" unfolding 3(3) using 3(7) by (rule digit)+
  have "\<not> cont_in 0xD800 0xDFFF r" "r < 0x800" "0x80 \<le> r" using 3 by (auto simp: cont_in_def)
  then show ?thesis using d 3(1,2,4) by (simp add: encode_rune_def)
next
  case (4 x y z rest)
  have d: "r div 64 = x * 64 + y" "r mod 64 = z" unfolding 4(3) using 4(7) by (rule digit)+
  then have "r div 4096 = x" "r div 64 mod 64 = y"
    using div_mult2_eq [of r 64 64] digit [OF 4(6), of x] by simp_all
  moreover have "\<not> cont_in 0xD800 0xDFFF r" "r < 0x10000" "0x800 \<le> r"
    using three_byte_bounds [OF 4(5-9)] unfolding 4(3) cont_in_def by linarith+
  ultimately show ?thesis using d 4(1,2,4) by (simp add: encode_rune_def)
next
  case (5 x y z v rest)
  have d: "r div 64 = (x * 64 + y) * 64 + z" "r mod 64 = v" unfolding 5(3) using 5(8) by (rule digit)+
  then have e: "r div 4096 = x * 64 + y" "r div 64 mod 64 = z"
    using div_mult2_eq [of r 64 64] digit [OF 5(7), of "x * 64 + y"] by simp_all
  then have "r div 262144 = x" "r div 4096 mod 64 = y"
    using div_mult2_eq [of r 4096 64] digit [OF 5(6), of x] by simp_all
  moreover have "\<not> cont_in 0xD800 0xDFFF r" "r \<le> 0x10FFFF" "0x10000 \<le> r"
    using four_byte_bounds [OF 5(5-10)] unfolding 5(3) cont_in_def by linarith+
  ultimately show ?thesis using d e 5(1,2,4) by (simp add: encode_rune_def)
qed (simp add: encode_rune_def cont_in_def)


section \<open>The conversion loses nothing\<close>

lemma runes_Cons:
  assumes "decode_rune (map ord (c # cs)) = (r, w)"
  shows "runes (c # cs) = (r, take w (c # cs)) # runes (drop w (c # cs))" and "1 \<le> w" and "w \<le> length (c # cs)"
proof -
  show w: "1 \<le> w" "w \<le> length (c # cs)"
    using decode_rune_width [of "map ord (c # cs)"] assms by simp_all
  show "runes (c # cs) = (r, take w (c # cs)) # runes (drop w (c # cs))"
    using assms w by (simp add: max_def del: decode_rune.simps drop_Cons take_Cons)
qed

lemma valid_runes: "valid_utf8 s \<Longrightarrow> list_all (\<lambda>(r, bs). scalar r \<and> encode_rune r = bs) (runes s)"
proof (induction s rule: runes.induct)
  case (2 c cs)
  obtain r w where d: "decode_rune (map ord (c # cs)) = (r, w)" by fastforce
  note s = runes_Cons [OF d]
  have v: "\<not> (r = rune_error \<and> length (take w (c # cs)) = 1)" "valid_utf8 (drop w (c # cs))"
    using 2(2) unfolding valid_utf8_def s(1) by auto
  have "encode_rune r = take w (c # cs)"
    using encode_decode [of "ord c" "map ord cs" r w] d v(1) s(2,3) by (auto simp: take_map comp_def simp flip: list.map)
  moreover have "scalar r" using decode_rune_scalar [of "ord c" "map ord cs"] d by simp
  moreover have "max 1 w = w" using s(2) by simp
  ultimately show ?case using 2(1) [OF d [symmetric] refl] v(2) by (simp only: s(1)) simp
qed simp

lemma wide_units_runes: "valid_utf8 s \<Longrightarrow> wide_units (map ord s) = concat (map (\<lambda>(r, _). utf16_units r) (runes s))"
proof (induction s rule: runes.induct)
  case (2 c cs)
  obtain r w where d: "decode_rune (map ord (c # cs)) = (r, w)" by fastforce
  note s = runes_Cons [OF d]
  have v: "\<not> (r = rune_error \<and> w = 1)" "valid_utf8 (drop w (c # cs))"
    using 2(2) s(3) unfolding valid_utf8_def s(1) by auto
  have "\<not> surrogate_bytes (map ord (c # cs))"
    using d v(1) by (auto simp: surrogate_bytes_def cont_in_def split: list.splits)
  moreover have "drop (w - 1) (map ord cs) = map ord (drop w (c # cs))"
    using s(2) by (cases w) (simp_all add: drop_map)
  moreover have "max 1 w = w" using s(2) by simp
  ultimately show ?case
    using 2(1) [OF d [symmetric] refl] v(2) d by (simp only: s(1)) (simp del: decode_rune.simps)
qed simp

lemma unat_unit: "n < 65536 \<Longrightarrow> unat (of_nat n :: 16 word) = n"
  by (simp add: unat_of_nat)

lemma wide_runes_unit: "\<not> high_surrogate u \<Longrightarrow> wide_runes (u # us) = u # wide_runes us"
  by (cases us) simp_all

lemma wide_runes_units:
  assumes "scalar r"
  shows "wide_runes (map unat (utf16_units r) @ us) = r # wide_runes us"
proof (cases "r < 0x10000")
  case True
  then have "\<not> high_surrogate r" "utf16_units r = [of_nat r]"
    using assms by (auto simp: high_surrogate_def utf16_units_def scalar_def)
  then show ?thesis using True by (simp add: unat_unit wide_runes_unit)
next
  case False
  define q where "q = r - 0x10000"
  have q: "q div 1024 < 1024" "q mod 1024 < 1024" "r = 0x10000 + q"
    using False assms by (auto simp: q_def scalar_def)
  have "utf16_units r = [of_nat (0xD800 + q div 1024), of_nat (0xDC00 + q mod 1024)]"
    using False assms by (simp add: utf16_units_def scalar_def q_def)
  then have "map unat (utf16_units r) = [0xD800 + q div 1024, 0xDC00 + q mod 1024]"
    using q(1,2) by (simp add: unat_unit del: of_nat_add of_nat_numeral)
  moreover have "high_surrogate (0xD800 + q div 1024)" "low_surrogate (0xDC00 + q mod 1024)"
    using q(1,2) by (simp_all add: high_surrogate_def low_surrogate_def)
  ultimately show ?thesis using q(3) by (simp add: div_mult_mod_eq)
qed

lemma units_nonzero: "scalar r \<Longrightarrow> r \<noteq> 0 \<Longrightarrow> 0 \<notin> set (utf16_units r)"
proof -
  assume r: "scalar r" "r \<noteq> 0"
  have nz: "(of_nat n :: 16 word) \<noteq> 0" if "n < 65536" "n \<noteq> 0" for n
    using unat_unit [OF that(1)] that(2) by (metis unat_0)
  show ?thesis
  proof (cases "r < 0x10000")
    case True
    then show ?thesis using r nz [of r] by (auto simp: utf16_units_def scalar_def)
  next
    case False
    then have "(r - 0x10000) div 1024 < 1024" using r(1) by (auto simp: scalar_def)
    then show ?thesis
      using False r nz [of "0xD800 + (r - 0x10000) div 1024"] nz [of "0xDC00 + (r - 0x10000) mod 1024"]
      by (auto simp: utf16_units_def scalar_def simp del: of_nat_add)
  qed
qed

lemma utf16_ptr_parts:
  assumes "utf16_ptr_from_string s = Inr us"
  shows "CHR 0x00 \<notin> set s" and "us = wide_units (map ord s) @ [0]"
  using assms by (auto simp: utf16_ptr_from_string_def split: if_splits)

lemma chr_zero: "chr 0 = CHR 0x00"
  by code_simp

text \<open>A valid path is read by the system call as it was written.\<close>

theorem wide_text_roundtrip:
  assumes "valid_utf8 s" and "utf16_ptr_from_string s = Inr us"
  shows "wide_text us = s"
proof -
  note us = utf16_ptr_parts [OF assms(2)]
  have rs: "\<forall>x \<in> set (runes s). scalar (fst x) \<and> encode_rune (fst x) = snd x"
    using valid_runes [OF assms(1)] by (auto simp: list_all_iff)
  have nz: "fst x \<noteq> 0" if "x \<in> set (runes s)" for x
  proof
    assume "fst x = 0"
    moreover have "encode_rune 0 = [CHR 0x00]" by (simp add: encode_rune_def cont_in_def chr_zero)
    ultimately have "snd x = [CHR 0x00]" using rs that by metis
    then have "CHR 0x00 \<in> set (snd x)" by simp
    then have "CHR 0x00 \<in> set (concat (map snd (runes s)))" using that by auto
    then show False using us(1) by (simp only: runes_concat)
  qed
  have "0 \<notin> set (wide_units (map ord s))"
    using rs nz units_nonzero unfolding wide_units_runes [OF assms(1)] by fastforce
  then have "takeWhile (\<lambda>u. u \<noteq> 0) us = wide_units (map ord s)"
    unfolding us(2) by (subst takeWhile_append2) auto
  moreover have "wide_runes (map unat (concat (map (\<lambda>(r, _). utf16_units r) xs))) = map fst xs"
    if "\<forall>x \<in> set xs. scalar (fst x)" for xs :: "(nat \<times> string) list"
    using that by (induction xs) (auto simp: wide_runes_units)
  ultimately have "wide_text us = concat (map encode_rune (map fst (runes s)))"
    using rs by (simp add: wide_text_def wide_units_runes [OF assms(1)])
  also have "\<dots> = concat (map snd (runes s))"
    using rs by (auto intro!: arg_cong [where f = concat])
  finally show ?thesis by (simp only: runes_concat)
qed

corollary wide_path_injective:
  assumes "valid_utf8 s" "valid_utf8 t" "utf16_ptr_from_string s = Inr us" "utf16_ptr_from_string t = Inr us"
  shows "s = t"
  using wide_text_roundtrip [OF assms(1,3)] wide_text_roundtrip [OF assms(2,4)] by simp

section \<open>The replacement renames\<close>

text \<open>
  The documented behaviour of \<^verbatim>\<open>MoveFileExW\<close> when the caller asks to replace an existing file: it
  renames what the buffers name, and reports a failure by the result 0.
\<close>

definition moves_as_documented :: "move_file_ex \<Rightarrow> bool" where
  "moves_as_documented move \<longleftrightarrow>
     (\<forall>s t flags w. and flags move_file_replace_existing \<noteq> 0 \<longrightarrow>
        (case os_rename (wide_text s) (wide_text t) w of
           (Inl e, w') \<Rightarrow> move s t flags w = ((0, e), w')
         | (Inr _, w') \<Rightarrow> fst (fst (move s t flags w)) \<noteq> 0 \<and> snd (move s t flags w) = w'))"

theorem replace_windows_renames:
  assumes "moves_as_documented move" and "valid_utf8 source" and "valid_utf8 target"
    and "CHR 0x00 \<notin> set source" and "CHR 0x00 \<notin> set target"
  shows "atomic_replace_windows move source target w =
    (case os_rename source target w of (Inl e, w') \<Rightarrow> (Some e, w') | (Inr _, w') \<Rightarrow> (None, w'))"
proof -
  obtain us where us: "utf16_ptr_from_string source = Inr us" using assms(4) by (simp add: utf16_ptr_from_string_def)
  obtain ut where ut: "utf16_ptr_from_string target = Inr ut" using assms(5) by (simp add: utf16_ptr_from_string_def)
  define flags where "flags = or move_file_replace_existing move_file_write_through"
  then have "and flags move_file_replace_existing \<noteq> 0"
    by (simp add: move_file_replace_existing_def move_file_write_through_def)
  then have "case os_rename (wide_text us) (wide_text ut) w of
      (Inl e, w') \<Rightarrow> move us ut flags w = ((0, e), w')
    | (Inr _, w') \<Rightarrow> fst (fst (move us ut flags w)) \<noteq> 0 \<and> snd (move us ut flags w) = w'"
    by (rule assms(1) [unfolded moves_as_documented_def, THEN spec, THEN spec, THEN spec, THEN spec, THEN mp])
  note doc = this [unfolded wide_text_roundtrip [OF assms(2) us] wide_text_roundtrip [OF assms(3) ut]]
  obtain res call_err w1 where m: "move us ut flags w = ((res, call_err), w1)" by (metis prod.collapse)
  obtain r w' where r: "os_rename source target w = (r, w')" by fastforce
  show ?thesis
    unfolding atomic_replace_windows_def us ut flags_def [symmetric] using doc
    by (cases r) (simp_all add: m r)
qed

text \<open>The hypothesis can hold: a system call that is the renaming itself.\<close>

definition renaming_move :: move_file_ex where
  "renaming_move s t flags w =
     (case os_rename (wide_text s) (wide_text t) w of
        (Inl e, w) \<Rightarrow> ((0, e), w)
      | (Inr _, w) \<Rightarrow> ((1, einval), w))"

lemma renaming_move_documented: "moves_as_documented renaming_move"
  by (auto simp: moves_as_documented_def renaming_move_def split: prod.splits sum.splits)

text \<open>A path with a zero byte never reaches the system call, and nothing changes.\<close>

lemma replace_windows_refuses_zero:
  assumes "CHR 0x00 \<in> set source \<or> CHR 0x00 \<in> set target"
  shows "atomic_replace_windows move source target w = (Some einval, w)"
  using assms by (auto simp: atomic_replace_windows_def utf16_ptr_from_string_def)

lemma wide_units_examples:
  "wide_units [0xF0, 0x9F, 0x98, 0x80] = [0xD83D, 0xDE00]"
  "wide_units [0xED, 0xA0, 0x80] = [0xD800]"
  by (simp_all add: utf16_units_def surrogate_bytes_def cont_in_def rune_error_def)

end
