(* ===== verification/Collector.thy ===== *)
theory Collector
  imports Suite_Mapping
begin

text \<open>
  \<^verbatim>\<open>internal/collector/collector.go\<close>: the engine that reconciles Gauge's concurrent lifecycle callbacks
  with the final suite result.

  The state behind the mutex is the record \<open>engine\<close>; what never changes after construction is the record
  \<open>collector\<close>.  The callbacks that hold the mutex throughout are functions of the state.  The ones that
  release it, \<^verbatim>\<open>ScenarioEnding\<close>, \<^verbatim>\<open>Finalize\<close> and \<^verbatim>\<open>FinalizeInterrupted\<close>, are machines whose control points
  are the places where the mutex is free; one step of a machine is one critical section, or one call of
  the mapper or of the writer between two of them.  The logger only prints and is left out.
\<close>

section \<open>State\<close>

text \<open>The interface \<^verbatim>\<open>output.Writer\<close>.\<close>

record sink =
  sk_result :: "ctx \<Rightarrow> test_result \<Rightarrow> world \<Rightarrow> err option \<times> world"
  sk_container :: "ctx \<Rightarrow> container \<Rightarrow> world \<Rightarrow> err option \<times> world"
  sk_attachment :: "ctx \<Rightarrow> string \<Rightarrow> string \<Rightarrow> int \<Rightarrow> world \<Rightarrow> err option \<times> world"
  sk_environment :: "ctx \<Rightarrow> properties \<Rightarrow> world \<Rightarrow> err option \<times> world"
  sk_executor :: "ctx \<Rightarrow> executor \<Rightarrow> world \<Rightarrow> err option \<times> world"
  sk_categories :: "ctx \<Rightarrow> category list \<Rightarrow> world \<Rightarrow> err option \<times> world"

definition safe_sink :: "'u writer_lib_scheme \<Rightarrow> writer \<Rightarrow> sink" where
  "safe_sink lib wr = \<lparr>sk_result = write_result lib wr, sk_container = write_container lib wr,
     sk_attachment = write_attachment wr, sk_environment = write_environment wr,
     sk_executor = write_executor lib wr, sk_categories = write_categories lib wr\<rparr>"

text \<open>The decoder of categories and the JSON form of a protocol message are library code.\<close>

record collector_lib = mime_lib +
  lib_decode_categories :: "string \<Rightarrow> err + category list"
  lib_proto_json :: "suite_result \<Rightarrow> err + string"

record summary =
  sm_path :: string
  sm_passed :: nat
  sm_failed :: nat
  sm_broken :: nat
  sm_skipped :: nat
  sm_retries :: nat
  sm_containers :: nat
  sm_attachments :: nat
  sm_warnings :: nat
  sm_elapsed :: int

record collector =
  cl_cfg :: config
  cl_root :: string
  cl_env :: env_map
  cl_mapper :: mapper
  cl_writer :: sink

record engine =
  en_started :: gtime
  en_starts :: "string \<Rightarrow> gtime option"
  en_live :: "string \<Rightarrow> live_info option"
  en_uuids :: env_map
  en_results :: "(string \<times> test_result) list"
  en_warnings :: "err list"
  en_finalized :: bool
  en_project :: string
  en_gauge_env :: string
  en_streams :: int32
  en_summary :: summary

definition no_summary :: summary where
  "no_summary = \<lparr>sm_path = [], sm_passed = 0, sm_failed = 0, sm_broken = 0, sm_skipped = 0, sm_retries = 0,
     sm_containers = 0, sm_attachments = 0, sm_warnings = 0, sm_elapsed = 0\<rparr>"

text \<open>\<^verbatim>\<open>New\<close>: the state it starts with; the clock is read once.\<close>

definition new_engine :: "world \<Rightarrow> engine \<times> world" where
  "new_engine w =
     (case now w of (t, w) \<Rightarrow>
        (\<lparr>en_started = t, en_starts = Map.empty, en_live = Map.empty, en_uuids = Map.empty, en_results = [],
          en_warnings = [], en_finalized = False, en_project = [], en_gauge_env = [], en_streams = 0,
          en_summary = no_summary\<rparr>, w))"

section \<open>Helpers\<close>

text \<open>The key that pairs a start event with its end.\<close>

definition correlation :: "string \<Rightarrow> int32 \<Rightarrow> execution_info option \<Rightarrow> string" where
  "correlation scope stream info =
     (case info of
        None \<Rightarrow> scope @ '':'' @ show_int (sint stream) @ '':nil''
      | Some i \<Rightarrow>
          scope @ '':'' @ show_int (sint stream) @ '':'' @ show_int (sint (xi_runner i)) @ '':'' @
          nget [] ci_file (xi_spec i) @ '':'' @ nget [] cs_name (xi_scenario i) @ '':'' @ nget [] id (xi_step i) @ '':'' @
          show_int (sint (current_retry info)))"

definition max32 :: "int32 \<Rightarrow> int32 \<Rightarrow> int32" where
  "max32 a b = (if b <s a then a else b)"

definition add_warning :: "err \<Rightarrow> engine \<Rightarrow> engine" where
  "add_warning e en = en\<lparr>en_warnings := en_warnings en @ [e]\<rparr>"

text \<open>In strict mode an error is returned, otherwise it becomes a warning.\<close>

definition handle_error :: "collector \<Rightarrow> err \<Rightarrow> engine \<Rightarrow> err option \<times> engine" where
  "handle_error cl e en = (if c_strict (cl_cfg cl) then (Some e, en) else (None, add_warning e en))"

lemma steps_smaller [termination_simp]: "size_list size (s_steps s) < size s"
  by (cases s) simp

fun count_attachments :: "step_result list \<Rightarrow> nat" where
  "count_attachments [] = 0"
| "count_attachments (s # ss) = length (s_attachments s) + count_attachments (s_steps s) + count_attachments ss"

text \<open>The name of the diagnostic dump: a name-based identifier from the digest of its data.\<close>

definition diagnostic_source :: "string \<Rightarrow> string" where
  "diagnostic_source data =
     (let v = map word_of_nat (take 16 (sha256 data)) :: 8 word list;
          v = v[6 := (v ! 6 AND 0x0F) OR 0x50];
          v = v[8 := (v ! 8 AND 0x3F) OR 0x80]
      in uuid_text v @ ''-attachment.json'')"

text \<open>\<^verbatim>\<open>time.Since\<close> in nanoseconds, saturated to a 64-bit duration.\<close>

definition time_since :: "gtime \<Rightarrow> gtime \<Rightarrow> int" where
  "time_since t started =
     max (- 9223372036854775808) (min 9223372036854775807
       ((t_sec t - t_sec started) * 1000000000 + (int (t_nsec t) - int (t_nsec started))))"

section \<open>Lifecycle events\<close>

definition record_start :: "string \<Rightarrow> int32 \<Rightarrow> execution_info option \<Rightarrow> engine \<Rightarrow> world \<Rightarrow> engine \<times> world" where
  "record_start scope stream info en w =
     (case now w of (t, w) \<Rightarrow> (en\<lparr>en_starts := (en_starts en)(correlation scope stream info \<mapsto> t)\<rparr>, w))"

definition record_end :: "string \<Rightarrow> int32 \<Rightarrow> execution_info option \<Rightarrow> engine \<Rightarrow> engine" where
  "record_end scope stream info en = en\<lparr>en_starts := (en_starts en)(correlation scope stream info := None)\<rparr>"

definition execution_starting :: "event_request option \<Rightarrow> engine \<Rightarrow> world \<Rightarrow> engine \<times> world" where
  "execution_starting request en w =
     (case request of
        None \<Rightarrow> (add_warning (Errorf ''received nil execution-start event'' []) en, w)
      | Some r \<Rightarrow>
          record_start ''suite'' (ev_stream r) (ev_info r)
            (en\<lparr>en_project := first_nonempty [nget [] xi_project (ev_info r), nget [] su_project (ev_suite r), en_project en],
                en_gauge_env := first_nonempty [nget [] su_environment (ev_suite r), en_gauge_env en],
                en_streams := max32 (en_streams en) (nget 0 xi_streams (ev_info r))\<rparr>) w)"

definition scope_starting :: "string \<Rightarrow> string \<Rightarrow> event_request option \<Rightarrow> engine \<Rightarrow> world \<Rightarrow> engine \<times> world" where
  "scope_starting scope message request en w =
     (case request of
        None \<Rightarrow> (add_warning (Errorf message []) en, w)
      | Some r \<Rightarrow> record_start scope (ev_stream r) (ev_info r) en w)"

definition scope_ending :: "string \<Rightarrow> string \<Rightarrow> event_request option \<Rightarrow> engine \<Rightarrow> engine" where
  "scope_ending scope message request en =
     (case request of
        None \<Rightarrow> add_warning (Errorf message []) en
      | Some r \<Rightarrow> record_end scope (ev_stream r) (ev_info r) en)"

definition execution_ending :: "event_request option \<Rightarrow> engine \<Rightarrow> engine" where
  "execution_ending = scope_ending ''suite'' ''received nil execution-end event''"

definition spec_starting :: "event_request option \<Rightarrow> engine \<Rightarrow> world \<Rightarrow> engine \<times> world" where
  "spec_starting = scope_starting ''spec'' ''received nil specification-start event''"

definition spec_ending :: "event_request option \<Rightarrow> engine \<Rightarrow> engine" where
  "spec_ending = scope_ending ''spec'' ''received nil specification-end event''"

definition scenario_starting :: "event_request option \<Rightarrow> engine \<Rightarrow> world \<Rightarrow> engine \<times> world" where
  "scenario_starting = scope_starting ''scenario'' ''received nil scenario-start event''"

text \<open>Steps and concepts: a nil start is recorded under the zero stream, a nil end is ignored.\<close>

definition part_starting :: "string \<Rightarrow> event_request option \<Rightarrow> engine \<Rightarrow> world \<Rightarrow> engine \<times> world" where
  "part_starting scope request =
     record_start scope (nget 0 ev_stream request) (case request of None \<Rightarrow> None | Some r \<Rightarrow> ev_info r)"

definition part_ending :: "string \<Rightarrow> event_request option \<Rightarrow> engine \<Rightarrow> engine" where
  "part_ending scope request en =
     (case request of None \<Rightarrow> en | Some r \<Rightarrow> record_end scope (ev_stream r) (ev_info r) en)"

datatype event =
  Execution_starting "event_request option" | Execution_ending "event_request option"
| Spec_starting "event_request option" | Spec_ending "event_request option"
| Scenario_starting "event_request option"
| Step_starting "event_request option" | Step_ending "event_request option"
| Concept_starting "event_request option" | Concept_ending "event_request option"

fun event_step :: "event \<Rightarrow> engine \<Rightarrow> world \<Rightarrow> engine \<times> world" where
  "event_step (Execution_starting r) en w = execution_starting r en w"
| "event_step (Execution_ending r) en w = (execution_ending r en, w)"
| "event_step (Spec_starting r) en w = spec_starting r en w"
| "event_step (Spec_ending r) en w = (spec_ending r en, w)"
| "event_step (Scenario_starting r) en w = scenario_starting r en w"
| "event_step (Step_starting r) en w = part_starting ''step'' r en w"
| "event_step (Step_ending r) en w = (part_ending ''step'' r en, w)"
| "event_step (Concept_starting r) en w = part_starting ''concept'' r en w"
| "event_step (Concept_ending r) en w = (part_ending ''concept'' r en, w)"

section \<open>The end of a scenario\<close>

text \<open>
  The critical section that records an attempt: the event's own start replaces the reported one, and a
  stop before it is replaced by the present.
\<close>

definition live_start :: "string \<Rightarrow> result_artifact \<Rightarrow> engine \<Rightarrow> world \<Rightarrow> result_artifact \<times> engine \<times> world" where
  "live_start key a en w =
     (case en_starts en key of
        None \<Rightarrow> (a, en, w)
      | Some start \<Rightarrow>
          let r = (ra_result a)\<lparr>t_start := unix_milli start\<rparr>;
              (r, w) = (if t_stop r <s t_start r then (case now w of (t, w) \<Rightarrow> (r\<lparr>t_stop := unix_milli t\<rparr>, w)) else (r, w))
          in (a\<lparr>ra_result := r\<rparr>, en\<lparr>en_starts := (en_starts en)(key := None)\<rparr>, w))"

definition record_attempt :: "scenario_ending \<Rightarrow> result_artifact \<Rightarrow> err list \<Rightarrow> engine \<Rightarrow> world
    \<Rightarrow> result_artifact \<times> engine \<times> world" where
  "record_attempt req a warnings en w =
     (case live_start (correlation ''scenario'' (sg_stream req) (sg_info req)) a en w of
        (a, en, w) \<Rightarrow>
          (a, en\<lparr>en_uuids := (en_uuids en)(ra_key a \<mapsto> t_uuid (ra_result a)),
                 en_live := (en_live en)(ra_key a \<mapsto>
                   \<lparr>lv_range = \<lparr>r_start = t_start (ra_result a), r_stop = t_stop (ra_result a)\<rparr>,
                    lv_stream = sg_stream req, lv_runner = nget 0 xi_runner (sg_info req),
                    lv_retry = current_retry (sg_info req)\<rparr>),
                 en_warnings := en_warnings en @ warnings\<rparr>, w))"

text \<open>
  The control points of \<^verbatim>\<open>ScenarioEnding\<close>: before the first mapping; at the first critical section; before
  the second mapping, with the identifier another call recorded for the attempt; at the critical section
  after it; before the file is written; before the result is stored; in \<^verbatim>\<open>handleError\<close>; returned.
\<close>

datatype ending_pc =
  Ending_begin "scenario_ending option"
| Ending_lock scenario_ending result_artifact "err list"
| Ending_remap scenario_ending string
| Ending_record scenario_ending result_artifact "err list"
| Ending_write result_artifact
| Ending_store result_artifact
| Ending_fail err
| Ending_done "err option"

definition ending_recorded :: "scenario_ending \<Rightarrow> result_artifact \<Rightarrow> err list \<Rightarrow> engine \<Rightarrow> world
    \<Rightarrow> ending_pc \<times> engine \<times> world" where
  "ending_recorded req a warnings en w =
     (case record_attempt req a warnings en w of (a, en, w) \<Rightarrow> (Ending_write a, en, w))"

text \<open>One step; \<^const>\<open>None\<close> is a panic of the mapper.  A call that has returned stays where it is.\<close>

fun ending_step :: "'u collector_lib_scheme \<Rightarrow> collector \<Rightarrow> ctx \<Rightarrow> ending_pc \<Rightarrow> engine \<Rightarrow> world
    \<Rightarrow> (ending_pc \<times> engine \<times> world) option" where
  "ending_step lib cl c (Ending_begin None) en w =
     Some (Ending_fail (Errorf ''received nil scenario-end event'' []), en, w)"
| "ending_step lib cl c (Ending_begin (Some req)) en w =
     (case map_live_scenario lib (cl_mapper cl) c (Some req) [] w of
        None \<Rightarrow> None
      | Some (Inl e, _, w) \<Rightarrow> Some (Ending_fail e, en, w)
      | Some (Inr a, warnings, w) \<Rightarrow> Some (Ending_lock req a warnings, en, w))"
| "ending_step lib cl c (Ending_lock req a warnings) en w =
     (let uuid = env_get (en_uuids en) (ra_key a) in
      if uuid \<noteq> [] \<and> uuid \<noteq> t_uuid (ra_result a) then Some (Ending_remap req uuid, en, w)
      else Some (ending_recorded req a warnings en w))"
| "ending_step lib cl c (Ending_remap req uuid) en w =
     (case map_live_scenario lib (cl_mapper cl) c (Some req) uuid w of
        None \<Rightarrow> None
      | Some (Inl e, _, w) \<Rightarrow> Some (Ending_fail e, en, w)
      | Some (Inr a, warnings, w) \<Rightarrow> Some (Ending_record req a warnings, en, w))"
| "ending_step lib cl c (Ending_record req a warnings) en w = Some (ending_recorded req a warnings en w)"
| "ending_step lib cl c (Ending_write a) en w =
     (if c_write_mode (cl_cfg cl) = ''streaming'' then
        (case sk_result (cl_writer cl) c (ra_result a) w of
           (Some e, w) \<Rightarrow> Some (Ending_fail (Wrapf ''stream scenario result: %w'' [] e), en, w)
         | (None, w) \<Rightarrow> Some (Ending_store a, en, w))
      else Some (Ending_store a, en, w))"
| "ending_step lib cl c (Ending_store a) en w =
     Some (Ending_done None, en\<lparr>en_results := AList.update (t_uuid (ra_result a)) (ra_result a) (en_results en)\<rparr>, w)"
| "ending_step lib cl c (Ending_fail e) en w = (case handle_error cl e en of (r, en) \<Rightarrow> Some (Ending_done r, en, w))"
| "ending_step lib cl c (Ending_done r) en w = Some (Ending_done r, en, w)"

fun ending_rank :: "ending_pc \<Rightarrow> nat" where
  "ending_rank (Ending_begin r) = 6"
| "ending_rank (Ending_lock r a ws) = 5"
| "ending_rank (Ending_remap r u) = 4"
| "ending_rank (Ending_record r a ws) = 3"
| "ending_rank (Ending_write a) = 2"
| "ending_rank (Ending_store a) = 1"
| "ending_rank (Ending_fail e) = 1"
| "ending_rank (Ending_done r) = 0"

lemma ending_rank_decreases:
  "ending_step lib cl c pc en w = Some (pc', en', w') \<Longrightarrow> ending_rank pc \<noteq> 0 \<Longrightarrow> ending_rank pc' < ending_rank pc"
  by (cases "(lib, cl, c, pc, en, w)" rule: ending_step.cases)
    (auto simp: ending_recorded_def Let_def split: sum.splits prod.splits if_splits option.splits)

text \<open>The call on its own: it runs until it returns.\<close>

function scenario_ending_call :: "'u collector_lib_scheme \<Rightarrow> collector \<Rightarrow> ctx \<Rightarrow> ending_pc \<Rightarrow> engine \<Rightarrow> world
    \<Rightarrow> (err option \<times> engine \<times> world) option" where
  "scenario_ending_call lib cl c pc en w =
     (if ending_rank pc = 0 then Some (case pc of Ending_done r \<Rightarrow> r | _ \<Rightarrow> None, en, w)
      else
        (case ending_step lib cl c pc en w of
           None \<Rightarrow> None
         | Some (pc, en, w) \<Rightarrow> scenario_ending_call lib cl c pc en w))"
  by pat_completeness auto
termination
  by (relation "measure (\<lambda>(lib, cl, c, pc, en, w). ending_rank pc)") (auto dest: ending_rank_decreases)

declare scenario_ending_call.simps [simp del]

section \<open>Finalization\<close>

definition categories_of :: "'u collector_lib_scheme \<Rightarrow> collector \<Rightarrow> world \<Rightarrow> (err + category list option) \<times> world" where
  "categories_of lib cl w =
     (let cfg = cl_cfg cl in
      if c_categories_file cfg \<noteq> [] then
        (let path = c_categories_file cfg;
             path = (if is_abs path then path else path_join [cl_root cl, path])
         in case os_lstat path w of
              (Inl e, w) \<Rightarrow> (Inl (Wrapf ''inspect categories file: %w'' [] e), w)
            | (Inr (File_node content), w) \<Rightarrow>
                if 1048576 < length content then
                  (Inl (Errorf ''categories file must be a regular non-symlink file no larger than 1 MiB'' []), w)
                else (case os_read_file path w of
                        (Inl e, w) \<Rightarrow> (Inl (Wrapf ''read categories: %w'' [] e), w)
                      | (Inr data, w) \<Rightarrow>
                          (case lib_decode_categories lib data of
                             Inl e \<Rightarrow> (Inl (Wrapf ''decode categories: %w'' [] e), w)
                           | Inr cs \<Rightarrow> (Inr (Some cs), w)))
            | (Inr _, w) \<Rightarrow>
                (Inl (Errorf ''categories file must be a regular non-symlink file no larger than 1 MiB'' []), w))
      else if c_categories_profile cfg = ''gauge-default'' then
        (Inr (Some [\<lparr>cat_name = ''Gauge infrastructure and integration errors'', cat_statuses = [Broken]\<rparr>,
                    \<lparr>cat_name = ''Gauge assertion failures'', cat_statuses = [Failed]\<rparr>]), w)
      else (Inr None, w))"

definition write_executor_metadata :: "'u collector_lib_scheme \<Rightarrow> collector \<Rightarrow> ctx \<Rightarrow> world \<Rightarrow> err option \<times> world" where
  "write_executor_metadata lib cl c w =
     (let cfg = cl_cfg cl in
      if c_executor_auto cfg \<or> x_name (c_executor cfg) \<noteq> [] \<or> x_type (c_executor cfg) \<noteq> [] then
        (case executor_info lib (cl_env cl) (c_executor cfg) of
           None \<Rightarrow> (None, w)
         | Some executor \<Rightarrow>
             (case sk_executor (cl_writer cl) c executor w of
                (Some e, w) \<Rightarrow> (Some (Wrapf ''write executor metadata: %w'' [] e), w)
              | (None, w) \<Rightarrow> (None, w)))
      else (None, w))"

definition write_categories_metadata :: "'u collector_lib_scheme \<Rightarrow> collector \<Rightarrow> ctx \<Rightarrow> world \<Rightarrow> err option \<times> world" where
  "write_categories_metadata lib cl c w =
     (case categories_of lib cl w of
        (Inl e, w) \<Rightarrow> (Some e, w)
      | (Inr None, w) \<Rightarrow> (None, w)
      | (Inr (Some cs), w) \<Rightarrow>
          (case sk_categories (cl_writer cl) c cs w of
             (Some e, w) \<Rightarrow> (Some (Wrapf ''write categories: %w'' [] e), w)
           | (None, w) \<Rightarrow> (None, w)))"

definition write_metadata :: "'u collector_lib_scheme \<Rightarrow> collector \<Rightarrow> ctx \<Rightarrow> suite_result option \<Rightarrow> engine \<Rightarrow> world
    \<Rightarrow> err option \<times> world" where
  "write_metadata lib cl c suite en w =
     (let project = (case suite of None \<Rightarrow> en_project en | Some s \<Rightarrow> first_nonempty [su_project s, en_project en]);
          gauge_env = (case suite of None \<Rightarrow> en_gauge_env en | Some s \<Rightarrow> first_nonempty [su_environment s, en_gauge_env en])
      in case sk_environment (cl_writer cl) c
                (environment_info lib (cl_env cl) (cl_cfg cl) project gauge_env (en_streams en)) w of
           (Some e, w) \<Rightarrow> (Some (Wrapf ''write environment metadata: %w'' [] e), w)
         | (None, w) \<Rightarrow>
             (case write_executor_metadata lib cl c w of
                (Some e, w) \<Rightarrow> (Some e, w)
              | (None, w) \<Rightarrow> write_categories_metadata lib cl c w))"

text \<open>
  The control points of \<^verbatim>\<open>Finalize\<close>: at the critical section that claims the run and copies the live data;
  before the mapping; before the diagnostic dump; before the file of the next result; at the critical
  section that stores it; before the next container; before the warnings are kept; before the metadata;
  with all errors; before the summary; in \<^verbatim>\<open>handleError\<close>; returned.  The nil request is \<^const>\<open>None\<close>.  The
  writes of \<^verbatim>\<open>writeMetadata\<close>, which no other call makes, are one step.

  \<^verbatim>\<open>FinalizeInterrupted\<close> reads the state in one critical section and claims the run in another.
\<close>

datatype finalize_pc =
  Interrupt_begin
| Interrupt_claim
| Final_begin "suite_result option option"
| Final_map "suite_result option" "string \<Rightarrow> live_info option" env_map
| Final_dump "suite_result option" suite_output
| Final_results "suite_result option" suite_output "result_artifact list" "err list"
| Final_store "suite_result option" suite_output result_artifact "result_artifact list" "err list"
| Final_containers "suite_result option" suite_output "container list" "err list"
| Final_warnings "suite_result option" suite_output "err list"
| Final_metadata "suite_result option" suite_output "err list"
| Final_join suite_output "err list"
| Final_add_warning suite_output err
| Final_summary nat nat
| Final_fail err
| Final_done "err option"

definition protocol_attachment :: "string \<Rightarrow> attachment" where
  "protocol_attachment source = \<lparr>a_name = ''Gauge suite protocol diagnostic (sensitive)'',
     a_type = ''application/json'', a_source = source\<rparr>"

text \<open>The dump of the protocol message, attached to the first result.\<close>

definition attach_first :: "attachment \<Rightarrow> result_artifact list \<Rightarrow> result_artifact list" where
  "attach_first at as =
     (case as of [] \<Rightarrow> []
      | a # rest \<Rightarrow> a\<lparr>ra_result := (ra_result a)\<lparr>t_attachments := t_attachments (ra_result a) @ [at]\<rparr>\<rparr> # rest)"

definition diagnostic_dump :: "'u collector_lib_scheme \<Rightarrow> collector \<Rightarrow> ctx \<Rightarrow> suite_result option \<Rightarrow> suite_output \<Rightarrow> world
    \<Rightarrow> suite_output \<times> err list \<times> world" where
  "diagnostic_dump lib cl c suite out w =
     (case suite of
        None \<Rightarrow> (out, [], w)
      | Some s \<Rightarrow>
          if \<not> c_proto_dump (cl_cfg cl) \<or> so_results out = [] then (out, [], w)
          else
            (case lib_proto_json lib s of
               Inl e \<Rightarrow> (out, [Wrapf ''marshal diagnostic proto dump: %w'' [] e], w)
             | Inr text \<Rightarrow>
                 (let data = text @ [newline];
                      source = diagnostic_source data
                  in case sk_attachment (cl_writer cl) c source data (int (length data)) w of
                       (Some e, w) \<Rightarrow> (out, [Wrapf ''write diagnostic proto dump: %w'' [] e], w)
                     | (None, w) \<Rightarrow>
                         (out\<lparr>so_results := attach_first (protocol_attachment source) (so_results out)\<rparr>, [], w))))"

definition fixture_attachments :: "container list \<Rightarrow> nat" where
  "fixture_attachments boxes =
     (\<Sum>box\<leftarrow>boxes. \<Sum>f\<leftarrow>o_befores box @ o_afters box. length (f_attachments f) + count_attachments (f_steps f))"

definition retries_of :: "test_result \<Rightarrow> nat" where
  "retries_of r = length (filter (\<lambda>p. p_name p = ''retry'') (t_params r))"

definition add_to_summary :: "test_result \<Rightarrow> summary \<Rightarrow> summary" where
  "add_to_summary r s =
     (let s = (case t_status r of
              Passed \<Rightarrow> s\<lparr>sm_passed := sm_passed s + 1\<rparr>
            | Failed \<Rightarrow> s\<lparr>sm_failed := sm_failed s + 1\<rparr>
            | Broken \<Rightarrow> s\<lparr>sm_broken := sm_broken s + 1\<rparr>
            | Skipped \<Rightarrow> s\<lparr>sm_skipped := sm_skipped s + 1\<rparr>)
      in s\<lparr>sm_retries := sm_retries s + retries_of r,
           sm_attachments := sm_attachments s + count_attachments (t_steps r) + length (t_attachments r)\<rparr>)"

definition finish_summary :: "collector \<Rightarrow> nat \<Rightarrow> nat \<Rightarrow> engine \<Rightarrow> world \<Rightarrow> engine \<times> world" where
  "finish_summary cl containers fixtures en w =
     (case now w of (t, w) \<Rightarrow>
        (en\<lparr>en_summary := fold add_to_summary (map snd (en_results en))
              (no_summary\<lparr>sm_path := c_results_dir (cl_cfg cl), sm_containers := containers,
                 sm_warnings := length (en_warnings en), sm_elapsed := time_since t (en_started en),
                 sm_attachments := fixtures\<rparr>)\<rparr>, w))"

text \<open>
  The two critical sections of \<^verbatim>\<open>FinalizeInterrupted\<close>: a run that is already finalized is left alone, one
  with results is claimed and summed up, one without is finalized without a suite.
\<close>

definition interrupted :: "engine \<Rightarrow> finalize_pc" where
  "interrupted en =
     (if en_finalized en then Final_done None
      else if en_results en \<noteq> [] then Interrupt_claim else Final_begin None)"

definition claim_interrupted :: "engine \<Rightarrow> finalize_pc \<times> engine" where
  "claim_interrupted en = (Final_summary 0 0, en\<lparr>en_finalized := True\<rparr>)"

declare interrupted_def [simp] claim_interrupted_def [simp]

fun finalize_step :: "'u collector_lib_scheme \<Rightarrow> collector \<Rightarrow> ctx \<Rightarrow> finalize_pc \<Rightarrow> engine \<Rightarrow> world
    \<Rightarrow> (finalize_pc \<times> engine \<times> world) option" where
  "finalize_step lib cl c Interrupt_begin en w =
     Some (interrupted en, en, w)"
| "finalize_step lib cl c Interrupt_claim en w = (case claim_interrupted en of (pc, en) \<Rightarrow> Some (pc, en, w))"
| "finalize_step lib cl c (Final_begin request) en w =
     (if en_finalized en then Some (Final_done None, en, w)
      else Some (Final_map (case request of None \<Rightarrow> None | Some suite \<Rightarrow> suite) (en_live en) (en_uuids en),
                 en\<lparr>en_finalized := True\<rparr>, w))"
| "finalize_step lib cl c (Final_map suite live existing) en w =
     (case map_suite lib (cl_mapper cl) c suite live existing w of
        None \<Rightarrow> None
      | Some (_, Some e, w) \<Rightarrow> Some (Final_fail e, en, w)
      | Some (out, None, w) \<Rightarrow> Some (Final_dump suite out, en, w))"
| "finalize_step lib cl c (Final_dump suite out) en w =
     (case diagnostic_dump lib cl c suite out w of
        (out, errors, w) \<Rightarrow> Some (Final_results suite out (so_results out) errors, en, w))"
| "finalize_step lib cl c (Final_results suite out [] errors) en w =
     Some (Final_containers suite out (so_containers out) errors, en, w)"
| "finalize_step lib cl c (Final_results suite out (a # rest) errors) en w =
     (case sk_result (cl_writer cl) c (ra_result a) w of
        (Some e, w) \<Rightarrow>
          Some (Final_results suite out rest (errors @ [Wrapf ''write result %s: %w'' [ra_key a] e]), en, w)
      | (None, w) \<Rightarrow> Some (Final_store suite out a rest errors, en, w))"
| "finalize_step lib cl c (Final_store suite out a rest errors) en w =
     Some (Final_results suite out rest errors,
       en\<lparr>en_uuids := (en_uuids en)(ra_key a \<mapsto> t_uuid (ra_result a)),
          en_results := AList.update (t_uuid (ra_result a)) (ra_result a) (en_results en)\<rparr>, w)"
| "finalize_step lib cl c (Final_containers suite out [] errors) en w = Some (Final_warnings suite out errors, en, w)"
| "finalize_step lib cl c (Final_containers suite out (box # boxes) errors) en w =
     (case sk_container (cl_writer cl) c box w of
        (Some e, w) \<Rightarrow>
          Some (Final_containers suite out boxes (errors @ [Wrapf ''write container: %w'' [] e]), en, w)
      | (None, w) \<Rightarrow> Some (Final_containers suite out boxes errors, en, w))"
| "finalize_step lib cl c (Final_warnings suite out errors) en w =
     Some (Final_metadata suite out errors, en\<lparr>en_warnings := en_warnings en @ so_warnings out\<rparr>, w)"
| "finalize_step lib cl c (Final_metadata suite out errors) en w =
     (case write_metadata lib cl c suite en w of
        (e, w) \<Rightarrow> Some (Final_join out (errors @ (case e of None \<Rightarrow> [] | Some e \<Rightarrow> [e])), en, w))"
| "finalize_step lib cl c (Final_join out errors) en w =
     Some (if errors = [] then Final_summary (length (so_containers out)) (fixture_attachments (so_containers out))
           else if c_strict (cl_cfg cl) then Final_done (Some (Join_err errors))
           else Final_add_warning out (Join_err errors), en, w)"
| "finalize_step lib cl c (Final_add_warning out e) en w =
     Some (Final_summary (length (so_containers out)) (fixture_attachments (so_containers out)), add_warning e en, w)"
| "finalize_step lib cl c (Final_summary containers fixtures) en w =
     (case finish_summary cl containers fixtures en w of (en, w) \<Rightarrow> Some (Final_done None, en, w))"
| "finalize_step lib cl c (Final_fail e) en w = (case handle_error cl e en of (r, en) \<Rightarrow> Some (Final_done r, en, w))"
| "finalize_step lib cl c (Final_done r) en w = Some (Final_done r, en, w)"

text \<open>How far a call is from its return: the stage, then the work left in it.\<close>

fun finalize_stage :: "finalize_pc \<Rightarrow> nat" where
  "finalize_stage Interrupt_begin = 11"
| "finalize_stage Interrupt_claim = 10"
| "finalize_stage (Final_begin r) = 10"
| "finalize_stage (Final_map s l u) = 9"
| "finalize_stage (Final_dump s out) = 8"
| "finalize_stage (Final_results s out as es) = 7"
| "finalize_stage (Final_store s out a as es) = 7"
| "finalize_stage (Final_containers s out bs es) = 6"
| "finalize_stage (Final_warnings s out es) = 5"
| "finalize_stage (Final_metadata s out es) = 4"
| "finalize_stage (Final_join out es) = 3"
| "finalize_stage (Final_add_warning out e) = 2"
| "finalize_stage (Final_summary n k) = 1"
| "finalize_stage (Final_fail e) = 1"
| "finalize_stage (Final_done r) = 0"

fun finalize_left :: "finalize_pc \<Rightarrow> nat" where
  "finalize_left (Final_results s out as es) = 2 * length as"
| "finalize_left (Final_store s out a as es) = 2 * length as + 1"
| "finalize_left (Final_containers s out bs es) = length bs"
| "finalize_left _ = 0"

lemma finalize_left_decreases:
  "finalize_step lib cl c pc en w = Some (pc', en', w') \<Longrightarrow> finalize_stage pc \<noteq> 0 \<Longrightarrow>
     finalize_stage pc' < finalize_stage pc \<or>
     (finalize_stage pc' = finalize_stage pc \<and> finalize_left pc' < finalize_left pc)"
  by (cases "(lib, cl, c, pc, en, w)" rule: finalize_step.cases)
    (auto split: prod.splits if_splits option.splits)

function finalize_call :: "'u collector_lib_scheme \<Rightarrow> collector \<Rightarrow> ctx \<Rightarrow> finalize_pc \<Rightarrow> engine \<Rightarrow> world
    \<Rightarrow> (err option \<times> engine \<times> world) option" where
  "finalize_call lib cl c pc en w =
     (if finalize_stage pc = 0 then Some (case pc of Final_done r \<Rightarrow> r | _ \<Rightarrow> None, en, w)
      else
        (case finalize_step lib cl c pc en w of
           None \<Rightarrow> None
         | Some (pc, en, w) \<Rightarrow> finalize_call lib cl c pc en w))"
  by pat_completeness auto
termination
  by (relation "measures [\<lambda>(lib, cl, c, pc, en, w). finalize_stage pc, \<lambda>(lib, cl, c, pc, en, w). finalize_left pc]")
    (auto dest: finalize_left_decreases)

declare finalize_call.simps [simp del]

end
