(* ===== verification/Collector_Runs.thy ===== *)
theory Collector_Runs
  imports Collector Suite_Reconciliation
begin

text \<open>
  The engine of \<^verbatim>\<open>internal/collector/collector.go\<close> under concurrent calls.

  A configuration is the state behind the mutex, the calls in progress and the world.  A step lets any one
  of the calls take its next critical section, or its next call of the mapper or the writer.  A run may
  start further calls at any time, and other processes may change the world at any time.  What holds of
  every reachable configuration holds under every schedule.
\<close>

section \<open>Interleaved calls\<close>

datatype call =
  Event_call event
| Ending_call ending_pc
| Final_call finalize_pc
| Returned

fun returned :: "call \<Rightarrow> bool" where
  "returned (Event_call e) = False"
| "returned (Ending_call pc) = (ending_rank pc = 0)"
| "returned (Final_call pc) = (finalize_stage pc = 0)"
| "returned Returned = True"

fun call_step :: "'u collector_lib_scheme \<Rightarrow> collector \<Rightarrow> ctx \<Rightarrow> call \<Rightarrow> engine \<Rightarrow> world
    \<Rightarrow> (call \<times> engine \<times> world) option" where
  "call_step lib cl c (Event_call e) en w = (case event_step e en w of (en, w) \<Rightarrow> Some (Returned, en, w))"
| "call_step lib cl c (Ending_call pc) en w =
     map_option (\<lambda>(pc, en, w). (Ending_call pc, en, w)) (ending_step lib cl c pc en w)"
| "call_step lib cl c (Final_call pc) en w =
     map_option (\<lambda>(pc, en, w). (Final_call pc, en, w)) (finalize_step lib cl c pc en w)"
| "call_step lib cl c Returned en w = Some (Returned, en, w)"

text \<open>Where a call can begin.\<close>

inductive entry :: "call \<Rightarrow> bool" where
  event_entry: "entry (Event_call e)"
| ending_entry: "entry (Ending_call (Ending_begin request))"
| final_entry: "entry (Final_call (Final_begin request))"
| interrupt_entry: "entry (Final_call Interrupt_begin)"

type_synonym configuration = "engine \<times> (ctx \<times> call) list \<times> world"

inductive move :: "'u collector_lib_scheme \<Rightarrow> collector \<Rightarrow> configuration \<Rightarrow> configuration \<Rightarrow> bool" for lib cl where
  move: "i < length ts \<Longrightarrow> ts ! i = (c, t) \<Longrightarrow> \<not> returned t \<Longrightarrow> call_step lib cl c t en w = Some (t', en', w') \<Longrightarrow>
     move lib cl (en, ts, w) (en', ts[i := (c, t')], w')"

inductive run_step :: "'u collector_lib_scheme \<Rightarrow> collector \<Rightarrow> configuration \<Rightarrow> configuration \<Rightarrow> bool" for lib cl where
  moved: "move lib cl s s' \<Longrightarrow> run_step lib cl s s'"
| called: "entry t \<Longrightarrow> run_step lib cl (en, ts, w) (en, ts @ [(c, t)], w)"
| elsewhere: "run_step lib cl (en, ts, w) (en, ts, w')"

abbreviation run :: "'u collector_lib_scheme \<Rightarrow> collector \<Rightarrow> configuration \<Rightarrow> configuration \<Rightarrow> bool" where
  "run lib cl \<equiv> (run_step lib cl)\<^sup>*\<^sup>*"

definition reachable :: "'u collector_lib_scheme \<Rightarrow> collector \<Rightarrow> configuration \<Rightarrow> bool" where
  "reachable lib cl s \<longleftrightarrow> (\<exists>w. run lib cl (fst (new_engine w), [], snd (new_engine w)) s)"

inductive_cases move_cases: "move lib cl (en, ts, w) (en', ts', w')"
inductive_cases run_step_cases: "run_step lib cl (en, ts, w) (en', ts', w')"

lemma reachable_run: "reachable lib cl s \<Longrightarrow> run lib cl s s' \<Longrightarrow> reachable lib cl s'"
  unfolding reachable_def by (meson rtranclp_trans)

text \<open>
  What every step keeps: a predicate of the state and the calls that a new call keeps and that every step
  of every call keeps.  An invariant of the runs also holds at the start.
\<close>

locale step_invariant =
  fixes lib :: "'u collector_lib_scheme" and cl :: collector and J :: "engine \<Rightarrow> call list \<Rightarrow> bool"
  assumes at_call: "J en ts \<Longrightarrow> entry t \<Longrightarrow> J en (ts @ [t])"
    and at_move: "J en ts \<Longrightarrow> i < length ts \<Longrightarrow> \<not> returned (ts ! i) \<Longrightarrow>
      call_step lib cl c (ts ! i) en w = Some (t', en', w') \<Longrightarrow> J en' (ts[i := t'])"
begin

lemma step_keeps: "run_step lib cl (en, ts, w) (en', ts', w') \<Longrightarrow> J en (map snd ts) \<Longrightarrow> J en' (map snd ts')"
proof (erule run_step_cases)
  assume J: "J en (map snd ts)"
  show "J en' (map snd ts')" if "move lib cl (en, ts, w) (en', ts', w')"
    using that
  proof (cases rule: move.cases)
    case (move i c t t')
    then show ?thesis using at_move [OF J, of i c w t' en' w'] by (simp add: map_update)
  qed
qed (simp_all add: at_call)

lemma run_keeps: "run lib cl s s' \<Longrightarrow> J (fst s) (map snd (fst (snd s))) \<Longrightarrow> J (fst s') (map snd (fst (snd s')))"
proof (induction rule: rtranclp_induct)
  case (step y z)
  then show ?case by (metis step_keeps prod.collapse)
qed

end

locale run_invariant = step_invariant +
  assumes at_start: "J (fst (new_engine w)) []"
begin

lemma reachable_holds: "reachable lib cl (en, ts, w) \<Longrightarrow> J en (map snd ts)"
  unfolding reachable_def using run_keeps at_start by fastforce

end

section \<open>Every call returns\<close>

fun call_stage :: "call \<Rightarrow> nat" where
  "call_stage (Event_call e) = 1"
| "call_stage (Ending_call pc) = ending_rank pc"
| "call_stage (Final_call pc) = finalize_stage pc"
| "call_stage Returned = 0"

fun call_left :: "call \<Rightarrow> nat" where
  "call_left (Final_call pc) = finalize_left pc"
| "call_left _ = 0"

definition call_order :: "(call \<times> call) set" where
  "call_order = measures [call_stage, call_left]"

lemma call_decreases: "call_step lib cl c t en w = Some (t', en', w') \<Longrightarrow> \<not> returned t \<Longrightarrow> (t', t) \<in> call_order"
  by (cases t) (auto simp: call_order_def dest: ending_rank_decreases finalize_left_decreases split: prod.splits)

text \<open>The calls of a configuration, as a multiset under the order of single calls.\<close>

lemma move_decreases:
  assumes "move lib cl (en, ts, w) (en', ts', w')"
  shows "(mset (map snd ts'), mset (map snd ts)) \<in> mult call_order"
  using assms
proof (cases rule: move.cases)
  case (move i c t t')
  have less: "(t', t) \<in> call_order" using call_decreases move by blast
  have old: "mset (map snd ts) = add_mset t (mset (map snd ts) - {#t#})"
    using move by (metis in_set_conv_nth insert_DiffM length_map nth_map set_mset_mset snd_conv)
  have "mset (map snd ts') = add_mset t' (mset (map snd ts) - {#t#})"
    using move by (simp add: map_update mset_update)
  with old less show ?thesis
    using one_step_implies_mult [of "{#t#}" "{#t'#}" call_order "mset (map snd ts) - {#t#}"] by simp
qed

lemma wf_mult_call_order: "wf (mult call_order)"
  by (simp add: call_order_def wf_mult)

lemma move_wf: "wfP (\<lambda>s' s. move lib cl s s')"
proof -
  have "wf (inv_image (mult call_order) (\<lambda>(en, ts, w). mset (map snd ts)) :: (configuration \<times> configuration) set)"
    by (rule wf_inv_image) (rule wf_mult_call_order)
  moreover have "{(s', s). move lib cl s s'} \<subseteq> inv_image (mult call_order) (\<lambda>(en, ts, w). mset (map snd ts))"
    using move_decreases by (force simp: inv_image_def)
  ultimately show ?thesis unfolding wfp_def by (rule wf_subset)
qed

lemma no_move:
  assumes "\<nexists>s'. move lib cl (en, ts, w) s'" and "(c, t) \<in> set ts"
  shows "returned t \<or> call_step lib cl c t en w = None"
proof (rule ccontr)
  assume "\<not> ?thesis"
  then obtain t' en' w' where "\<not> returned t" "call_step lib cl c t en w = Some (t', en', w')"
    by (metis option.exhaust prod_cases3)
  moreover obtain i where "i < length ts" "ts ! i = (c, t)" using assms(2) by (auto simp: in_set_conv_nth)
  ultimately show False using assms(1) move.move by blast
qed

section \<open>At most one reconciliation\<close>

fun reconciling :: "call \<Rightarrow> bool" where
  "reconciling (Final_call pc) = (2 \<le> finalize_stage pc \<and> finalize_stage pc \<le> 9)"
| "reconciling _ = False"

definition one_reconciliation :: "engine \<Rightarrow> call list \<Rightarrow> bool" where
  "one_reconciliation en ts \<longleftrightarrow>
     length (filter reconciling ts) \<le> 1 \<and> (en_finalized en \<or> filter reconciling ts = [])"

lemma event_keeps: "event_step e en w = (en', w') \<Longrightarrow>
    en_finalized en' = en_finalized en \<and> en_uuids en' = en_uuids en \<and> en_results en' = en_results en"
  by (cases "(e, en, w)" rule: event_step.cases)
    (auto simp: execution_starting_def execution_ending_def scope_starting_def scope_ending_def spec_starting_def
      spec_ending_def scenario_starting_def part_starting_def part_ending_def record_start_def record_end_def
      add_warning_def split: option.splits prod.splits)

lemma live_start_keeps: "live_start key a en w = (a', en', w') \<Longrightarrow>
    en_finalized en' = en_finalized en \<and> en_uuids en' = en_uuids en \<and> en_results en' = en_results en \<and>
    ra_key a' = ra_key a \<and> t_uuid (ra_result a') = t_uuid (ra_result a) \<and> en_warnings en' = en_warnings en"
  by (auto simp: live_start_def Let_def split: option.splits prod.splits if_splits)

lemma record_attempt_effect: "record_attempt req a ws en w = (a', en', w') \<Longrightarrow>
    en_finalized en' = en_finalized en \<and> en_uuids en' = (en_uuids en)(ra_key a \<mapsto> t_uuid (ra_result a)) \<and>
    en_results en' = en_results en \<and> ra_key a' = ra_key a \<and> t_uuid (ra_result a') = t_uuid (ra_result a) \<and>
    en_warnings en' = en_warnings en @ ws"
  by (auto simp: record_attempt_def split: prod.splits dest: live_start_keeps)

lemma handle_error_keeps: "handle_error cl e en = (r, en') \<Longrightarrow>
    en_finalized en' = en_finalized en \<and> en_uuids en' = en_uuids en \<and> en_results en' = en_results en"
  by (auto simp: handle_error_def add_warning_def split: if_splits)

lemma ending_finalized: "ending_step lib cl c pc en w = Some (pc', en', w') \<Longrightarrow> en_finalized en' = en_finalized en"
  by (cases "(lib, cl, c, pc, en, w)" rule: ending_step.cases)
    (auto simp: ending_recorded_def Let_def split: sum.splits prod.splits if_splits option.splits
      dest: record_attempt_effect handle_error_keeps)

lemma finalize_claims:
  "finalize_step lib cl c pc en w = Some (pc', en', w') \<Longrightarrow>
     (en_finalized en \<longrightarrow> en_finalized en') \<and>
     (reconciling (Final_call pc') \<longrightarrow> reconciling (Final_call pc) \<or> (\<not> en_finalized en \<and> en_finalized en'))"
  by (cases "(lib, cl, c, pc, en, w)" rule: finalize_step.cases)
    (auto simp: finish_summary_def add_warning_def split: prod.splits if_splits option.splits dest: handle_error_keeps)

lemma call_claims:
  assumes "call_step lib cl c t en w = Some (t', en', w')"
  shows "en_finalized en \<longrightarrow> en_finalized en'"
    and "reconciling t' \<Longrightarrow> reconciling t \<or> (\<not> en_finalized en \<and> en_finalized en')"
  using assms by (cases t; auto split: prod.splits dest: event_keeps ending_finalized finalize_claims)+

lemma filter_update:
  assumes "i < length ts"
  shows "length (filter P (ts[i := t])) + (if P (ts ! i) then 1 else 0) = length (filter P ts) + (if P t then 1 else (0::nat))"
proof -
  have "length (filter P ts) = length (filter P (take i ts)) + (if P (ts ! i) then 1 else 0) + length (filter P (drop (Suc i) ts))"
    using arg_cong [OF id_take_nth_drop [OF assms], of "\<lambda>xs. length (filter P xs)"] by simp
  moreover have "length (filter P (ts[i := t])) = length (filter P (take i ts)) + (if P t then 1 else 0) + length (filter P (drop (Suc i) ts))"
    using assms by (simp add: upd_conv_take_nth_drop)
  ultimately show ?thesis by simp
qed

interpretation one_owner: run_invariant lib cl one_reconciliation for lib cl
proof unfold_locales
  show "one_reconciliation (fst (new_engine w)) []" for w by (simp add: one_reconciliation_def)
  show "one_reconciliation en (ts @ [t])" if "one_reconciliation en ts" "entry t" for en ts t
    using that by (auto simp: one_reconciliation_def elim: entry.cases)
  show "one_reconciliation en' (ts[i := t'])"
    if J: "one_reconciliation en ts" and i: "i < length ts" and run: "call_step lib cl c (ts ! i) en w = Some (t', en', w')"
    for en ts i c w t' en' w'
    using filter_update [OF i, of reconciling t'] J call_claims [OF run]
    by (auto simp: one_reconciliation_def split: if_splits)
qed

text \<open>Once the reconciliation is over no other begins.\<close>

definition closed_run :: "engine \<Rightarrow> call list \<Rightarrow> bool" where
  "closed_run en ts \<longleftrightarrow> en_finalized en \<and> filter reconciling ts = []"

interpretation closing: step_invariant lib cl closed_run for lib cl
proof unfold_locales
  show "closed_run en (ts @ [t])" if "closed_run en ts" "entry t" for en ts t
    using that by (auto simp: closed_run_def elim: entry.cases)
  show "closed_run en' (ts[i := t'])"
    if J: "closed_run en ts" and i: "i < length ts" and run: "call_step lib cl c (ts ! i) en w = Some (t', en', w')"
    for en ts i c w t' en' w'
    using filter_update [OF i, of reconciling t'] J call_claims [OF run]
    by (auto simp: closed_run_def split: if_splits)
qed

section \<open>The registry of identifiers\<close>

text \<open>
  The contract of the map from attempts to identifiers: an attempt is given an identifier once.  Until the
  run is claimed by a finalization the engine implements it.
\<close>

inductive registers :: "env_map \<Rightarrow> env_map \<Rightarrow> bool" where
  unchanged: "registers R R"
| assigned: "R k = None \<Longrightarrow> u \<noteq> [] \<Longrightarrow> registers R (R(k \<mapsto> u))"

lemma registers_mono: "registers\<^sup>*\<^sup>* R R' \<Longrightarrow> R \<subseteq>\<^sub>m R'"
proof (induction rule: rtranclp_induct)
  case (step y z)
  then show ?case by (auto simp: map_le_def elim!: registers.cases) (metis domI fun_upd_apply option.distinct(1))+
qed simp

text \<open>The attempt of a request: the key its mapping gives, whatever the world.\<close>

definition attempt_of :: "'u unicode_scheme \<Rightarrow> mapper \<Rightarrow> scenario_ending \<Rightarrow> string" where
  "attempt_of u m req =
     (case sg_result req of
        None \<Rightarrow> []
      | Some res \<Rightarrow>
          (case sn_item res of
             None \<Rightarrow> []
           | Some it \<Rightarrow>
               (let spec_info = (case sg_info req of None \<Rightarrow> None | Some i \<Rightarrow> xi_spec i);
                    spec = no_spec\<lparr>pr_heading := nget [] ci_name spec_info, pr_file := nget [] ci_file spec_info,
                      pr_tags := nget [] ci_tags spec_info, pr_items := [Some it]\<rparr>
                in case scenario_identity u m spec it of
                     None \<Rightarrow> []
                   | Some (identity, _, spec_row, scenario_row) \<Rightarrow>
                       attempt_key identity spec_row scenario_row (current_retry (sg_info req)))))"

lemma map_live_Inr:
  assumes "map_live_scenario lib m c (Some req) existing w = Some (Inr a, ws, w')"
  shows "ra_key a = attempt_of lib m req" and "existing \<noteq> [] \<Longrightarrow> t_uuid (ra_result a) = existing"
    and "uuid_source (mp_new_uuid m) \<Longrightarrow> t_uuid (ra_result a) \<noteq> []"
proof -
  obtain res it where req: "sg_result req = Some res" "sn_item res = Some it"
    using assms by (auto simp: map_live_scenario_def split: option.splits)
  obtain t w0 where now: "mp_now m w = (t, w0)" by fastforce
  note run = assms [unfolded map_live_scenario_def option.case req now Let_def prod.case]
  show "ra_key a = attempt_of lib m req"
    by (rule map_scenario_Inr [OF run]) (simp add: attempt_of_def req Let_def)
  show "t_uuid (ra_result a) = existing" if "existing \<noteq> []"
    by (rule map_scenario_Inr [OF run]) (use that in \<open>simp add: given_uuid_def\<close>)
  show "t_uuid (ra_result a) \<noteq> []" if "uuid_source (mp_new_uuid m)"
    by (rule map_scenario_Inr [OF run])
      (use that uuid_source.new_plain [OF that] in \<open>auto simp: given_uuid_def split: if_splits\<close>)
qed

definition registered :: "engine \<Rightarrow> result_artifact \<Rightarrow> bool" where
  "registered en a \<longleftrightarrow> en_uuids en (ra_key a) = Some (t_uuid (ra_result a)) \<and> t_uuid (ra_result a) \<noteq> []"

text \<open>What a call that is under way relies on.\<close>

fun pending :: "'u unicode_scheme \<Rightarrow> mapper \<Rightarrow> engine \<Rightarrow> call \<Rightarrow> bool" where
  "pending u m en (Ending_call (Ending_lock req a ws)) = (ra_key a = attempt_of u m req \<and> t_uuid (ra_result a) \<noteq> [])"
| "pending u m en (Ending_call (Ending_remap req v)) = (en_uuids en (attempt_of u m req) = Some v \<and> v \<noteq> [])"
| "pending u m en (Ending_call (Ending_record req a ws)) = registered en a"
| "pending u m en (Ending_call (Ending_write a)) = registered en a"
| "pending u m en (Ending_call (Ending_store a)) = registered en a"
| "pending u m en _ = True"

lemma registered_mono: "registered en a \<Longrightarrow> en_uuids en \<subseteq>\<^sub>m en_uuids en' \<Longrightarrow> registered en' a"
  unfolding registered_def map_le_def by (metis domI)

lemma pending_mono: "pending u m en t \<Longrightarrow> en_uuids en \<subseteq>\<^sub>m en_uuids en' \<Longrightarrow> pending u m en' t"
  by (cases "(u, m, en, t)" rule: pending.cases) (auto intro: registered_mono simp: map_le_def dest: bspec [OF _ domI])

definition all_named :: "engine \<Rightarrow> bool" where
  "all_named en \<longleftrightarrow> (\<forall>k u. en_uuids en k = Some u \<longrightarrow> u \<noteq> [])"

definition all_registered :: "engine \<Rightarrow> bool" where
  "all_registered en \<longleftrightarrow> (\<forall>(u, r) \<in> set (en_results en). t_uuid r = u \<and> (\<exists>k. en_uuids en k = Some u))"

lemma all_registered_mono:
  "all_registered en \<Longrightarrow> en_results en' = en_results en \<Longrightarrow> en_uuids en \<subseteq>\<^sub>m en_uuids en' \<Longrightarrow> all_registered en'"
  by (fastforce simp: all_registered_def map_le_def dom_def)

lemma record_registers:
  assumes "all_named en" and "t_uuid (ra_result a) \<noteq> []"
    and "env_get (en_uuids en) (ra_key a) = [] \<or> env_get (en_uuids en) (ra_key a) = t_uuid (ra_result a)"
    and run: "record_attempt req a ws en w = (a', en', w')"
  shows "registers (en_uuids en) (en_uuids en') \<and> registered en' a'"
proof -
  note eff = record_attempt_effect [OF run]
  have "registered en' a'" using eff assms(2) by (simp add: registered_def)
  moreover have "registers (en_uuids en) (en_uuids en')"
  proof (cases "en_uuids en (ra_key a)")
    case None
    then show ?thesis using eff assms(2) assigned by simp
  next
    case (Some u)
    then have "u \<noteq> []" using assms(1) by (simp add: all_named_def)
    then have "en_uuids en' = en_uuids en" using Some assms(3) eff by (auto simp: env_get_def)
    then show ?thesis by (simp add: unchanged)
  qed
  ultimately show ?thesis by simp
qed

lemma all_registered_store:
  assumes "all_registered en" and "registered en a"
  shows "all_registered (en\<lparr>en_results := AList.update (t_uuid (ra_result a)) (ra_result a) (en_results en)\<rparr>)"
proof -
  have "(u, r) \<in> set (AList.update k v xs) \<Longrightarrow> (u, r) \<in> set xs \<or> (u = k \<and> r = v)" for u r k v and xs :: "(string \<times> test_result) list"
    by (induction xs) (auto split: if_splits)
  then show ?thesis using assms unfolding all_registered_def registered_def by fastforce
qed

lemma ending_registers:
  assumes "ending_step lib cl c pc en w = Some (pc', en', w')" and "uuid_source (mp_new_uuid (cl_mapper cl))"
    and "all_named en" and "pending lib (cl_mapper cl) en (Ending_call pc)"
  shows "registers (en_uuids en) (en_uuids en') \<and> pending lib (cl_mapper cl) en' (Ending_call pc')"
  using assms
proof (cases "(lib, cl, c, pc, en, w)" rule: ending_step.cases)
  case (2 lib' cl' c' req en1 w1)
  then show ?thesis
    using assms by (auto simp: unchanged map_live_Inr split: option.splits sum.splits prod.splits)
next
  case (3 lib' cl' c' req a ws en1 w1)
  obtain a' en2 w2 where run: "record_attempt req a ws en w = (a', en2, w2)" by (metis prod_cases3)
  show ?thesis
  proof (cases "env_get (en_uuids en) (ra_key a) \<noteq> [] \<and> env_get (en_uuids en) (ra_key a) \<noteq> t_uuid (ra_result a)")
    case True
    then obtain u where u: "en_uuids en (ra_key a) = Some u" "u \<noteq> []" "u \<noteq> t_uuid (ra_result a)" "env_get (en_uuids en) (ra_key a) = u"
      by (auto simp: env_get_def split: option.splits)
    have "ra_key a = attempt_of lib (cl_mapper cl) req" using assms(4) 3 by simp
    then show ?thesis using u assms(1) 3 by (auto simp: unchanged)
  next
    case False
    then show ?thesis using record_registers [OF assms(3) _ _ run] assms 3 run by (auto simp: ending_recorded_def Let_def)
  qed
next
  case (4 lib' cl' c' req v en1 w1)
  then show ?thesis
    using assms by (auto simp: unchanged map_live_Inr registered_def split: option.splits sum.splits prod.splits)
next
  case (5 lib' cl' c' req a ws en1 w1)
  obtain a' en2 w2 where run: "record_attempt req a ws en w = (a', en2, w2)" by (metis prod_cases3)
  show ?thesis using record_registers [OF assms(3) _ _ run] assms 5 run
    by (auto simp: ending_recorded_def registered_def env_get_def)
qed (auto simp: unchanged registered_def split: if_splits option.splits prod.splits dest: handle_error_keeps)

lemma ending_results:
  assumes "ending_step lib cl c pc en w = Some (pc', en', w')"
  shows "en_results en' = en_results en \<or> (\<exists>a. pc = Ending_store a \<and>
     en' = en\<lparr>en_results := AList.update (t_uuid (ra_result a)) (ra_result a) (en_results en)\<rparr>)"
  using assms
  by (cases "(lib, cl, c, pc, en, w)" rule: ending_step.cases)
    (auto simp: ending_recorded_def Let_def split: sum.splits prod.splits if_splits option.splits
      dest: record_attempt_effect handle_error_keeps)

definition registry :: "'u unicode_scheme \<Rightarrow> mapper \<Rightarrow> engine \<Rightarrow> call list \<Rightarrow> bool" where
  "registry u m en ts \<longleftrightarrow> one_reconciliation en ts \<and>
     (uuid_source (mp_new_uuid m) \<longrightarrow>
        en_finalized en \<or> (all_named en \<and> all_registered en \<and> (\<forall>t \<in> set ts. pending u m en t)))"

lemma registers_le: "registers R R' \<Longrightarrow> R \<subseteq>\<^sub>m R'"
  using registers_mono by blast

lemma registers_named: "registers (en_uuids en) (en_uuids en') \<Longrightarrow> all_named en \<Longrightarrow> all_named en'"
  unfolding all_named_def by (elim registers.cases) (simp, metis fun_upd_apply option.inject)

lemma finalize_before:
  assumes "finalize_step lib cl c pc en w = Some (pc', en', w')" and "\<not> reconciling (Final_call pc)" and "\<not> en_finalized en'"
  shows "en_uuids en' = en_uuids en \<and> en_results en' = en_results en"
  using assms
  by (cases "(lib, cl, c, pc, en, w)" rule: finalize_step.cases)
    (auto simp: finish_summary_def split: prod.splits if_splits option.splits dest: handle_error_keeps)

text \<open>One step of a call that does not claim the run.\<close>

lemma call_registers:
  assumes run: "call_step lib cl c t en w = Some (t', en', w')" and open_run: "\<not> en_finalized en'"
    and src: "uuid_source (mp_new_uuid (cl_mapper cl))" and named: "all_named en" and reg: "all_registered en"
    and pend: "pending lib (cl_mapper cl) en t" and owner: "\<not> reconciling t"
  shows "registers (en_uuids en) (en_uuids en') \<and> pending lib (cl_mapper cl) en' t' \<and> all_registered en'"
proof (cases t)
  case (Event_call e)
  then have "en_uuids en' = en_uuids en" "en_results en' = en_results en" "t' = Returned"
    using run by (auto split: prod.splits dest: event_keeps)
  then show ?thesis using reg by (simp add: unchanged all_registered_def)
next
  case (Ending_call pc)
  then obtain pc' where step: "ending_step lib cl c pc en w = Some (pc', en', w')" and t': "t' = Ending_call pc'"
    using run by auto
  note both = ending_registers [OF step src named pend [unfolded Ending_call]]
  from ending_results [OF step] have "all_registered en'"
  proof (elim disjE exE conjE)
    show "all_registered en'" if "en_results en' = en_results en"
      using all_registered_mono [OF reg that] both registers_le by blast
    show "all_registered en'" if "pc = Ending_store a"
      "en' = en\<lparr>en_results := AList.update (t_uuid (ra_result a)) (ra_result a) (en_results en)\<rparr>" for a
      using all_registered_store [OF reg] pend that Ending_call by simp
  qed
  then show ?thesis using both t' by simp
next
  case (Final_call pc)
  then obtain pc' where step: "finalize_step lib cl c pc en w = Some (pc', en', w')" and t': "t' = Final_call pc'"
    using run by auto
  show ?thesis
    using finalize_before [OF step _ open_run] owner reg Final_call t' by (simp add: unchanged all_registered_def)
qed (use run reg in \<open>simp add: unchanged\<close>)

interpretation attempts: run_invariant lib cl "registry lib (cl_mapper cl)" for lib cl
proof unfold_locales
  show "registry lib (cl_mapper cl) (fst (new_engine w)) []" for w
    by (simp add: registry_def one_owner.at_start) (simp add: new_engine_def now_def all_named_def all_registered_def)
  show "registry lib (cl_mapper cl) en (ts @ [t])" if "registry lib (cl_mapper cl) en ts" "entry t" for en ts t
    using that one_owner.at_call [of en ts t] by (auto simp: registry_def elim: entry.cases)
  show "registry lib (cl_mapper cl) en' (ts[i := t'])"
    if J: "registry lib (cl_mapper cl) en ts" and i: "i < length ts" "\<not> returned (ts ! i)"
      and run: "call_step lib cl c (ts ! i) en w = Some (t', en', w')" for en ts i c w t' en' w'
  proof -
    have one: "one_reconciliation en' (ts[i := t'])"
      using one_owner.at_move [OF _ i run] J by (simp add: registry_def)
    have "all_named en' \<and> all_registered en' \<and> (\<forall>t \<in> set (ts[i := t']). pending lib (cl_mapper cl) en' t)"
      if src: "uuid_source (mp_new_uuid (cl_mapper cl))" and open_run: "\<not> en_finalized en'"
    proof -
      have before: "\<not> en_finalized en" using call_claims(1) [OF run] open_run by blast
      with J src have j: "all_named en" "all_registered en" "\<forall>t \<in> set ts. pending lib (cl_mapper cl) en t"
        "filter reconciling ts = []" by (auto simp: registry_def one_reconciliation_def)
      then have "\<not> reconciling (ts ! i)" using i by (metis filter_empty_conv nth_mem)
      from call_registers [OF run open_run src j(1,2) _ this] j(3) i
      have step: "registers (en_uuids en) (en_uuids en')" "pending lib (cl_mapper cl) en' t'" "all_registered en'" by auto
      have "pending lib (cl_mapper cl) en' t" if "t \<in> set ts" for t
        using pending_mono [OF _ registers_le [OF step(1)]] j(3) that by blast
      then show ?thesis using step registers_named [OF step(1) j(1)] set_update_subset_insert [of ts i t'] by blast
    qed
    then show ?thesis using one by (auto simp: registry_def)
  qed
qed

lemma step_registers:
  assumes "run_step lib cl (en, ts, w) (en', ts', w')" and "reachable lib cl (en, ts, w)"
    and src: "uuid_source (mp_new_uuid (cl_mapper cl))" and open_run: "\<not> en_finalized en'"
  shows "\<not> en_finalized en \<and> registers (en_uuids en) (en_uuids en')"
  using assms(1)
proof (rule run_step_cases)
  assume "move lib cl (en, ts, w) (en', ts', w')"
  then obtain i c t t' where m: "i < length ts" "ts ! i = (c, t)" "call_step lib cl c t en w = Some (t', en', w')"
    by (auto elim: move_cases)
  have before: "\<not> en_finalized en" using call_claims(1) [OF m(3)] open_run by blast
  then have j: "all_named en" "all_registered en" "\<forall>t \<in> set (map snd ts). pending lib (cl_mapper cl) en t"
      "filter reconciling (map snd ts) = []"
    using attempts.reachable_holds [OF assms(2)] src by (auto simp: registry_def one_reconciliation_def)
  have "t \<in> set (map snd ts)" using m by (metis length_map nth_map nth_mem snd_conv)
  then have "pending lib (cl_mapper cl) en t" "\<not> reconciling t" using j(3,4) by (auto simp: filter_empty_conv)
  then show ?thesis using call_registers [OF m(3) open_run src j(1,2)] before by blast
qed (use open_run in \<open>simp_all add: unchanged\<close>)

lemma run_registers:
  assumes "run lib cl s s'" and "reachable lib cl s" and "uuid_source (mp_new_uuid (cl_mapper cl))"
  shows "\<not> en_finalized (fst s') \<longrightarrow> registers\<^sup>*\<^sup>* (en_uuids (fst s)) (en_uuids (fst s'))"
  using assms(1)
proof (induction rule: rtranclp_induct)
  case (step y z)
  obtain en ts w en' ts' w' where y: "y = (en, ts, w)" "z = (en', ts', w')" by (metis prod_cases3)
  have "reachable lib cl y" using reachable_run [OF assms(2) step(1)] .
  then have "\<not> en_finalized en' \<longrightarrow> \<not> en_finalized en \<and> registers (en_uuids en) (en_uuids en')"
    using step_registers step(2) assms(3) y by blast
  then show ?case using step(3) y by (auto intro: rtranclp.rtrancl_into_rtrancl)
qed simp

section \<open>A concrete run\<close>

definition demo_lib :: collector_lib where
  "demo_lib = mime_lib.extend plain_mime (collector_lib.fields (\<lambda>_. Inr []) (\<lambda>_. Inr ''{}''))"

definition quiet_sink :: sink where
  "quiet_sink = \<lparr>sk_result = \<lambda>_ _ w. (None, w), sk_container = \<lambda>_ _ w. (None, w), sk_attachment = \<lambda>_ _ _ _ w. (None, w),
     sk_environment = \<lambda>_ _ w. (None, w), sk_executor = \<lambda>_ _ w. (None, w), sk_categories = \<lambda>_ _ w. (None, w)\<rparr>"

definition demo_collector :: "bool \<Rightarrow> sink \<Rightarrow> collector" where
  "demo_collector strict sk = \<lparr>cl_cfg = defaults\<lparr>c_strict := strict\<rparr>, cl_root = ''/p'', cl_env = Map.empty,
     cl_mapper = demo_mapper strict, cl_writer = sk\<rparr>"

definition bare_item :: proto_item where
  "bare_item = scenario_item (Proto_scenario (no_scenario_fields\<lparr>sc_id := ''id'', sc_heading := ''s'',
     sc_status := Passed_exec\<rparr>) [] [] [])"

definition demo_ending :: scenario_ending where
  "demo_ending = \<lparr>sg_stream = 1, sg_info = Some \<lparr>xi_spec = Some \<lparr>ci_name = ''d'', ci_file = ''/p/a.spec'', ci_tags = []\<rparr>,
       xi_scenario = None, xi_step = None, xi_project = [], xi_streams = 0, xi_runner = 0\<rparr>,
     sg_result = Some \<lparr>sn_item = Some bare_item, sn_time = 5, sn_timestamp = []\<rparr>\<rparr>"

abbreviation demo_key :: string where
  "demo_key \<equiv> attempt_key ''p::a.spec::id'' 0 0 0"

lemma bare_identity:
  "pr_file spec = ''/p/a.spec'' \<Longrightarrow> scenario_identity demo_lib (demo_mapper strict) spec bare_item =
     Some (''p::a.spec::id'', ''a.spec'', 0, 0)"
proof -
  assume "pr_file spec = ''/p/a.spec''"
  moreover have "canonical_path demo_lib ''/p'' (first_nonblank [''/p/a.spec'', []]) = Some ''a.spec''"
    "first_nonblank [[], [], base ''/p''] = ''p''"
    "scenario_identity_text ''p'' ''a.spec'' ''id'' ''s'' 0 0 = ''p::a.spec::id''" by code_simp+
  ultimately show ?thesis
    by (simp add: scenario_identity_def demo_mapper_def bare_item_def scenario_item_def
        no_scenario_fields_def scenario_of_item_def env_get_def del: first_nonblank.simps)
qed

lemma demo_attempt: "attempt_of demo_lib (demo_mapper strict) demo_ending = demo_key"
  by (simp add: attempt_of_def demo_ending_def bare_identity current_retry_def)

lemma demo_live_mapped:
  assumes "lucky w"
  shows "\<exists>a ws. map_live_scenario demo_lib (demo_mapper strict) None (Some demo_ending) existing w =
      Some (Inr a, ws, if existing = [] then tick (tick w) else tick w)"
proof -
  have now: "mp_now (demo_mapper strict) w = (w_now_at w (w_tick w), tick w)"
    by (simp add: demo_mapper_def now_def)
  obtain u where u: "uuid_new (tick w) = (Inr u, tick (tick w))" using lucky_new [of "tick w"] assms by auto
  have new: "mp_new_uuid (demo_mapper strict) = uuid_new" by (simp add: demo_mapper_def)
  have modes: "c_context_mode (mp_cfg (demo_mapper strict)) = ''grouped-steps''"
    "c_teardown_mode (mp_cfg (demo_mapper strict)) = ''grouped-steps''" "c_promote (mp_cfg (demo_mapper strict)) = []"
    by (simp_all add: demo_mapper_def defaults_def)
  have none: "map_items demo_lib (demo_mapper strict) None False 0 r [] cursor w = ([], cursor, [], None, w)" for r cursor w
    by (simp add: map_items.simps demo_mapper_def defaults_def)
  have item: "scenario_of_item bare_item = (Some (Proto_scenario (no_scenario_fields\<lparr>sc_id := ''id'', sc_heading := ''s'',
     sc_status := Passed_exec\<rparr>) [] [] []), None)" by (simp add: bare_item_def)
  have res: "sg_result demo_ending = Some \<lparr>sn_item = Some bare_item, sn_time = 5, sn_timestamp = []\<rparr>"
    by (simp add: demo_ending_def)
  have spec: "nget [] ci_file (case sg_info demo_ending of None \<Rightarrow> None | Some i \<Rightarrow> xi_spec i) = ''/p/a.spec''"
    by (simp add: demo_ending_def)
  show ?thesis
    using u unfolding map_live_scenario_def option.case res now
    by (simp add: map_scenario_def item bare_identity spec given_uuid_def new test_parameters_def promoted_parameters_def
        scenario_steps_def modes none add_section_def Let_def)
qed

lemma demo_collector_sel [simp]: "cl_mapper (demo_collector strict sk) = demo_mapper strict"
    "cl_writer (demo_collector strict sk) = sk" "c_strict (cl_cfg (demo_collector strict sk)) = strict"
    "c_write_mode (cl_cfg (demo_collector strict sk)) = ''streaming''"
  by (simp_all add: demo_collector_def defaults_def)

lemma demo_random [simp]: "uuid_source (mp_new_uuid (demo_mapper strict))"
  by (simp add: demo_mapper_def random_uuids.uuid_source_axioms)

text \<open>A run in which one scenario ends: the call is made, maps its scenario and records it.\<close>

lemma demo_run_ending:
  obtains en w a where "run demo_lib (demo_collector True quiet_sink) (fst (new_engine (calm_world [])), [], snd (new_engine (calm_world [])))
      (en, [(None, Ending_call (Ending_write a))], w)" "\<not> en_finalized en" "ra_key a = demo_key"
    "en_uuids en = [demo_key \<mapsto> t_uuid (ra_result a)]"
proof -
  let ?cl = "demo_collector True quiet_sink"
  let ?w = "snd (new_engine (calm_world []))"
  let ?en = "fst (new_engine (calm_world []))"
  have start: "en_uuids ?en = Map.empty" "\<not> en_finalized ?en" by (simp_all add: new_engine_def now_def)
  have "lucky ?w" by (simp add: new_engine_def now_def)
  then obtain a ws where m: "map_live_scenario demo_lib (demo_mapper True) None (Some demo_ending) [] ?w = Some (Inr a, ws, tick (tick ?w))"
    using demo_live_mapped [of ?w True "[]"] by auto
  have key: "ra_key a = demo_key" using map_live_Inr(1) [OF m] demo_attempt by metis
  obtain a' en2 w2 where rec: "record_attempt demo_ending a ws ?en (tick (tick ?w)) = (a', en2, w2)" by (metis prod_cases3)
  note eff = record_attempt_effect [OF rec]
  have 1: "run_step demo_lib ?cl (?en, [], ?w) (?en, [(None, Ending_call (Ending_begin (Some demo_ending)))], ?w)"
    using run_step.called [OF ending_entry, of demo_lib ?cl ?en "[]" ?w None "Some demo_ending"] by simp
  have 2: "run_step demo_lib ?cl (?en, [(None, Ending_call (Ending_begin (Some demo_ending)))], ?w)
      (?en, [(None, Ending_call (Ending_lock demo_ending a ws))], tick (tick ?w))"
    using move.move [of 0 "[(None, Ending_call (Ending_begin (Some demo_ending)))]" None _ demo_lib ?cl ?en ?w] m
    by (intro moved) simp
  have 3: "run_step demo_lib ?cl (?en, [(None, Ending_call (Ending_lock demo_ending a ws))], tick (tick ?w))
      (en2, [(None, Ending_call (Ending_write a'))], w2)"
    using move.move [of 0 "[(None, Ending_call (Ending_lock demo_ending a ws))]" None _ demo_lib ?cl ?en "tick (tick ?w)"] rec start
    by (intro moved) (simp add: env_get_def ending_recorded_def)
  show thesis
    by (rule that [of en2 a' w2]) (use 1 2 3 eff key start in auto)
qed

section \<open>Properties\<close>

text \<open>
  C8.  The run is reconciled once.  Under every schedule of concurrent callbacks, finalizations and
  interruptions at most one call is between claiming the run and its summary, the run is then marked as
  finalized, and after that call has left no other ever begins.
\<close>

theorem reconciled_once:
  assumes "reachable lib cl (en, ts, w)"
  shows "length (filter reconciling (map snd ts)) \<le> 1 \<and>
    (en_finalized en \<or> filter reconciling (map snd ts) = []) \<and>
    (en_finalized en \<and> filter reconciling (map snd ts) = [] \<longrightarrow>
       (\<forall>en' ts' w'. run lib cl (en, ts, w) (en', ts', w') \<longrightarrow> en_finalized en' \<and> filter reconciling (map snd ts') = []))"
  using one_owner.reachable_holds [OF assms] closing.run_keeps [of lib cl "(en, ts, w)"]
  unfolding one_reconciliation_def closed_run_def by fastforce

theorem reconciled_once_witness:
  "\<exists>en ts w. reachable demo_lib (demo_collector True quiet_sink) (en, ts, w) \<and> filter reconciling (map snd ts) \<noteq> [] \<and>
     length (filter reconciling (map snd ts)) \<le> 1"
proof -
  let ?cl = "demo_collector True quiet_sink"
  let ?w = "snd (new_engine (calm_world []))"
  let ?en = "fst (new_engine (calm_world []))"
  let ?pc = "Final_map None (en_live ?en) (en_uuids ?en)"
  have "\<not> en_finalized ?en" by (simp add: new_engine_def now_def)
  then have 2: "run_step demo_lib ?cl (?en, [(None, Final_call (Final_begin None))], ?w)
      (?en\<lparr>en_finalized := True\<rparr>, [(None, Final_call ?pc)], ?w)"
    using move.move [of 0 "[(None, Final_call (Final_begin None))]" None _ demo_lib ?cl ?en ?w] by (intro moved) simp
  have 1: "run_step demo_lib ?cl (?en, [], ?w) (?en, [(None, Final_call (Final_begin None))], ?w)"
    using run_step.called [OF final_entry, of demo_lib ?cl ?en "[]" ?w None None] by simp
  have r: "reachable demo_lib ?cl (?en\<lparr>en_finalized := True\<rparr>, [(None, Final_call ?pc)], ?w)"
    unfolding reachable_def using 1 2 by (meson converse_rtranclp_into_rtranclp rtranclp.rtrancl_refl)
  have "length (filter reconciling (map snd [(None :: ctx, Final_call ?pc)])) \<le> 1"
    using reconciled_once [OF r] by (rule conjunct1)
  moreover have "filter reconciling (map snd [(None :: ctx, Final_call ?pc)]) \<noteq> []" by simp
  ultimately show ?thesis using r by blast
qed

text \<open>
  C7.  An attempt has one identifier.  Until a finalization claims the run, every run of the engine is a
  run of the write-once registry: attempts are given identifiers, and none is changed or forgotten,
  however the ends of scenarios are scheduled.  A result about to be written carries the identifier the
  registry holds for its attempt, so all files written for an attempt are one file.
\<close>

theorem attempt_keeps_uuid:
  assumes "uuid_source (mp_new_uuid (cl_mapper cl))" and "reachable lib cl (en, ts, w)"
    and "run lib cl (en, ts, w) (en', ts', w')" and "\<not> en_finalized en'"
  shows "registers\<^sup>*\<^sup>* (en_uuids en) (en_uuids en') \<and>
    (\<forall>(c, t) \<in> set ts'. \<forall>a. t = Ending_call (Ending_write a) \<longrightarrow> en_uuids en' (ra_key a) = Some (t_uuid (ra_result a)))"
proof
  show "registers\<^sup>*\<^sup>* (en_uuids en) (en_uuids en')"
    using run_registers [OF assms(3,2,1)] assms(4) by simp
  have "registry lib (cl_mapper cl) en' (map snd ts')"
    by (rule attempts.reachable_holds [OF reachable_run [OF assms(2,3)]])
  then have pend: "\<forall>t \<in> set (map snd ts'). pending lib (cl_mapper cl) en' t"
    using assms(1,4) by (simp add: registry_def)
  show "\<forall>(c, t) \<in> set ts'. \<forall>a. t = Ending_call (Ending_write a) \<longrightarrow> en_uuids en' (ra_key a) = Some (t_uuid (ra_result a))"
    using pend by (force simp: registered_def)
qed

theorem attempt_keeps_uuid_witness:
  "\<exists>en w a. reachable demo_lib (demo_collector True quiet_sink) (en, [(None, Ending_call (Ending_write a))], w) \<and>
     en_uuids en = [demo_key \<mapsto> t_uuid (ra_result a)] \<and> registers\<^sup>*\<^sup>* Map.empty (en_uuids en)"
proof -
  let ?cl = "demo_collector True quiet_sink"
  obtain en w a where r: "run demo_lib ?cl (fst (new_engine (calm_world [])), [], snd (new_engine (calm_world [])))
      (en, [(None, Ending_call (Ending_write a))], w)" and open_run: "\<not> en_finalized en"
      and u: "en_uuids en = [demo_key \<mapsto> t_uuid (ra_result a)]"
    using demo_run_ending by metis
  have start: "reachable demo_lib ?cl (fst (new_engine (calm_world [])), [], snd (new_engine (calm_world [])))"
    unfolding reachable_def by blast
  have "uuid_source (mp_new_uuid (cl_mapper ?cl))" by simp
  from attempt_keeps_uuid [OF this start r open_run]
  have "registers\<^sup>*\<^sup>* (en_uuids (fst (new_engine (calm_world [])))) (en_uuids en)" by (rule conjunct1)
  then have "registers\<^sup>*\<^sup>* Map.empty (en_uuids en)" by (simp add: new_engine_def now_def)
  then show ?thesis using reachable_run [OF start r] u by blast
qed


end
