(* ===== verification/Collector_Calls.thy ===== *)
theory Collector_Calls
  imports Collector_Runs
begin

text \<open>
  Single calls of the engine from their first step to their return: what \<^verbatim>\<open>ScenarioEnding\<close> and \<^verbatim>\<open>Finalize\<close>
  leave behind, on success and on every error, and how they fit together.
\<close>

section \<open>The end of a scenario\<close>

lemma ending_call_next:
  "ending_rank pc \<noteq> 0 \<Longrightarrow> scenario_ending_call lib cl c pc en w =
     (case ending_step lib cl c pc en w of None \<Rightarrow> None | Some (pc, en, w) \<Rightarrow> scenario_ending_call lib cl c pc en w)"
  by (subst scenario_ending_call.simps) simp

lemma ending_call_done [simp]: "scenario_ending_call lib cl c (Ending_done r) en w = Some (r, en, w)"
  by (subst scenario_ending_call.simps) simp

text \<open>What the engine relies on when it hands a result to \<^verbatim>\<open>output.Writer\<close>.\<close>

locale result_sink =
  fixes sk :: sink and durable :: "test_result \<Rightarrow> world \<Rightarrow> world \<Rightarrow> bool" and spared :: "test_result \<Rightarrow> world \<Rightarrow> world \<Rightarrow> bool"
  assumes result_durable: "sk_result sk c r w = (None, w') \<Longrightarrow> durable r w w'"
    and result_spared: "sk_result sk c r w = (Some e, w') \<Longrightarrow> spared r w w'"
begin

text \<open>From the write on: the result is durable and stored, or the error is delivered.\<close>

lemma write_outcome:
  assumes "scenario_ending_call lib cl c (Ending_write a) en w = Some (r, en', w')" and "cl_writer cl = sk"
  obtains (stored) "r = None" "en' = en\<lparr>en_results := AList.update (t_uuid (ra_result a)) (ra_result a) (en_results en)\<rparr>"
      "c_write_mode (cl_cfg cl) = ''streaming'' \<Longrightarrow> durable (ra_result a) w w'"
  | (failed) e where "handle_error cl (Wrapf ''stream scenario result: %w'' [] e) en = (r, en')"
      "c_write_mode (cl_cfg cl) = ''streaming''" "spared (ra_result a) w w'"
proof (cases "c_write_mode (cl_cfg cl) = ''streaming''")
  case False
  then show thesis
    using assms stored by (simp add: ending_call_next [of "Ending_write a"] ending_call_next [of "Ending_store a"])
next
  case True
  obtain x w1 where w1: "sk_result sk c (ra_result a) w = (x, w1)" by fastforce
  show thesis
  proof (cases x)
    case None
    then have "r = None" "en' = en\<lparr>en_results := AList.update (t_uuid (ra_result a)) (ra_result a) (en_results en)\<rparr>" "w' = w1"
      using assms True w1 by (simp_all add: ending_call_next [of "Ending_write a"] ending_call_next [of "Ending_store a"])
    then show thesis using stored result_durable w1 None by blast
  next
    case (Some e)
    then have "handle_error cl (Wrapf ''stream scenario result: %w'' [] e) en = (r, en')" "w' = w1"
      using assms True w1
      by (auto simp: ending_call_next [of "Ending_write a"] ending_call_next [of "Ending_fail (Wrapf ''stream scenario result: %w'' [] e)"]
          split: prod.splits)
    then show thesis using failed True result_spared w1 Some by blast
  qed
qed

end

text \<open>The writer of the reporter is such a sink, for identifiers that are plain names.\<close>

definition result_name :: "test_result \<Rightarrow> string" where
  "result_name r = t_uuid r @ ''-result.json''"

definition plain_uuid :: "string \<Rightarrow> bool" where
  "plain_uuid u \<longleftrightarrow> u \<noteq> [] \<and> slash \<notin> set u"

lemma plain_result_name: "plain_uuid (t_uuid r) \<Longrightarrow> plain_seg (result_name r)"
proof (rule plain_segI)
  assume u: "plain_uuid (t_uuid r)"
  have "3 \<le> length (result_name r)" by (simp add: result_name_def)
  then show "result_name r \<noteq> []" "result_name r \<noteq> ''.''" "result_name r \<noteq> ''..''" by fastforce+
  show "slash \<notin> set (result_name r)" using u by (simp add: result_name_def plain_uuid_def)
qed

lemma write_result_outcome:
  assumes "writer_ok wr" and "plain_uuid (t_uuid v)" and "write_result lib wr c v w = (r, w')"
  shows "case r of
      None \<Rightarrow> \<exists>data. lib_json_result lib v = Inr data \<and> stored (wr_dir wr) (result_name v) (data @ [newline]) w w'
    | Some _ \<Rightarrow> unspoiled (wr_dir wr) (result_name v) w w'"
proof (cases "lib_json_result lib v")
  case (Inl e)
  then have "r \<noteq> None \<and> w' = w" using assms by (auto simp: write_result_def write_json_def plain_uuid_def)
  then show ?thesis by (auto simp: unspoiled_def)
next
  case (Inr data)
  have dir: "\<forall>s \<in> set (comps (wr_dir wr)). plain_seg s" "wr_dir wr = abs_path (comps (wr_dir wr))"
    using assms(1) comps_plain by (auto simp: writer_ok_def)
  have "write_artifact wr c (result_name v) (data @ [newline]) (int (length (data @ [newline]))) w = (r, w')"
    using assms Inr by (simp add: write_result_def write_json_def plain_uuid_def result_name_def)
  from write_artifact_effect [OF dir plain_result_name [OF assms(2)] this] show ?thesis
    using Inr by (cases r) (simp_all add: write_effect_iff)
qed

interpretation safe_results: result_sink "safe_sink lib wr"
    "\<lambda>r w w'. writer_ok wr \<and> plain_uuid (t_uuid r) \<longrightarrow>
       (\<exists>data. lib_json_result lib r = Inr data \<and> stored (wr_dir wr) (result_name r) (data @ [newline]) w w')"
    "\<lambda>r w w'. writer_ok wr \<and> plain_uuid (t_uuid r) \<longrightarrow> unspoiled (wr_dir wr) (result_name r) w w'"
  for lib wr
  by unfold_locales (use write_result_outcome in \<open>fastforce simp: safe_sink_def\<close>)+

lemma map_live_plain:
  assumes "map_live_scenario lib m c (Some req) [] w = Some (Inr a, ws, w')" and "uuid_source (mp_new_uuid m)"
  shows "plain_uuid (t_uuid (ra_result a))"
proof -
  obtain res it where req: "sg_result req = Some res" "sn_item res = Some it"
    using assms(1) by (auto simp: map_live_scenario_def split: option.splits)
  obtain t w0 where now: "mp_now m w = (t, w0)" by fastforce
  note run = assms(1) [unfolded map_live_scenario_def option.case req now Let_def prod.case]
  show ?thesis
    by (rule map_scenario_Inr [OF run])
      (use uuid_source.new_plain [OF assms(2)] in \<open>auto simp: given_uuid_def plain_uuid_def\<close>)
qed

text \<open>Every sink is one when nothing is asked of it.\<close>

interpretation any_sink: result_sink sk "\<lambda>_ _ _. True" "\<lambda>_ _ _. True" for sk
  by unfold_locales simp_all

text \<open>A call that recorded its attempt: the engine it leaves, and the worlds around the write.\<close>

definition recorded_attempt :: "scenario_ending \<Rightarrow> string \<Rightarrow> engine \<Rightarrow> result_artifact \<Rightarrow> err list \<Rightarrow> engine \<Rightarrow> bool" where
  "recorded_attempt req key en a ws en' \<longleftrightarrow> ra_key a = key \<and>
     en_uuids en' = (en_uuids en)(key \<mapsto> t_uuid (ra_result a)) \<and>
     (env_get (en_uuids en) key \<noteq> [] \<longrightarrow> t_uuid (ra_result a) = env_get (en_uuids en) key) \<and>
     en_results en' = en_results en \<and> en_warnings en' = en_warnings en @ ws"

lemma ending_parts:
  assumes run: "scenario_ending_call lib cl c (Ending_begin (Some req)) en w = Some (r, en', w')"
  obtains (unmapped) e where "handle_error cl e en = (r, en')"
  | (recorded) a ws en1 w1 where "recorded_attempt req (attempt_of lib (cl_mapper cl) req) en a ws en1"
      "uuid_source (mp_new_uuid (cl_mapper cl)) \<Longrightarrow> env_get (en_uuids en) (attempt_of lib (cl_mapper cl) req) = [] \<Longrightarrow>
         plain_uuid (t_uuid (ra_result a))"
      "scenario_ending_call lib cl c (Ending_write a) en1 w1 = Some (r, en', w')"
proof -
  let ?k = "attempt_of lib (cl_mapper cl) req"
  obtain m ws w1 where m: "map_live_scenario lib (cl_mapper cl) c (Some req) [] w = Some (m, ws, w1)"
    using run by (auto simp: ending_call_next [of "Ending_begin (Some req)"] split: option.splits)
  show thesis
  proof (cases m)
    case (Inl e)
    then show thesis
      using run m unmapped by (auto simp: ending_call_next [of "Ending_begin (Some req)"] ending_call_next [of "Ending_fail e"] split: prod.splits)
  next
    case (Inr a)
    note a = map_live_Inr [OF m [unfolded Inr]]
    have lock: "scenario_ending_call lib cl c (Ending_lock req a ws) en w1 = Some (r, en', w')"
      using run m Inr by (simp add: ending_call_next [of "Ending_begin (Some req)"])
    show thesis
    proof (cases "env_get (en_uuids en) ?k \<noteq> [] \<and> env_get (en_uuids en) ?k \<noteq> t_uuid (ra_result a)")
      case False
      obtain a' en2 w2 where rec: "record_attempt req a ws en w1 = (a', en2, w2)" by (metis prod_cases3)
      have go: "scenario_ending_call lib cl c (Ending_write a') en2 w2 = Some (r, en', w')"
        using lock False a(1) rec by (auto simp: ending_call_next [of "Ending_lock req a ws"] ending_recorded_def Let_def)
      show thesis
        by (rule recorded [OF _ _ go])
          (use record_attempt_effect [OF rec] a False map_live_plain [OF m [unfolded Inr]] in \<open>auto simp: recorded_attempt_def\<close>)
    next
      case True
      have remap: "scenario_ending_call lib cl c (Ending_remap req (env_get (en_uuids en) ?k)) en w1 = Some (r, en', w')"
        using lock True a(1) by (simp add: ending_call_next [of "Ending_lock req a ws"])
      obtain m' ws' w2 where m': "map_live_scenario lib (cl_mapper cl) c (Some req) (env_get (en_uuids en) ?k) w1 = Some (m', ws', w2)"
        using remap by (auto simp: ending_call_next [of "Ending_remap req (env_get (en_uuids en) ?k)"] split: option.splits)
      show thesis
      proof (cases m')
        case (Inl e)
        then show thesis
          using remap m' unmapped
          by (auto simp: ending_call_next [of "Ending_remap req (env_get (en_uuids en) ?k)"] ending_call_next [of "Ending_fail e"] split: prod.splits)
      next
        case (Inr b)
        note b = map_live_Inr [OF m' [unfolded Inr]]
        obtain a' en2 w3 where rec: "record_attempt req b ws' en w2 = (a', en2, w3)" by (metis prod_cases3)
        have go: "scenario_ending_call lib cl c (Ending_write a') en2 w3 = Some (r, en', w')"
          using remap m' Inr rec
          by (simp add: ending_call_next [of "Ending_remap req (env_get (en_uuids en) ?k)"] ending_call_next [of "Ending_record req b ws'"]
              ending_recorded_def)
        show thesis
          by (rule recorded [OF _ _ go]) (use record_attempt_effect [OF rec] b True in \<open>auto simp: recorded_attempt_def\<close>)
      qed
    qed
  qed
qed

section \<open>A finalization from its claim to its return\<close>

lemma finalize_call_next:
  "finalize_stage pc \<noteq> 0 \<Longrightarrow> finalize_call lib cl c pc en w =
     (case finalize_step lib cl c pc en w of None \<Rightarrow> None | Some (pc, en, w) \<Rightarrow> finalize_call lib cl c pc en w)"
  by (subst finalize_call.simps) simp

lemma finalize_call_done [simp]: "finalize_call lib cl c (Final_done r) en w = Some (r, en, w)"
  by (subst finalize_call.simps) simp

text \<open>The sink accepted a result, or its refusal is among the errors.\<close>

definition kept_or_reported :: "collector \<Rightarrow> ctx \<Rightarrow> err list \<Rightarrow> result_artifact \<Rightarrow> bool" where
  "kept_or_reported cl c errors a \<longleftrightarrow>
     (\<exists>w w'. sk_result (cl_writer cl) c (ra_result a) w = (None, w')) \<or>
     (\<exists>x. Wrapf ''write result %s: %w'' [ra_key a] x \<in> set errors)"

text \<open>An identifier stays or comes from one of the results.\<close>

definition uuids_from :: "result_artifact list \<Rightarrow> engine \<Rightarrow> engine \<Rightarrow> bool" where
  "uuids_from as en en' \<longleftrightarrow>
     (\<forall>k. en_uuids en' k = en_uuids en k \<or> (\<exists>a \<in> set as. ra_key a = k \<and> en_uuids en' k = Some (t_uuid (ra_result a))))"

definition results_handled :: "collector \<Rightarrow> ctx \<Rightarrow> result_artifact list \<Rightarrow> err list \<Rightarrow> engine \<Rightarrow> err list \<Rightarrow> engine \<Rightarrow> bool" where
  "results_handled cl c todo errors en errors' en' \<longleftrightarrow>
     set errors \<subseteq> set errors' \<and> (\<forall>a \<in> set todo. kept_or_reported cl c errors' a) \<and> uuids_from todo en en' \<and>
     en_finalized en' = en_finalized en"

definition store_result :: "result_artifact \<Rightarrow> engine \<Rightarrow> engine" where
  "store_result a en = en\<lparr>en_uuids := (en_uuids en)(ra_key a \<mapsto> t_uuid (ra_result a)),
     en_results := AList.update (t_uuid (ra_result a)) (ra_result a) (en_results en)\<rparr>"

lemma results_handled_fail:
  "results_handled cl c todo (errors @ [Wrapf ''write result %s: %w'' [ra_key a] e]) en errors' en' \<Longrightarrow>
     results_handled cl c (a # todo) errors en errors' en'"
  unfolding results_handled_def kept_or_reported_def uuids_from_def by auto

lemma results_handled_store:
  assumes "results_handled cl c todo errors (store_result a en) errors' en'"
    and "sk_result (cl_writer cl) c (ra_result a) w = (None, w')"
  shows "results_handled cl c (a # todo) errors en errors' en'"
proof -
  have "uuids_from (a # todo) en en'"
    unfolding uuids_from_def
  proof
    fix k
    have "en_uuids en' k = en_uuids (store_result a en) k \<or>
        (\<exists>a \<in> set todo. ra_key a = k \<and> en_uuids en' k = Some (t_uuid (ra_result a)))"
      using assms(1) by (auto simp: results_handled_def uuids_from_def)
    then show "en_uuids en' k = en_uuids en k \<or>
        (\<exists>a \<in> set (a # todo). ra_key a = k \<and> en_uuids en' k = Some (t_uuid (ra_result a)))"
      by (cases "k = ra_key a") (auto simp: store_result_def)
  qed
  moreover have "kept_or_reported cl c errors' a" using assms(2) unfolding kept_or_reported_def by blast
  ultimately show ?thesis using assms(1) by (simp add: results_handled_def store_result_def)
qed

lemma finalize_results:
  assumes "finalize_call lib cl c (Final_results suite out todo errors) en w = Some (r, en', w')"
  shows "\<exists>errors' en1 w1. results_handled cl c todo errors en errors' en1 \<and>
    finalize_call lib cl c (Final_containers suite out (so_containers out) errors') en1 w1 = Some (r, en', w')"
  using assms
proof (induction todo arbitrary: errors en w)
  case Nil
  then have "finalize_call lib cl c (Final_containers suite out (so_containers out) errors) en w = Some (r, en', w')"
    by (simp add: finalize_call_next [of "Final_results suite out [] errors"])
  moreover have "results_handled cl c [] errors en errors en" by (simp add: results_handled_def uuids_from_def)
  ultimately show ?case by blast
next
  case (Cons a todo)
  obtain x w1 where write1: "sk_result (cl_writer cl) c (ra_result a) w = (x, w1)" by fastforce
  show ?case
  proof (cases x)
    case (Some e)
    have "finalize_call lib cl c (Final_results suite out todo (errors @ [Wrapf ''write result %s: %w'' [ra_key a] e])) en w1 = Some (r, en', w')"
      using Cons.prems write1 Some by (simp add: finalize_call_next [of "Final_results suite out (a # todo) errors"])
    from Cons.IH [OF this] show ?thesis using results_handled_fail by blast
  next
    case None
    have "finalize_call lib cl c (Final_results suite out todo errors) (store_result a en) w1 = Some (r, en', w')"
      using Cons.prems write1 None
      by (simp add: finalize_call_next [of "Final_results suite out (a # todo) errors"] finalize_call_next [of "Final_store suite out a todo errors"]
          store_result_def)
    from Cons.IH [OF this] show ?thesis using results_handled_store write1 None by blast
  qed
qed

lemma finalize_containers:
  assumes "finalize_call lib cl c (Final_containers suite out boxes errors) en w = Some (r, en', w')"
  obtains errors' w1 where "finalize_call lib cl c (Final_warnings suite out errors') en w1 = Some (r, en', w')"
    "set errors \<subseteq> set errors'"
  using assms
proof (induction boxes arbitrary: errors w thesis)
  case Nil
  show ?case
    by (rule Nil.prems(1) [of errors w]) (use Nil.prems(2) in \<open>auto simp: finalize_call_next [of "Final_containers suite out [] errors"]\<close>)
next
  case (Cons box boxes)
  obtain x w1 where write1: "sk_container (cl_writer cl) c box w = (x, w1)" by fastforce
  obtain es where run: "finalize_call lib cl c (Final_containers suite out boxes es) en w1 = Some (r, en', w')"
      and es: "set errors \<subseteq> set es"
    using Cons.prems(2) write1
    by (cases x) (fastforce simp: finalize_call_next [of "Final_containers suite out (box # boxes) errors"])+
  show ?case by (rule Cons.IH [OF _ run]) (use Cons.prems(1) es in blast)
qed

text \<open>How the errors of a call reach its caller or the warnings.\<close>

definition delivered :: "collector \<Rightarrow> err list \<Rightarrow> err option \<Rightarrow> engine \<Rightarrow> bool" where
  "delivered cl errors r en \<longleftrightarrow> (errors = [] \<longrightarrow> r = None) \<and>
     (errors \<noteq> [] \<longrightarrow> (if c_strict (cl_cfg cl) then r = Some (Join_err errors)
                      else r = None \<and> Join_err errors \<in> set (en_warnings en)))"

lemma finalize_tail:
  assumes "finalize_call lib cl c (Final_warnings suite out errors) en w = Some (r, en', w')"
  obtains errors' where "set errors \<subseteq> set errors'" "en_results en' = en_results en" "en_uuids en' = en_uuids en"
    "en_finalized en' = en_finalized en" "delivered cl errors' r en'"
proof -
  let ?en = "en\<lparr>en_warnings := en_warnings en @ so_warnings out\<rparr>"
  obtain e w1 where meta: "write_metadata lib cl c suite ?en w = (e, w1)" by fastforce
  let ?es = "errors @ (case e of None \<Rightarrow> [] | Some e \<Rightarrow> [e])"
  have run: "finalize_call lib cl c (Final_join out ?es) ?en w1 = Some (r, en', w')"
    using assms meta
    by (simp add: finalize_call_next [of "Final_warnings suite out errors"] finalize_call_next [of "Final_metadata suite out errors"])
  show thesis
    by (rule that [of ?es])
      (use run in \<open>auto simp: delivered_def finalize_call_next add_warning_def finish_summary_def split: if_splits prod.splits\<close>)
qed

lemma attach_first_sel:
  "a \<in> set (attach_first at as) \<Longrightarrow> \<exists>b \<in> set as. ra_key b = ra_key a \<and> t_uuid (ra_result b) = t_uuid (ra_result a) \<and>
     t_full_name (ra_result b) = t_full_name (ra_result a)"
  "b \<in> set as \<Longrightarrow> \<exists>a \<in> set (attach_first at as). ra_key b = ra_key a \<and> t_uuid (ra_result b) = t_uuid (ra_result a)"
  by (cases as; auto simp: attach_first_def)+

lemma diagnostic_dump_sel:
  assumes "diagnostic_dump lib cl c suite out w = (out', errors, w')"
  shows "so_results out' = so_results out \<or> (\<exists>at. so_results out' = attach_first at (so_results out))"
  using assms by (auto simp: diagnostic_dump_def Let_def split: option.splits sum.splits if_splits prod.splits)

lemma diagnostic_dump_artifacts:
  assumes "diagnostic_dump lib cl c suite out w = (out', errors, w')"
  shows "a \<in> set (so_results out') \<Longrightarrow> \<exists>b \<in> set (so_results out). ra_key b = ra_key a \<and>
      t_uuid (ra_result b) = t_uuid (ra_result a) \<and> t_full_name (ra_result b) = t_full_name (ra_result a)"
    and "b \<in> set (so_results out) \<Longrightarrow> \<exists>a \<in> set (so_results out'). ra_key b = ra_key a \<and> t_uuid (ra_result b) = t_uuid (ra_result a)"
  using diagnostic_dump_sel [OF assms] attach_first_sel by metis+

lemma finalize_mapped:
  assumes "finalize_call lib cl c (Final_dump suite out) en w = Some (r, en', w')"
  shows "\<exists>out' dumped errors w1. delivered cl errors r en' \<and>
    diagnostic_dump lib cl c suite out w = (out', dumped, w1) \<and> results_handled cl c (so_results out') dumped en errors en'"
proof -
  obtain out' dumped w1 where dump: "diagnostic_dump lib cl c suite out w = (out', dumped, w1)" by (metis prod_cases3)
  have "finalize_call lib cl c (Final_results suite out' (so_results out') dumped) en w1 = Some (r, en', w')"
    using assms dump by (simp add: finalize_call_next [of "Final_dump suite out"])
  then obtain es1 en1 w2 where 1: "results_handled cl c (so_results out') dumped en es1 en1"
    and c1: "finalize_call lib cl c (Final_containers suite out' (so_containers out') es1) en1 w2 = Some (r, en', w')"
    using finalize_results by blast
  obtain es2 w3 where 2: "set es1 \<subseteq> set es2" and c2: "finalize_call lib cl c (Final_warnings suite out' es2) en1 w3 = Some (r, en', w')"
    by (rule finalize_containers [OF c1])
  obtain es3 where 3: "set es2 \<subseteq> set es3" "en_results en' = en_results en1" "en_uuids en' = en_uuids en1"
    "en_finalized en' = en_finalized en1" "delivered cl es3 r en'"
    by (rule finalize_tail [OF c2])
  have "results_handled cl c (so_results out') dumped en es3 en'"
    using 1 2 3(1-4) unfolding results_handled_def kept_or_reported_def uuids_from_def by (simp, blast)
  then show ?thesis using 3(5) dump by blast
qed

lemma finalize_begins:
  assumes "finalize_call lib cl c (Final_begin request) en w = Some (r, en', w')" and "\<not> en_finalized en"
  obtains (unmapped) out x w1 where
    "map_suite lib (cl_mapper cl) c (Option.bind request id) (en_live en) (en_uuids en) w = Some (out, Some x, w1)"
    "handle_error cl x (en\<lparr>en_finalized := True\<rparr>) = (r, en')"
  | (mapped) out w1 where
    "map_suite lib (cl_mapper cl) c (Option.bind request id) (en_live en) (en_uuids en) w = Some (out, None, w1)"
    "finalize_call lib cl c (Final_dump (Option.bind request id) out) (en\<lparr>en_finalized := True\<rparr>) w1 = Some (r, en', w')"
proof -
  have s: "(case request of None \<Rightarrow> None | Some suite \<Rightarrow> suite) = Option.bind request id" by (cases request) auto
  have run: "finalize_call lib cl c (Final_map (Option.bind request id) (en_live en) (en_uuids en)) (en\<lparr>en_finalized := True\<rparr>) w = Some (r, en', w')"
    using assms by (simp add: finalize_call_next [of "Final_begin request"] s)
  obtain out e w1 where m: "map_suite lib (cl_mapper cl) c (Option.bind request id) (en_live en) (en_uuids en) w = Some (out, e, w1)"
    using run by (auto simp: finalize_call_next [of "Final_map (Option.bind request id) (en_live en) (en_uuids en)"] split: option.splits)
  show thesis
  proof (cases e)
    case None
    then show thesis
      using mapped m run by (simp add: finalize_call_next [of "Final_map (Option.bind request id) (en_live en) (en_uuids en)"])
  next
    case (Some x)
    then show thesis
      using unmapped m run
      by (auto simp: finalize_call_next [of "Final_map (Option.bind request id) (en_live en) (en_uuids en)"]
          finalize_call_next [of "Final_fail x"] split: prod.splits)
  qed
qed

text \<open>A finalization leaves every identifier in place, unless a result Gauge did not supply took the key.\<close>

lemma finalize_keeps_uuids:
  assumes run: "finalize_call lib cl c (Final_begin request) en w = Some (r, en', w')"
    and u: "en_uuids en k = Some u" "u \<noteq> []"
  shows "en_uuids en' k = Some u \<or>
    (\<exists>a :: result_artifact. ra_key a = k \<and> t_full_name (ra_result a) = base (mp_root (cl_mapper cl)) @ ''::[synthetic]::'' @ k \<and>
       en_uuids en' k = Some (t_uuid (ra_result a)))"
proof (cases "en_finalized en")
  case True
  then show ?thesis using run u by (simp add: finalize_call_next [of "Final_begin request"])
next
  case False
  show ?thesis
  proof (rule finalize_begins [OF run False])
    fix out x w1
    assume "handle_error cl x (en\<lparr>en_finalized := True\<rparr>) = (r, en')"
    then show ?thesis using u handle_error_keeps by fastforce
  next
    fix out w1
    assume m: "map_suite lib (cl_mapper cl) c (Option.bind request id) (en_live en) (en_uuids en) w = Some (out, None, w1)"
      and rest: "finalize_call lib cl c (Final_dump (Option.bind request id) out) (en\<lparr>en_finalized := True\<rparr>) w1 = Some (r, en', w')"
    obtain out' dumped w2 es where dump: "diagnostic_dump lib cl c (Option.bind request id) out w1 = (out', dumped, w2)"
      and done1: "results_handled cl c (so_results out') dumped (en\<lparr>en_finalized := True\<rparr>) es en'"
      using finalize_mapped [OF rest] by blast
    from done1 consider "en_uuids en' k = en_uuids en k"
      | a where "a \<in> set (so_results out')" "ra_key a = k" "en_uuids en' k = Some (t_uuid (ra_result a))"
      unfolding results_handled_def uuids_from_def by force
    then show ?thesis
    proof cases
      case 2
      obtain b where b: "b \<in> set (so_results out)" "ra_key b = k" "t_uuid (ra_result b) = t_uuid (ra_result a)"
        "t_full_name (ra_result b) = t_full_name (ra_result a)"
        using diagnostic_dump_artifacts(1) [OF dump 2(1)] 2(2) by auto
      have "faithful (cl_mapper cl) (en_live en) (en_uuids en) b" using map_suite_faithful [OF m b(1)] .
      then have "t_full_name (ra_result a) = base (mp_root (cl_mapper cl)) @ ''::[synthetic]::'' @ k \<or> t_uuid (ra_result a) = u"
        unfolding faithful_def b env_get_def u option.case by (metis u(2))
      then show ?thesis
      proof
        assume "t_uuid (ra_result a) = u"
        then show ?thesis using 2(3) by simp
      qed (intro disjI2 exI [of _ a] conjI 2; assumption)
    qed (simp add: u)
  qed
qed

section \<open>The summary\<close>

lemma fold_summary:
  "sm_passed (fold add_to_summary rs s) = sm_passed s + length (filter (\<lambda>r. t_status r = Passed) rs)"
  "sm_failed (fold add_to_summary rs s) = sm_failed s + length (filter (\<lambda>r. t_status r = Failed) rs)"
  "sm_broken (fold add_to_summary rs s) = sm_broken s + length (filter (\<lambda>r. t_status r = Broken) rs)"
  "sm_skipped (fold add_to_summary rs s) = sm_skipped s + length (filter (\<lambda>r. t_status r = Skipped) rs)"
  "sm_retries (fold add_to_summary rs s) = sm_retries s + (\<Sum>r\<leftarrow>rs. retries_of r)"
  "sm_attachments (fold add_to_summary rs s) =
     sm_attachments s + (\<Sum>r\<leftarrow>rs. count_attachments (t_steps r) + length (t_attachments r))"
  "sm_warnings (fold add_to_summary rs s) = sm_warnings s"
  "sm_containers (fold add_to_summary rs s) = sm_containers s"
  by (induction rs arbitrary: s) (auto simp: add_to_summary_def Let_def split: status.splits)

lemma verdicts_partition:
  "length (filter (\<lambda>r. t_status r = Passed) rs) + length (filter (\<lambda>r. t_status r = Failed) rs) +
   length (filter (\<lambda>r. t_status r = Broken) rs) + length (filter (\<lambda>r. t_status r = Skipped) rs) = length rs"
proof (induction rs)
  case (Cons r rs)
  then show ?case by (cases "t_status r") simp_all
qed simp

section \<open>A concrete call\<close>

text \<open>The scenario of the demo ends for an attempt that already has the identifier \<open>u\<close>.\<close>

definition demo_engine :: engine where
  "demo_engine = (fst (new_engine (calm_world [])))\<lparr>en_uuids := [demo_key \<mapsto> ''u'']\<rparr>"

lemma demo_engine_sel [simp]: "en_uuids demo_engine = [demo_key \<mapsto> ''u'']" "en_starts demo_engine = Map.empty"
    "\<not> en_finalized demo_engine" "en_results demo_engine = []" "en_warnings demo_engine = []"
  by (simp_all add: demo_engine_def new_engine_def now_def)

lemma demo_call:
  assumes "lucky w"
  obtains a en1 w1 where
    "scenario_ending_call demo_lib (demo_collector strict sk) None (Ending_begin (Some demo_ending)) demo_engine w =
     scenario_ending_call demo_lib (demo_collector strict sk) None (Ending_write a) en1 w1"
    "t_uuid (ra_result a) = ''u''" "w1 = tick (tick w) \<or> w1 = tick (tick (tick w))" "en_results en1 = []" "\<not> en_finalized en1"
    "en_uuids en1 = [demo_key \<mapsto> ''u'']"
proof -
  let ?cl = "demo_collector strict sk"
  obtain a ws where m: "map_live_scenario demo_lib (demo_mapper strict) None (Some demo_ending) [] w = Some (Inr a, ws, tick (tick w))"
    using demo_live_mapped [OF assms, of strict "[]"] by auto
  have key: "ra_key a = demo_key" using map_live_Inr(1) [OF m] demo_attempt by metis
  obtain b ws' where m': "map_live_scenario demo_lib (demo_mapper strict) None (Some demo_ending) ''u'' (tick (tick w)) =
      Some (Inr b, ws', tick (tick (tick w)))"
    using demo_live_mapped [of "tick (tick w)" strict "''u''"] assms by auto
  have b: "ra_key b = demo_key" "t_uuid (ra_result b) = ''u''" using map_live_Inr(1,2) [OF m'] demo_attempt by auto
  have quiet: "record_attempt demo_ending x vs demo_engine v = (y, en2, v2) \<Longrightarrow> v2 = v" for x vs v y en2 v2
    by (simp add: record_attempt_def live_start_def)
  show thesis
  proof (cases "t_uuid (ra_result a) = ''u''")
    case True
    obtain a' en2 w2 where rec: "record_attempt demo_ending a ws demo_engine (tick (tick w)) = (a', en2, w2)" by (metis prod_cases3)
    show thesis
      by (rule that [of a' en2 w2])
        (use m key True rec record_attempt_effect [OF rec] quiet [OF rec] in \<open>simp_all add: ending_call_next env_get_def ending_recorded_def\<close>)
  next
    case False
    obtain a' en2 w2 where rec: "record_attempt demo_ending b ws' demo_engine (tick (tick (tick w))) = (a', en2, w2)" by (metis prod_cases3)
    show thesis
      by (rule that [of a' en2 w2])
        (use m m' key b False rec record_attempt_effect [OF rec] quiet [OF rec] in \<open>simp_all add: ending_call_next env_get_def ending_recorded_def\<close>)
  qed
qed

text \<open>Only the mapper can stop a finalization, and for a nil suite it does not.\<close>

fun nil_suite :: "finalize_pc \<Rightarrow> bool" where
  "nil_suite (Final_begin request) = (Option.bind request id = None)"
| "nil_suite (Final_map suite live existing) = (suite = None)"
| "nil_suite _ = True"

lemma nil_suite_step:
  assumes "nil_suite pc"
  shows "\<exists>pc' en' w'. finalize_step lib cl c pc en w = Some (pc', en', w') \<and> nil_suite pc'"
  using assms
proof (cases "(lib, cl, c, pc, en, w)" rule: finalize_step.cases)
  case (3 lib' cl' c' request en1 w1)
  then show ?thesis using assms by (cases request) auto
next
  case (4 lib' cl' c' suite live existing en1 w1)
  then show ?thesis
    using assms by (auto simp: map_suite_def Let_def split: prod.split sum.split option.split)
qed (auto split: prod.split option.split)

lemma finalize_nil_returns: "nil_suite pc \<Longrightarrow> \<exists>r en' w'. finalize_call lib cl c pc en w = Some (r, en', w')"
proof (induction lib cl c pc en w rule: finalize_call.induct)
  case (1 lib cl c pc en w)
  obtain pc' en' w' where s: "finalize_step lib cl c pc en w = Some (pc', en', w')" "nil_suite pc'"
    using nil_suite_step [OF 1(2)] by blast
  show ?case
  proof (cases "finalize_stage pc = 0")
    case True
    then show ?thesis by (subst finalize_call.simps) simp
  next
    case False
    show ?thesis
      using 1(1) [OF False s(1) refl refl s(2)] by (subst finalize_call.simps) (simp add: False s(1))
  qed
qed

section \<open>Properties\<close>









text \<open>
  C35.  The summary adds up.  Each verdict counts the stored results that have it, so the four numbers add
  up to the number of results; the retries are the parameters named retry, the attachments those of the
  results and their steps beside those of the fixtures, and the warnings all that were collected.
\<close>

theorem summary_counts:
  "let s = en_summary (fst (finish_summary cl containers fixtures en w)); rs = map snd (en_results en) in
     sm_passed s = length (filter (\<lambda>r. t_status r = Passed) rs) \<and>
     sm_failed s = length (filter (\<lambda>r. t_status r = Failed) rs) \<and>
     sm_broken s = length (filter (\<lambda>r. t_status r = Broken) rs) \<and>
     sm_skipped s = length (filter (\<lambda>r. t_status r = Skipped) rs) \<and>
     sm_passed s + sm_failed s + sm_broken s + sm_skipped s = length (en_results en) \<and>
     sm_retries s = (\<Sum>r\<leftarrow>rs. length (filter (\<lambda>p. p_name p = ''retry'') (t_params r))) \<and>
     sm_attachments s = fixtures + (\<Sum>r\<leftarrow>rs. count_attachments (t_steps r) + length (t_attachments r)) \<and>
     sm_containers s = containers \<and> sm_warnings s = length (en_warnings en)"
  using verdicts_partition [of "map snd (en_results en)"]
  by (simp add: finish_summary_def Let_def fold_summary no_summary_def retries_of_def split: prod.split del: filter_map)

section \<open>Gaps\<close>

text \<open>
  The end of a scenario that comes after the finalization took its copy: its identifier is overwritten by
  the one the reconciliation made up for the attempt, and both results stay, in memory and as files.
\<close>

lemma late_attempt_twice:
  assumes "en_uuids en (ra_key a) = Some u" and "u \<noteq> t_uuid (ra_result a)" and "map_of (en_results en) u = Some live"
  shows "\<exists>en'. finalize_step lib cl c (Final_store suite out a rest errors) en w = Some (Final_results suite out rest errors, en', w) \<and>
    en_uuids en' (ra_key a) = Some (t_uuid (ra_result a)) \<and>
    map_of (en_results en') u = Some live \<and> map_of (en_results en') (t_uuid (ra_result a)) = Some (ra_result a)"
  using assms by (simp add: update_conv')

text \<open>
  An interruption with results in memory never calls the writer: in the mode that writes at the end only,
  those results are lost, although the summary counts them.
\<close>

lemma interrupted_writes_nothing:
  assumes "\<not> en_finalized en" and "en_results en \<noteq> []"
  shows "\<exists>en'. finalize_call lib cl c Interrupt_begin en w = Some (None, en', snd (now w)) \<and> en_finalized en'"
  using assms by (simp add: finalize_call_next finish_summary_def split: prod.split)

end
