(* ===== verification/Server.thy ===== *)
theory Server
  imports Collector_Calls
begin

text \<open>
  \<^verbatim>\<open>internal/server/server.go\<close>: the reporter service in front of the engine, and the loop that serves it.

  A request in progress is a machine over the engine's own machines.  A handler of a lifecycle event first
  looks at its context; the handlers of the end of a scenario and of the suite result hand their context
  to the engine; \<^verbatim>\<open>Kill\<close> schedules the stop of the server once the engine has been finalized.
\<close>

section \<open>The handlers\<close>

record handler =
  hd_engine :: engine
  hd_stopping :: bool

text \<open>The requests of the service, and what a handler answers: the empty message or an error.\<close>

datatype rpc =
  Rpc_event event
| Rpc_accepted event
| Rpc_refused event err
| Rpc_noted
| Rpc_ending ending_pc
| Rpc_suite finalize_pc
| Rpc_kill finalize_pc
| Rpc_killed

fun rpc_reply :: "rpc \<Rightarrow> err option option" where
  "rpc_reply (Rpc_refused e x) = Some (Some x)"
| "rpc_reply Rpc_noted = Some None"
| "rpc_reply (Rpc_ending (Ending_done r)) = Some r"
| "rpc_reply (Rpc_suite (Final_done r)) = Some r"
| "rpc_reply (Rpc_kill (Final_done (Some x))) = Some (Some x)"
| "rpc_reply Rpc_killed = Some None"
| "rpc_reply _ = None"

text \<open>
  One step of a handler.  The stop is scheduled at most once; the waiting and the stop of the server are
  the library's.
\<close>

fun rpc_step :: "'u collector_lib_scheme \<Rightarrow> collector \<Rightarrow> ctx \<Rightarrow> rpc \<Rightarrow> handler \<Rightarrow> world \<Rightarrow> (rpc \<times> handler \<times> world) option" where
  "rpc_step lib cl c (Rpc_event e) h w =
     (case context_error c w of
        (Some x, w) \<Rightarrow> Some (Rpc_refused e x, h, w)
      | (None, w) \<Rightarrow> Some (Rpc_accepted e, h, w))"
| "rpc_step lib cl c (Rpc_accepted e) h w =
     (case event_step e (hd_engine h) w of (en, w) \<Rightarrow> Some (Rpc_noted, h\<lparr>hd_engine := en\<rparr>, w))"
| "rpc_step lib cl c (Rpc_ending pc) h w =
     (case ending_step lib cl c pc (hd_engine h) w of
        None \<Rightarrow> None | Some (pc, en, w) \<Rightarrow> Some (Rpc_ending pc, h\<lparr>hd_engine := en\<rparr>, w))"
| "rpc_step lib cl c (Rpc_suite pc) h w =
     (case finalize_step lib cl c pc (hd_engine h) w of
        None \<Rightarrow> None | Some (pc, en, w) \<Rightarrow> Some (Rpc_suite pc, h\<lparr>hd_engine := en\<rparr>, w))"
| "rpc_step lib cl c (Rpc_kill (Final_done None)) h w = Some (Rpc_killed, h\<lparr>hd_stopping := True\<rparr>, w)"
| "rpc_step lib cl c (Rpc_kill pc) h w =
     (case finalize_step lib cl c pc (hd_engine h) w of
        None \<Rightarrow> None | Some (pc, en, w) \<Rightarrow> Some (Rpc_kill pc, h\<lparr>hd_engine := en\<rparr>, w))"
| "rpc_step lib cl c r h w = Some (r, h, w)"

section \<open>Serving\<close>

text \<open>
  What the network and the service library do for one run: the port the listener got, the result of
  printing, and why the wait ended: the server returned, or the context was done.
\<close>

datatype wait_end = Served "err option" | Context_done err

record network =
  nw_listen :: "err + nat"
  nw_print :: "err option"
  nw_wait :: wait_end
  nw_server_stopped :: err

definition handshake :: "nat \<Rightarrow> string" where
  "handshake port = ''Listening on port:'' @ show_nat port @ [newline]"

text \<open>The text printed on standard output, and the error the call returns.\<close>

definition serve :: "network \<Rightarrow> string \<times> err option" where
  "serve nw =
     (case nw_listen nw of
        Inl e \<Rightarrow> ([], Some (Wrapf ''listen for Gauge reporter: %w'' [] e))
      | Inr port \<Rightarrow>
          (case nw_print nw of
             Some e \<Rightarrow> ([], Some (Wrapf ''write Gauge startup handshake: %w'' [] e))
           | None \<Rightarrow>
               (handshake port,
                case nw_wait nw of
                  Served (Some e) \<Rightarrow> if e = nw_server_stopped nw then None else Some e
                | Served None \<Rightarrow> None
                | Context_done e \<Rightarrow> Some e)))"

section \<open>Runs of the server are runs of the engine\<close>

text \<open>Where a request can begin.\<close>

inductive rpc_entry :: "rpc \<Rightarrow> bool" where
  "rpc_entry (Rpc_event e)"
| "rpc_entry (Rpc_ending (Ending_begin request))"
| "rpc_entry (Rpc_suite (Final_begin request))"
| "rpc_entry (Rpc_kill Interrupt_begin)"

type_synonym service = "handler \<times> (ctx \<times> rpc) list \<times> world"

inductive serve_step :: "'u collector_lib_scheme \<Rightarrow> collector \<Rightarrow> service \<Rightarrow> service \<Rightarrow> bool" for lib cl where
  handled: "i < length rs \<Longrightarrow> rs ! i = (c, r) \<Longrightarrow> rpc_reply r = None \<Longrightarrow> rpc_step lib cl c r h w = Some (r', h', w') \<Longrightarrow>
     serve_step lib cl (h, rs, w) (h', rs[i := (c, r')], w')"
| arrived: "rpc_entry r \<Longrightarrow> serve_step lib cl (h, rs, w) (h, rs @ [(c, r)], w)"
| outside: "serve_step lib cl (h, rs, w) (h, rs, w')"

definition new_handler :: "engine \<Rightarrow> handler" where
  "new_handler en = \<lparr>hd_engine = en, hd_stopping = False\<rparr>"

definition serving :: "'u collector_lib_scheme \<Rightarrow> collector \<Rightarrow> service \<Rightarrow> bool" where
  "serving lib cl s \<longleftrightarrow>
     (\<exists>w. (serve_step lib cl)\<^sup>*\<^sup>* (new_handler (fst (new_engine w)), [], snd (new_engine w)) s)"

text \<open>The call of the engine a handler makes; a refused event is a call that never starts.\<close>

fun call_of :: "rpc \<Rightarrow> call" where
  "call_of (Rpc_event e) = Event_call e"
| "call_of (Rpc_accepted e) = Event_call e"
| "call_of (Rpc_refused e x) = Event_call e"
| "call_of Rpc_noted = Returned"
| "call_of (Rpc_ending pc) = Ending_call pc"
| "call_of (Rpc_suite pc) = Final_call pc"
| "call_of (Rpc_kill pc) = Final_call pc"
| "call_of Rpc_killed = Final_call (Final_done None)"

definition engine_view :: "service \<Rightarrow> configuration" where
  "engine_view s = (case s of (h, rs, w) \<Rightarrow> (hd_engine h, map (\<lambda>(c, r). (c, call_of r)) rs, w))"

lemma rpc_step_call:
  assumes "rpc_step lib cl c r h w = Some (r', h', w')" and "rpc_reply r = None"
  shows "(\<not> returned (call_of r) \<and> call_step lib cl c (call_of r) (hd_engine h) w = Some (call_of r', hd_engine h', w')) \<or>
    (call_of r' = call_of r \<and> hd_engine h' = hd_engine h)"
  using assms
  by (cases "(lib, cl, c, r, h, w)" rule: rpc_step.cases)
    (auto split: prod.splits option.splits elim: rpc_reply.elims)

lemma serve_step_view:
  assumes "serve_step lib cl s s'"
  shows "(run_step lib cl)\<^sup>*\<^sup>* (engine_view s) (engine_view s')"
  using assms
proof cases
  case (handled i rs c r h w r' h' w')
  let ?ts = "map (\<lambda>(c, r). (c, call_of r)) rs"
  have i: "i < length ?ts" "?ts ! i = (c, call_of r)" using handled by simp_all
  from rpc_step_call [OF handled(6,5)] show ?thesis
  proof
    assume "\<not> returned (call_of r) \<and> call_step lib cl c (call_of r) (hd_engine h) w = Some (call_of r', hd_engine h', w')"
    then have "move lib cl (hd_engine h, ?ts, w) (hd_engine h', ?ts[i := (c, call_of r')], w')"
      using move.move [OF i] by blast
    then show ?thesis using handled moved by (fastforce simp: engine_view_def map_update)
  next
    assume "call_of r' = call_of r \<and> hd_engine h' = hd_engine h"
    moreover have "?ts[i := (c, call_of r)] = ?ts" using i by (metis list_update_id)
    ultimately have "engine_view s' = (hd_engine h, ?ts, w')" using handled by (simp add: engine_view_def map_update)
    then show ?thesis using handled elsewhere by (fastforce simp: engine_view_def)
  qed
next
  case (arrived r h rs w c)
  then have "entry (call_of r)" by (auto elim!: rpc_entry.cases intro: entry.intros)
  then show ?thesis using arrived called by (fastforce simp: engine_view_def)
next
  case (outside h rs w w')
  then show ?thesis using elsewhere by (fastforce simp: engine_view_def)
qed

lemma serving_view: "serving lib cl s \<Longrightarrow> reachable lib cl (engine_view s)"
proof -
  assume "serving lib cl s"
  then obtain w where "(serve_step lib cl)\<^sup>*\<^sup>* (new_handler (fst (new_engine w)), [], snd (new_engine w)) s"
    by (auto simp: serving_def)
  then have "(run_step lib cl)\<^sup>*\<^sup>* (engine_view (new_handler (fst (new_engine w)), [], snd (new_engine w))) (engine_view s)"
    by (induction rule: rtranclp_induct) (auto dest: serve_step_view)
  then show ?thesis unfolding reachable_def by (auto simp: engine_view_def new_handler_def)
qed

section \<open>Stopping\<close>

text \<open>A kill request that has passed the claim of the run.\<close>

fun past_claim :: "rpc \<Rightarrow> bool" where
  "past_claim (Rpc_kill pc) = (finalize_stage pc < 10)"
| "past_claim Rpc_killed = True"
| "past_claim _ = False"

definition stops_finalized :: "handler \<Rightarrow> rpc list \<Rightarrow> bool" where
  "stops_finalized h rs \<longleftrightarrow>
     (hd_stopping h \<or> (\<exists>r \<in> set rs. past_claim r) \<longrightarrow> en_finalized (hd_engine h))"

lemma finalize_past_claim:
  assumes "finalize_step lib cl c pc en w = Some (pc', en', w')" and "finalize_stage pc < 10 \<Longrightarrow> en_finalized en"
    and "finalize_stage pc' < 10"
  shows "en_finalized en'"
  using assms
  by (cases "(lib, cl, c, pc, en, w)" rule: finalize_step.cases)
    (auto simp: finish_summary_def add_warning_def split: prod.splits if_splits option.splits dest: handle_error_keeps)

lemma rpc_kill_step:
  assumes "rpc_step lib cl c (Rpc_kill pc) h w = Some (r', h', w')"
  obtains (stop) "pc = Final_done None" "r' = Rpc_killed" "h' = h\<lparr>hd_stopping := True\<rparr>"
  | (go) pc' en' where "finalize_step lib cl c pc (hd_engine h) w = Some (pc', en', w')" "r' = Rpc_kill pc'"
      "h' = h\<lparr>hd_engine := en'\<rparr>"
proof (cases "pc = Final_done None")
  case True
  then show thesis using assms stop by simp
next
  case False
  then have "rpc_step lib cl c (Rpc_kill pc) h w =
     (case finalize_step lib cl c pc (hd_engine h) w of
        None \<Rightarrow> None | Some (pc, en, w) \<Rightarrow> Some (Rpc_kill pc, h\<lparr>hd_engine := en\<rparr>, w))"
    by (cases "(lib, cl, c, Rpc_kill pc, h, w)" rule: rpc_step.cases) simp_all
  then show thesis using assms go by (auto split: option.splits prod.splits)
qed

lemma rpc_keeps_finalized:
  assumes "rpc_step lib cl c r h w = Some (r', h', w')" and "en_finalized (hd_engine h)"
  shows "en_finalized (hd_engine h')"
proof (cases r)
  case (Rpc_kill pc)
  show ?thesis
    by (rule rpc_kill_step [OF assms(1) [unfolded Rpc_kill]]) (use assms(2) in \<open>auto dest: finalize_claims\<close>)
qed (use assms in \<open>auto split: prod.splits option.splits dest: event_keeps ending_finalized finalize_claims\<close>)

lemma rpc_past_claim:
  assumes "rpc_step lib cl c r h w = Some (r', h', w')" and "past_claim r \<or> hd_stopping h \<longrightarrow> en_finalized (hd_engine h)"
    and "past_claim r' \<or> hd_stopping h'"
  shows "en_finalized (hd_engine h')"
proof (cases "past_claim r \<or> hd_stopping h")
  case True
  then show ?thesis using rpc_keeps_finalized [OF assms(1)] assms(2) by blast
next
  case False
  show ?thesis
  proof (cases r)
    case (Rpc_kill pc)
    show ?thesis
      by (rule rpc_kill_step [OF assms(1) [unfolded Rpc_kill]])
        (use assms(3) False Rpc_kill in \<open>auto intro: finalize_past_claim\<close>)
  qed (use assms False in \<open>auto split: prod.splits option.splits\<close>)
qed

lemma serve_step_stops:
  assumes "serve_step lib cl (h, rs, w) (h', rs', w')" and "stops_finalized h (map snd rs)"
  shows "stops_finalized h' (map snd rs')"
  using assms(1)
proof cases
  case (handled i c r r')
  have "r \<in> set (map snd rs)" using handled by (metis length_map nth_map nth_mem snd_conv)
  then have "past_claim r \<or> hd_stopping h \<longrightarrow> en_finalized (hd_engine h)" using assms(2) by (auto simp: stops_finalized_def)
  note late = rpc_past_claim [OF handled(5) this]
  have old: "en_finalized (hd_engine h')" if "past_claim q" "q \<in> set (map snd rs)" for q
    using assms(2) that rpc_keeps_finalized [OF handled(5)] unfolding stops_finalized_def by blast
  have "set (map snd rs') \<subseteq> insert r' (set (map snd rs))"
    using set_update_subset_insert [of "map snd rs" i r'] by (simp add: handled(1) map_update)
  then show ?thesis using late old unfolding stops_finalized_def by blast
next
  case (arrived r c)
  then show ?thesis using assms(2) by (auto simp: stops_finalized_def elim!: rpc_entry.cases)
next
  case outside
  then show ?thesis using assms(2) by simp
qed

lemma serving_stops: "serving lib cl (h, rs, w) \<Longrightarrow> stops_finalized h (map snd rs)"
proof -
  assume "serving lib cl (h, rs, w)"
  then obtain v where "(serve_step lib cl)\<^sup>*\<^sup>* (new_handler (fst (new_engine v)), [], snd (new_engine v)) (h, rs, w)"
    by (auto simp: serving_def)
  then have "stops_finalized (fst (h, rs, w)) (map snd (fst (snd (h, rs, w))))"
  proof (induction rule: rtranclp_induct)
    case base
    then show ?case by (simp add: stops_finalized_def new_handler_def)
  next
    case (step y z)
    then show ?case by (metis serve_step_stops prod.collapse)
  qed
  then show ?thesis by simp
qed

section \<open>Properties\<close>


lemma demo_kill:
  "serving demo_lib (demo_collector True quiet_sink)
     (new_handler (fst (new_engine (calm_world []))), [(None, Rpc_kill Interrupt_begin)], snd (new_engine (calm_world [])))"
  using serve_step.arrived [OF rpc_entry.intros(4), of demo_lib "demo_collector True quiet_sink"
      "new_handler (fst (new_engine (calm_world [])))" "[]" "snd (new_engine (calm_world []))" None]
  unfolding serving_def by auto




end
