(* ===== verification/App.thy ===== *)
theory App
  imports Server
begin

text \<open>
  \<^verbatim>\<open>internal/app/app.go\<close>, \<^verbatim>\<open>internal/logging/logging.go\<close> and \<^verbatim>\<open>internal/version/version.go\<close>: the modes of
  the command, how the execution mode puts the parts together, and which log lines are printed.

  What a run prints and returns is a value; the errors that are printed stay errors.  Serving is a
  parameter of the execution mode, its model is in the theory of the server.
\<close>

section \<open>Version\<close>

record build_info =
  bi_version :: string
  bi_commit :: string
  bi_date :: string
  bi_dirty :: string
  bi_marker :: string

definition marker_prefix :: string where
  "marker_prefix = ''gauge-allure-report-package-version:''"

definition version_string :: "build_info \<Rightarrow> string" where
  "version_string b =
     (let v = ''allure-report '' @ bi_version b @ '' (commit='' @ bi_commit b @ '', built='' @ bi_date b @
            '', dirty='' @ bi_dirty b @ '')''
      in if bi_marker b \<noteq> marker_prefix @ bi_version b then v @ '' [package marker mismatch]'' else v)"

section \<open>Logging\<close>

datatype log_level = Debug_level | Info_level | Warn_level | Error_level

fun level_rank :: "log_level \<Rightarrow> nat" where
  "level_rank Debug_level = 0"
| "level_rank Info_level = 1"
| "level_rank Warn_level = 2"
| "level_rank Error_level = 3"

lemma level_rank_inj: "level_rank a = level_rank b \<Longrightarrow> a = b"
  by (cases a; cases b) simp_all

text \<open>The levels are integers in the code, in this order.\<close>

instantiation log_level :: linorder
begin

definition less_eq_log_level :: "log_level \<Rightarrow> log_level \<Rightarrow> bool" where
  "a \<le> b \<longleftrightarrow> level_rank a \<le> level_rank b"

definition less_log_level :: "log_level \<Rightarrow> log_level \<Rightarrow> bool" where
  "a < b \<longleftrightarrow> level_rank a < level_rank b"

instance
  by standard (auto simp: less_eq_log_level_def less_log_level_def level_rank_inj)

end

fun level_name :: "log_level \<Rightarrow> string" where
  "level_name Debug_level = ''DEBUG''"
| "level_name Info_level = ''INFO''"
| "level_name Warn_level = ''WARN''"
| "level_name Error_level = ''ERROR''"

definition minimum_level :: "string \<Rightarrow> log_level" where
  "minimum_level level =
     (if level = ''debug'' then Debug_level else if level = ''warn'' then Warn_level
      else if level = ''error'' then Error_level else Info_level)"

text \<open>One line, if the logger is there and the level is high enough; the form of the time is the library's.\<close>

definition log_line :: "(gtime \<Rightarrow> string) \<Rightarrow> log_level option \<Rightarrow> log_level \<Rightarrow> string \<Rightarrow> world \<Rightarrow> string \<times> world" where
  "log_line stamp minimum level message w =
     (case minimum of
        None \<Rightarrow> ([], w)
      | Some least \<Rightarrow>
          if level < least then ([], w)
          else (case now w of (t, w) \<Rightarrow>
                  (stamp t @ '' ['' @ level_name level @ ''] '' @ message @ [newline], w)))"

text \<open>A higher minimum never prints more, and what is not printed does not read the clock.\<close>

lemma log_line_printed: "fst (log_line stamp (Some least) level message w) \<noteq> [] \<longleftrightarrow> least \<le> level"
  by (auto simp: log_line_def not_less split: prod.split)

lemma log_line_silent: "level < least \<Longrightarrow> log_line stamp (Some least) level message w = ([], w)"
  by (simp add: log_line_def)

section \<open>The environment of the command\<close>

record app_lib = collector_lib +
  lib_build :: build_info
  lib_stamp_dir :: "gtime \<Rightarrow> string"
  lib_host :: string

definition action_variable :: string where
  "action_variable = ''allure-report_action''"

definition command_env :: "'u app_lib_scheme \<Rightarrow> env_map" where
  "command_env lib = environment_snapshot (lib_environ lib)"

text \<open>\<^verbatim>\<open>os.Getwd\<close> and \<^verbatim>\<open>os.Chdir\<close>.\<close>

definition os_getwd :: "world \<Rightarrow> (err + string) \<times> world" where
  "os_getwd w = sys_read (\<lambda>fs. Inr (w_cwd w)) w"

definition os_chdir :: "string \<Rightarrow> world \<Rightarrow> (err + unit) \<times> world" where
  "os_chdir p w =
     (case os_stat p w of
        (Inl e, w) \<Rightarrow> (Inl e, w)
      | (Inr Dir_node, w) \<Rightarrow> (Inr (), w\<lparr>w_cwd := p\<rparr>)
      | (Inr _, w) \<Rightarrow> (Inl (Os_error ''not a directory''), w))"

definition detect_project_root :: "'u app_lib_scheme \<Rightarrow> world \<Rightarrow> (err + string) \<times> world" where
  "detect_project_root lib w =
     (let root = env_get (command_env lib) ''GAUGE_PROJECT_ROOT'' in
      case (if root = [] then os_getwd w else (Inr root, w)) of
        (Inl e, w) \<Rightarrow> (Inl (Wrapf ''detect project root: %w'' [] e), w)
      | (Inr root, w) \<Rightarrow>
          (case filepath_abs root w of
             (Inl e, w) \<Rightarrow> (Inl (Wrapf ''resolve project root: %w'' [] e), w)
           | (Inr root, w) \<Rightarrow> (Inr (clean root), w)))"

section \<open>Diagnostics\<close>

definition clean_warning :: "'u unicode_scheme \<Rightarrow> config \<Rightarrow> string \<Rightarrow> string" where
  "clean_warning u cfg root =
     (if c_allow_non_owned cfg then ''allow_clean_non_owned weakens the default ownership guard''
      else if equal_fold u (clean (c_results_dir cfg)) (clean root) then
        ''results directory resolves to project root and will be refused''
      else [])"

definition proto_warning :: "config \<Rightarrow> string" where
  "proto_warning cfg =
     (if c_proto_dump cfg then ''diagnostic_proto_dump may contain sensitive test data'' else [])"

text \<open>A warning is a text or, from the probe, the text of an error; empty texts are left out.\<close>

definition compact_warnings :: "(err + string) list \<Rightarrow> (err + string) list" where
  "compact_warnings = filter (\<lambda>v. v \<noteq> Inr [])"

definition probe_writable :: "string \<Rightarrow> world \<Rightarrow> (err + string) \<times> bool \<times> world" where
  "probe_writable dir w =
     (case os_mkdir_all dir w of
        (Inl e, w) \<Rightarrow> (Inl e, False, w)
      | (Inr _, w) \<Rightarrow>
          (case os_create_temp dir ''.doctor-'' w of
             (Inl e, w) \<Rightarrow> (Inl e, False, w)
           | (Inr name, w) \<Rightarrow> (Inr [], True, snd (os_remove name (snd (os_check w))))))"

record diagnostic =
  dg_version :: string
  dg_root :: string
  dg_results :: string
  dg_configuration :: string
  dg_action_present :: bool
  dg_writable :: bool
  dg_provider :: string
  dg_compatibility :: string
  dg_warnings :: "(err + string) list"

section \<open>The modes\<close>

text \<open>What is printed, without the final newline.\<close>

datatype printed = Text string | Usage | Diagnostic diagnostic

text \<open>What a mode leaves: its exit code, what it printed, and the collector it served with, if it did.\<close>

record outcome =
  oc_code :: nat
  oc_stdout :: "printed list"
  oc_stderr :: "printed list"
  oc_errors :: "err list"
  oc_served :: "collector option"

definition quits :: "nat \<Rightarrow> outcome" where
  "quits code = \<lparr>oc_code = code, oc_stdout = [], oc_stderr = [], oc_errors = [], oc_served = None\<rparr>"

definition fails :: "nat \<Rightarrow> err \<Rightarrow> outcome" where
  "fails code e = (quits code)\<lparr>oc_errors := [e]\<rparr>"

definition validate_config :: "'u app_lib_scheme \<Rightarrow> string list \<Rightarrow> world \<Rightarrow> outcome \<times> world" where
  "validate_config lib args w =
     (case detect_project_root lib w of
        (Inl e, w) \<Rightarrow> (fails 1 e, w)
      | (Inr root, w) \<Rightarrow>
          if 1 < length args then (fails 2 (Errorf ''validate-config accepts at most one path'' []), w)
          else
            (let env = command_env lib;
                 env = (case args of [path] \<Rightarrow> env(''GAUGE_ALLURE_CONFIG'' \<mapsto> path) | _ \<Rightarrow> env)
             in case load lib root (Some env) w of
                  (Inl e, w) \<Rightarrow> (fails 1 (Wrapf ''invalid configuration: %v'' [] e), w)
                | (Inr cfg, w) \<Rightarrow>
                    ((quits 0)\<lparr>oc_stdout := [Text (''configuration valid: '' @
                         first_nonempty [c_source_path cfg, ''built-in defaults + environment''] @ [newline] @
                         ''results directory: '' @ c_results_dir cfg)]\<rparr>, w)))"

definition doctor :: "'u app_lib_scheme \<Rightarrow> world \<Rightarrow> outcome \<times> world" where
  "doctor lib w =
     (case detect_project_root lib w of
        (Inl e, w) \<Rightarrow> (fails 1 e, w)
      | (Inr root, w) \<Rightarrow>
          (case load lib root (Some (command_env lib)) w of
             (Inl e, w) \<Rightarrow> (fails 1 (Wrapf ''configuration: invalid: %v'' [] e), w)
           | (Inr cfg, w) \<Rightarrow>
               (case probe_writable (c_results_dir cfg) w of
                  (warning, writable, w) \<Rightarrow>
                    ((quits (if writable then 0 else 1))\<lparr>oc_stdout := [Diagnostic
                       \<lparr>dg_version = version_string (lib_build lib), dg_root = root, dg_results = c_results_dir cfg,
                        dg_configuration = first_nonempty [c_source_path cfg, ''built-in defaults + environment''],
                        dg_action_present = (env_get (command_env lib) action_variable \<noteq> []),
                        dg_writable = writable,
                        dg_provider = (case executor_info lib (command_env lib) (c_executor cfg) of
                            None \<Rightarrow> ''none'' | Some x \<Rightarrow> first_nonempty [e_name x, e_type x]),
                        dg_compatibility = c_compatibility cfg,
                        dg_warnings = compact_warnings [warning, Inr (clean_warning lib cfg root), Inr (proto_warning cfg)]\<rparr>]\<rparr>, w))))"

text \<open>The results directory of a run that keeps earlier results: a subdirectory named after the time.\<close>

definition run_directory :: "'u app_lib_scheme \<Rightarrow> config \<Rightarrow> world \<Rightarrow> config \<times> world" where
  "run_directory lib cfg w =
     (if c_clean cfg then (cfg, w)
      else (case now w of (t, w) \<Rightarrow> (cfg\<lparr>c_results_dir := path_join [c_results_dir cfg, lib_stamp_dir lib t]\<rparr>, w)))"

text \<open>The parts, each with what the configuration says of it.\<close>

definition assemble :: "'u app_lib_scheme \<Rightarrow> config \<Rightarrow> string \<Rightarrow> env_map \<Rightarrow> collector" where
  "assemble lib cfg root env =
     (let wr = \<lparr>wr_dir = c_results_dir cfg, wr_max = c_max_bytes cfg\<rparr>;
          manager = reporter_manager wr root [env_get env ''gauge_screenshots_dir''] (c_max_bytes cfg)
            (c_follow_links cfg) (c_allow_external cfg) (c_redact cfg)
      in \<lparr>cl_cfg = cfg, cl_root = root, cl_env = env,
          cl_mapper = new_mapper cfg root env (lib_host lib) uuid_new (Some manager) None,
          cl_writer = safe_sink lib wr\<rparr>)"

definition execution_mode :: "'u app_lib_scheme \<Rightarrow> (collector \<Rightarrow> engine \<Rightarrow> world \<Rightarrow> err option \<times> world) \<Rightarrow> ctx \<Rightarrow> world
    \<Rightarrow> outcome \<times> world" where
  "execution_mode lib serving_loop c w =
     (case detect_project_root lib w of
        (Inl e, w) \<Rightarrow> (fails 1 e, w)
      | (Inr root, w) \<Rightarrow>
          (case os_chdir root w of
             (Inl e, w) \<Rightarrow> (fails 1 (Wrapf ''change to GAUGE_PROJECT_ROOT: %v'' [] e), w)
           | (Inr _, w) \<Rightarrow>
               (case load lib root (Some (command_env lib)) w of
                  (Inl e, w) \<Rightarrow> (fails 1 (Wrapf ''configuration error: %v'' [] e), w)
                | (Inr cfg, w) \<Rightarrow>
                    (case run_directory lib cfg w of
                       (cfg, w) \<Rightarrow>
                         (case prepare lib root (c_results_dir cfg) (c_clean cfg) (c_allow_non_owned cfg) w of
                            (Some e, w) \<Rightarrow> (fails 1 (Wrapf ''prepare output: %v'' [] e), w)
                          | (None, w) \<Rightarrow>
                              (let cl = assemble lib cfg root (command_env lib) in
                               case new_engine w of
                                 (en, w) \<Rightarrow>
                                   (case serving_loop cl en w of
                                      (None, w) \<Rightarrow> ((quits 0)\<lparr>oc_served := Some cl\<rparr>, w)
                                    | (Some e, w) \<Rightarrow>
                                        (case context_error c w of
                                           (None, w) \<Rightarrow>
                                             ((fails 1 (Wrapf ''reporter server stopped: %v'' [] e))\<lparr>oc_served := Some cl\<rparr>, w)
                                         | (Some _, w) \<Rightarrow> ((quits 0)\<lparr>oc_served := Some cl\<rparr>, w)))))))))"

definition run_app :: "'u app_lib_scheme \<Rightarrow> (collector \<Rightarrow> engine \<Rightarrow> world \<Rightarrow> err option \<times> world) \<Rightarrow> ctx \<Rightarrow> string list
    \<Rightarrow> world \<Rightarrow> outcome \<times> world" where
  "run_app lib serving_loop c args w =
     (case args of
        command # rest \<Rightarrow>
          if command \<in> {''--version'', ''-version'', ''version''} then
            ((quits 0)\<lparr>oc_stdout := [Text (version_string (lib_build lib))]\<rparr>, w)
          else if command = ''validate-config'' then validate_config lib rest w
          else if command = ''doctor'' then doctor lib w
          else if command \<in> {''help'', ''--help'', ''-h''} then ((quits 0)\<lparr>oc_stdout := [Usage]\<rparr>, w)
          else ((fails 2 (Errorf ''unknown command %q'' [command]))\<lparr>oc_stderr := [Usage]\<rparr>, w)
      | [] \<Rightarrow>
          if env_get (command_env lib) action_variable \<noteq> ''execution'' then
            ((fails 2 (Errorf ''Gauge execution mode requires %s=execution'' [action_variable]))\<lparr>oc_stderr := [Usage]\<rparr>, w)
          else execution_mode lib serving_loop c w)"

section \<open>Facts\<close>

lemma path_join_nonempty: "d \<noteq> [] \<Longrightarrow> path_join (d # ds) \<noteq> []"
  by (simp add: path_join_def)

lemma validate_elsewhere: "d \<noteq> [] \<Longrightarrow> validate c r = None \<Longrightarrow> validate (c\<lparr>c_results_dir := d\<rparr>) r = None"
  by (simp add: validate_def split: if_splits)

lemma outcome_sel [simp]: "oc_served (quits n) = None" "oc_served (fails n e) = None" "oc_code (quits n) = n" "oc_code (fails n e) = n"
  by (simp_all add: quits_def fails_def)

lemma quiet_project_root: "detect_project_root lib w = (r, w') \<Longrightarrow> quiet w w'"
proof -
  assume run: "detect_project_root lib w = (r, w')"
  obtain s w1 where 1: "(if env_get (command_env lib) ''GAUGE_PROJECT_ROOT'' = [] then os_getwd w
      else (Inr (env_get (command_env lib) ''GAUGE_PROJECT_ROOT''), w)) = (s, w1)" by fastforce
  have "quiet w w1" using 1 quiet_sys_read [of w "\<lambda>fs. Inr (w_cwd w)"] by (auto simp: os_getwd_def split: if_splits)
  moreover have "quiet w1 w'"
    using run quiet_filepath_abs [of w1] unfolding detect_project_root_def Let_def 1
    by (cases s) (auto split: prod.splits sum.splits, (metis snd_conv)+)
  ultimately show ?thesis by (rule quiet_trans)
qed

lemma quiet_validate: "quiet w (snd (validate_config lib args w))"
proof -
  obtain r w1 where 1: "detect_project_root lib w = (r, w1)" by fastforce
  show ?thesis
  proof (cases r)
    case (Inl e)
    then show ?thesis using quiet_project_root [OF 1] by (simp add: validate_config_def 1)
  next
    case (Inr root)
    let ?env = "case args of [path] \<Rightarrow> (command_env lib)(''GAUGE_ALLURE_CONFIG'' \<mapsto> path) | _ \<Rightarrow> command_env lib"
    obtain s w2 where 2: "load lib root (Some ?env) w1 = (s, w2)" by fastforce
    show ?thesis
      using quiet_project_root [OF 1] quiet_trans [OF quiet_project_root [OF 1]] load_effect [OF 2] 2
      by (cases s) (auto simp: validate_config_def 1 Inr Let_def)
  qed
qed

lemma execution_serves:
  assumes "execution_mode lib serving_loop c w = (oc, w')" and "oc_served oc = Some cl"
  obtains root cfg cfg' w1 w2 w3 w4 where "load lib root (Some (command_env lib)) w1 = (Inr cfg, w2)"
    "run_directory lib cfg w2 = (cfg', w3)"
    "prepare lib root (c_results_dir cfg') (c_clean cfg') (c_allow_non_owned cfg') w3 = (None, w4)"
    "cl = assemble lib cfg' root (command_env lib)"
proof -
  obtain r w0 where 1: "detect_project_root lib w = (r, w0)" by fastforce
  obtain root where r: "r = Inr root" using assms 1 by (cases r) (auto simp: execution_mode_def)
  obtain s w1 where 2: "os_chdir root w0 = (s, w1)" by fastforce
  have s: "s = Inr ()" using assms 1 r 2 by (cases s) (auto simp: execution_mode_def)
  obtain q w2 where 3: "load lib root (Some (command_env lib)) w1 = (q, w2)" by fastforce
  obtain cfg where q: "q = Inr cfg" using assms 1 r 2 s 3 by (cases q) (auto simp: execution_mode_def)
  obtain cfg' w3 where 4: "run_directory lib cfg w2 = (cfg', w3)" by fastforce
  obtain p w4 where 5: "prepare lib root (c_results_dir cfg') (c_clean cfg') (c_allow_non_owned cfg') w3 = (p, w4)" by fastforce
  have p: "p = None" using assms 1 r 2 s 3 q 4 5 by (cases p) (auto simp: execution_mode_def)
  have "cl = assemble lib cfg' root (command_env lib)"
    using assms unfolding execution_mode_def 1 r 2 s 3 q 4 5 p prod.case sum.case option.case Let_def
    by (auto split: prod.splits option.splits)
  then show thesis using that 3 q 4 5 p by blast
qed

lemma validate_serves_nothing: "oc_served (fst (validate_config lib args w)) = None \<and> oc_code (fst (validate_config lib args w)) \<le> 2"
  by (simp add: validate_config_def Let_def quits_def fails_def split: prod.split sum.split)

lemma doctor_serves_nothing: "oc_served (fst (doctor lib w)) = None"
  by (simp add: doctor_def quits_def fails_def split: prod.split sum.split)

text \<open>The branches of the command, by its first argument.\<close>

lemma run_app_cases:
  obtains (execution) "args = []" "env_get (command_env lib) action_variable = ''execution''"
      "run_app lib serving_loop c args w = execution_mode lib serving_loop c w"
  | (refused) oc where "run_app lib serving_loop c args w = (oc, w)" "oc_served oc = None" "oc_code oc \<le> 2"
  | (validation) rest where "args = ''validate-config'' # rest" "run_app lib serving_loop c args w = validate_config lib rest w"
  | (doctor) rest where "args = ''doctor'' # rest" "run_app lib serving_loop c args w = doctor lib w"
proof (cases args)
  case Nil
  show thesis
    by (cases "env_get (command_env lib) action_variable = ''execution''")
      (use execution refused in \<open>auto simp: Nil run_app_def fails_def quits_def\<close>)
next
  case (Cons command rest)
  consider "command = ''validate-config''" | "command = ''doctor''" | "command \<notin> {''validate-config'', ''doctor''}" by blast
  then show thesis
  proof cases
    case 1
    then show thesis using validation [of rest] by (simp add: Cons run_app_def)
  next
    case 2
    then show thesis using doctor [of rest] by (simp add: Cons run_app_def)
  next
    case 3
    then have other: "command \<noteq> ''validate-config''" "command \<noteq> ''doctor''" by simp_all
    have r: "run_app lib serving_loop c args w =
       (if command \<in> {''--version'', ''-version'', ''version''} then
            ((quits 0)\<lparr>oc_stdout := [Text (version_string (lib_build lib))]\<rparr>, w)
        else if command \<in> {''help'', ''--help'', ''-h''} then ((quits 0)\<lparr>oc_stdout := [Usage]\<rparr>, w)
        else ((fails 2 (Errorf ''unknown command %q'' [command]))\<lparr>oc_stderr := [Usage]\<rparr>, w))"
      unfolding Cons run_app_def list.case by (simp only: other if_False)
    show thesis
      using refused r by (auto simp: fails_def quits_def split: if_split_asm)
  qed
qed

lemma serving_mode:
  assumes "run_app lib serving_loop c args w = (oc, w')" and "oc_served oc = Some cl"
  shows "args = [] \<and> env_get (command_env lib) action_variable = ''execution'' \<and>
    execution_mode lib serving_loop c w = (oc, w')"
proof (rule run_app_cases [of args lib serving_loop c w])
  fix rest
  assume "run_app lib serving_loop c args w = validate_config lib rest w"
  then show ?thesis using assms validate_serves_nothing [of lib rest w] by (metis fst_conv option.distinct(1))
next
  assume "run_app lib serving_loop c args w = doctor lib w"
  then show ?thesis using assms doctor_serves_nothing [of lib w] by (metis fst_conv option.distinct(1))
qed (use assms in simp_all)

section \<open>Properties\<close>


definition demo_app :: app_lib where
  "demo_app = collector_lib.extend (demo_lib\<lparr>lib_environ := [''allure-report_action=execution'', ''GAUGE_PROJECT_ROOT=/p'']\<rparr>)
     (app_lib.fields \<lparr>bi_version = ''0.1.0'', bi_commit = ''c'', bi_date = ''d'', bi_dirty = ''false'', bi_marker = []\<rparr>
        (\<lambda>_. ''run'') ''h'')"

lemma demo_served: "oc_served (fst (run_app demo_app (\<lambda>_ _ w. (None, w)) None [] (calm_world [([''p''], Dir_node)]))) \<noteq> None"
  unfolding demo_app_def by code_simp


text \<open>
  The modes that only inform read and never write: printing the version or the usage, an unknown
  command, and the validation of a configuration leave the file system as it is, and exit with 0, 1 or 2.
\<close>

theorem readonly_modes:
  assumes "args \<noteq> []" and "hd args \<noteq> ''doctor''"
  shows "quiet w (snd (run_app lib serving_loop c args w)) \<and> oc_code (fst (run_app lib serving_loop c args w)) \<le> 2"
proof (rule run_app_cases [of args lib serving_loop c w])
  fix rest
  assume "run_app lib serving_loop c args w = validate_config lib rest w"
  then show ?thesis using quiet_validate [of w lib rest] validate_serves_nothing [of lib rest w] by simp
qed (use assms in simp_all)

theorem readonly_modes_witness:
  "quiet (calm_world []) (snd (run_app demo_app (\<lambda>_ _ w. (None, w)) None [''version''] (calm_world [])))"
proof -
  have "hd [''version''] \<noteq> ''doctor''" by simp
  with readonly_modes [of "[''version'']" "calm_world []" demo_app "\<lambda>_ _ w. (None, w)" None] show ?thesis by blast
qed

end
