(* ===== verification/Build_Tools.thy ===== *)
theory Build_Tools
  imports App
begin

text \<open>
  The release tools: \<^verbatim>\<open>build/package/main.go\<close> makes the plugin archive, \<^verbatim>\<open>build/verify/main.go\<close> checks
  one, and \<^verbatim>\<open>build/validatefiles/main.go\<close> parses every JSON and YAML file of the repository.

  The ZIP format, the JSON decoder and the YAML decoder are library code and parameters of the tools.
  A relative path is walked from the working directory, which is the root of the model's file table.  The
  command lines of the tools are in \<^verbatim>\<open>Release_Commands\<close>.
\<close>

section \<open>Packaging\<close>

record zip_entry =
  ze_name :: string
  ze_data :: string
  ze_mode :: nat

record plugin_descriptor =
  pd_id :: string
  pd_version :: string
  pd_capabilities :: "string list"

record build_lib = unicode +
  lib_descriptor :: "string \<Rightarrow> err + plugin_descriptor"
  lib_zip_entry :: "zip_entry \<Rightarrow> err + string"
  lib_zip_end :: "zip_entry list \<Rightarrow> string"
  lib_unzip :: "string \<Rightarrow> err + zip_entry list"
  lib_zip_read :: "zip_entry \<Rightarrow> err + string"

definition check_target :: "string \<Rightarrow> string \<Rightarrow> string \<Rightarrow> err option" where
  "check_target binary os arch =
     (if binary = [] \<or> os = [] \<or> arch = [] then Some (Errorf ''binary, os, and arch are required'' [])
      else if \<not> one_of os [''windows'', ''linux'', ''darwin''] \<or> \<not> one_of arch [''386'', ''amd64'', ''arm64''] then
        Some (Errorf ''unsupported target %s/%s'' [os, arch])
      else if (os = ''darwin'' \<and> arch = ''386'') \<or> (os = ''windows'' \<and> arch = ''arm64'') then
        Some (Errorf ''unadvertised target %s/%s'' [os, arch])
      else None)"

definition verify_binary_version :: "string \<Rightarrow> string \<Rightarrow> world \<Rightarrow> err option \<times> world" where
  "verify_binary_version path expected w =
     (case os_read_file path w of
        (Inl e, w) \<Rightarrow> (Some (Wrapf ''read binary version marker: %w'' [] e), w)
      | (Inr data, w) \<Rightarrow>
          (if contains data (marker_prefix @ expected) then None
           else Some (Errorf ''binary does not contain reporter package version marker %s'' [expected]), w))"

definition platform_arch :: "string \<Rightarrow> string" where
  "platform_arch arch =
     (if arch = ''386'' then ''x86'' else if arch = ''amd64'' then ''x86_64'' else if arch = ''arm64'' then ''arm64'' else [])"

definition archive_name :: "string \<Rightarrow> string \<Rightarrow> string \<Rightarrow> string" where
  "archive_name version os arch = ''allure-report-'' @ version @ ''-'' @ os @ ''.'' @ platform_arch arch @ ''.zip''"

definition binary_name :: "bool \<Rightarrow> string" where
  "binary_name windows = (if windows then ''bin/allure-report.exe'' else ''bin/allure-report'')"

definition plugin_entry :: "string \<Rightarrow> zip_entry" where
  "plugin_entry data = \<lparr>ze_name = ''plugin.json'', ze_data = data, ze_mode = 420\<rparr>"

definition binary_entry :: "string \<Rightarrow> string \<Rightarrow> zip_entry" where
  "binary_entry os data = \<lparr>ze_name = binary_name (os = ''windows''), ze_data = data, ze_mode = 493\<rparr>"

text \<open>
  Writing to the file \<^verbatim>\<open>os.Create\<close> opened: it followed a final link, and so does what is written; a device
  swallows it.
\<close>

definition stream_node :: "string \<Rightarrow> string \<Rightarrow> fs \<Rightarrow> (err + unit) \<times> fs" where
  "stream_node p data fs =
     (case resolve_at fs True p of
        Inl e \<Rightarrow> (Inl e, fs)
      | Inr q \<Rightarrow> (case lookup fs q of
          Some (File_node old) \<Rightarrow> (Inr (), put_node q (File_node (old @ data)) fs)
        | Some Special_node \<Rightarrow> (Inr (), fs)
        | _ \<Rightarrow> (Inl (Os_error ''bad file descriptor''), fs)))"

definition os_stream :: "string \<Rightarrow> string \<Rightarrow> world \<Rightarrow> (err + unit) \<times> world" where
  "os_stream p data = sys_call (stream_node p data)"

text \<open>One entry goes to the file; what the library buffers is written by the end at the latest.\<close>

definition add_entry :: "'u build_lib_scheme \<Rightarrow> string \<Rightarrow> zip_entry \<Rightarrow> world \<Rightarrow> err option \<times> world" where
  "add_entry lib target item w =
     (case lib_zip_entry lib item of
        Inl e \<Rightarrow> (Some e, w)
      | Inr bytes \<Rightarrow> (case os_stream target bytes w of (Inl e, w) \<Rightarrow> (Some e, w) | (Inr _, w) \<Rightarrow> (None, w)))"

text \<open>The binary as it is when it is copied; what was copied is returned.\<close>

definition add_file :: "'u build_lib_scheme \<Rightarrow> string \<Rightarrow> string \<Rightarrow> string \<Rightarrow> world \<Rightarrow> (err + string) \<times> world" where
  "add_file lib target os source w =
     (case os_read_file source w of
        (Inl e, w) \<Rightarrow> (Inl e, w)
      | (Inr data, w) \<Rightarrow>
          (case add_entry lib target (binary_entry os data) w of
             (Some e, w) \<Rightarrow> (Inl e, w)
           | (None, w) \<Rightarrow> (Inr data, w)))"

text \<open>Everything between the creation of the file and its close.\<close>

definition write_archive :: "'u build_lib_scheme \<Rightarrow> string \<Rightarrow> string \<Rightarrow> string \<Rightarrow> string \<Rightarrow> world \<Rightarrow> err option \<times> world" where
  "write_archive lib target os descriptor binary w =
     (case add_entry lib target (plugin_entry descriptor) w of
        (Some e, w) \<Rightarrow> (Some e, w)
      | (None, w) \<Rightarrow>
          (case add_file lib target os binary w of
             (Inl e, w) \<Rightarrow> (Some e, w)
           | (Inr data, w) \<Rightarrow>
               (case os_stream target (lib_zip_end lib [plugin_entry descriptor, binary_entry os data]) w of
                  (Inl e, w) \<Rightarrow> (Some e, w)
                | (Inr _, w) \<Rightarrow>
                    (case os_check w of
                       (Inl e, w) \<Rightarrow> (Some e, w)
                     | (Inr _, w) \<Rightarrow> (case os_check w of (Inl e, w) \<Rightarrow> (Some e, w) | (Inr _, w) \<Rightarrow> (None, w))))))"

text \<open>The deferred close, and the removal of an archive that is not kept.\<close>

definition package_archive :: "'u build_lib_scheme \<Rightarrow> string \<Rightarrow> string \<Rightarrow> string \<Rightarrow> string \<Rightarrow> world \<Rightarrow> (err + string) \<times> world" where
  "package_archive lib target os descriptor binary w =
     (case os_write_file target [] w of
        (Inl e, w) \<Rightarrow> (Inl e, w)
      | (Inr _, w) \<Rightarrow>
          (case write_archive lib target os descriptor binary w of
             (None, w) \<Rightarrow> (Inr target, snd (os_check w))
           | (Some e, w) \<Rightarrow> (Inl e, snd (os_remove target (snd (os_check w))))))"

definition check_descriptor :: "'u build_lib_scheme \<Rightarrow> string \<Rightarrow> string \<Rightarrow> err option" where
  "check_descriptor lib version data =
     (case lib_descriptor lib data of
        Inl e \<Rightarrow> Some (Wrapf ''decode plugin descriptor: %w'' [] e)
      | Inr d \<Rightarrow>
          if pd_id d \<noteq> ''allure-report'' \<or> pd_version d \<noteq> version then
            Some (Errorf ''plugin.json id/version mismatch: %s %s'' [pd_id d, pd_version d])
          else None)"

definition check_binary :: "string \<Rightarrow> string \<Rightarrow> world \<Rightarrow> err option \<times> world" where
  "check_binary binary version w =
     (case os_stat binary w of
        (Inl e, w) \<Rightarrow> (Some (Wrapf ''inspect binary: %w'' [] e), w)
      | (Inr (File_node _), w) \<Rightarrow> verify_binary_version binary version w
      | (Inr _, w) \<Rightarrow> (Some (Errorf ''binary is not a regular file'' []), w))"

definition run_package :: "'u build_lib_scheme \<Rightarrow> string \<Rightarrow> string \<Rightarrow> string \<Rightarrow> string \<Rightarrow> string \<Rightarrow> string \<Rightarrow> world
    \<Rightarrow> (err + string) \<times> world" where
  "run_package lib binary os arch version out plugin w =
     (case check_target binary os arch of
        Some e \<Rightarrow> (Inl e, w)
      | None \<Rightarrow>
          (case os_read_file plugin w of
             (Inl e, w) \<Rightarrow> (Inl (Wrapf ''read plugin descriptor: %w'' [] e), w)
           | (Inr data, w) \<Rightarrow>
               (case check_descriptor lib version data of
                  Some e \<Rightarrow> (Inl e, w)
                | None \<Rightarrow>
                    (case check_binary binary version w of
                       (Some e, w) \<Rightarrow> (Inl e, w)
                     | (None, w) \<Rightarrow>
                         (case os_mkdir_all out w of
                            (Inl e, w) \<Rightarrow> (Inl e, w)
                          | (Inr _, w) \<Rightarrow>
                              package_archive lib (path_join [out, archive_name version os arch]) os data binary w)))))"

section \<open>Verifying\<close>

text \<open>
  The entries found so far, by name, and the data of the descriptor.  The modes are the octal 644 and 755,
  and the mask 111 of the executable bits.
\<close>

fun verify_entries :: "'u build_lib_scheme \<Rightarrow> string \<Rightarrow> bool \<Rightarrow> zip_entry list \<Rightarrow> string set \<Rightarrow> string
    \<Rightarrow> err + string set \<times> string" where
  "verify_entries lib binary windows [] found data = Inr (found, data)"
| "verify_entries lib binary windows (f # fs) found data =
     (if ze_name f \<noteq> ''plugin.json'' \<and> ze_name f \<noteq> binary then
        Inl (Errorf ''unexpected archive entry %q'' [ze_name f])
      else if ze_name f \<in> found then Inl (Errorf ''duplicate archive entry %q'' [ze_name f])
      else
        (case (if ze_name f = ''plugin.json'' then lib_zip_read lib f else Inr data) of
           Inl e \<Rightarrow> Inl e
         | Inr data \<Rightarrow>
             if ze_name f = binary \<and> \<not> windows \<and> and (ze_mode f) 73 = 0 then
               Inl (Errorf ''unix binary is not executable'' [])
             else verify_entries lib binary windows fs (insert (ze_name f) found) data))"

definition verify_descriptor :: "'u build_lib_scheme \<Rightarrow> string \<Rightarrow> string \<Rightarrow> err option" where
  "verify_descriptor lib version data =
     (case lib_descriptor lib data of
        Inl e \<Rightarrow> Some e
      | Inr d \<Rightarrow>
          if pd_id d \<noteq> ''allure-report'' \<or> pd_version d \<noteq> version then
            Some (Errorf ''descriptor mismatch: %+v'' [pd_id d, pd_version d])
          else if ''grpc_support'' \<notin> set (pd_capabilities d) then
            Some (Errorf ''grpc_support capability is missing'' [])
          else None)"

text \<open>Of two missing entries the code names either one; here it is the descriptor.\<close>

definition verify_archive :: "'u build_lib_scheme \<Rightarrow> string \<Rightarrow> string \<Rightarrow> zip_entry list \<Rightarrow> err option" where
  "verify_archive lib path version entries =
     (let windows = contains (to_lower lib (base path)) ''windows'';
          binary = binary_name windows
      in case verify_entries lib binary windows entries {} [] of
           Inl e \<Rightarrow> Some e
         | Inr (found, data) \<Rightarrow>
             if ''plugin.json'' \<notin> found then Some (Errorf ''missing archive entry %q'' [''plugin.json''])
             else if binary \<notin> found then Some (Errorf ''missing archive entry %q'' [binary])
             else verify_descriptor lib version data)"

definition verify_file :: "'u build_lib_scheme \<Rightarrow> string \<Rightarrow> string \<Rightarrow> world \<Rightarrow> err option \<times> world" where
  "verify_file lib path version w =
     (if path = [] then (Some (Errorf ''archive is required'' []), w)
      else (case os_read_file path w of
              (Inl e, w) \<Rightarrow> (Some e, w)
            | (Inr data, w) \<Rightarrow>
                (case lib_unzip lib data of
                   Inl e \<Rightarrow> (Some e, w)
                 | Inr entries \<Rightarrow> (verify_archive lib path version entries, w))))"

section \<open>Validating the files of a repository\<close>

text \<open>One call of a decoder: a value and the rest, the end of the input, or an error.\<close>

datatype decoded = Decoded_value string | Decoded_end err | Decoded_error err

definition decode_json :: "(string \<Rightarrow> decoded) \<Rightarrow> string \<Rightarrow> err option" where
  "decode_json next_value data =
     (case next_value data of
        Decoded_error e \<Rightarrow> Some e
      | Decoded_end e \<Rightarrow> Some e
      | Decoded_value rest \<Rightarrow>
          (case next_value rest of
             Decoded_end _ \<Rightarrow> None
           | Decoded_value _ \<Rightarrow> Some (Errorf ''multiple JSON values'' [])
           | Decoded_error e \<Rightarrow> Some e))"

text \<open>The loop over the documents of a YAML file; a decoder that never ends makes it run forever.\<close>

partial_function (option) decode_yaml :: "(string \<Rightarrow> decoded) \<Rightarrow> string \<Rightarrow> err option option" where
  "decode_yaml next_value data =
     (case next_value data of
        Decoded_error e \<Rightarrow> Some (Some e)
      | Decoded_end _ \<Rightarrow> Some None
      | Decoded_value rest \<Rightarrow> decode_yaml next_value rest)"

definition ignored_directory :: "string \<Rightarrow> bool" where
  "ignored_directory name \<longleftrightarrow>
     one_of name [''.git'', ''.tools'', ''bin'', ''dist'', ''node_modules'', ''allure-results'', ''allure-report'']"

text \<open>
  What \<^verbatim>\<open>filepath.WalkDir\<close> finds: a file with what reading it gives, or a directory with its entries in
  the order of the walk or the error of listing it.
\<close>

datatype tree = Leaf "err + string" | Branch "err + (string \<times> tree) list"

definition visit_file :: "'u unicode_scheme \<Rightarrow> (string \<Rightarrow> decoded) \<Rightarrow> (string \<Rightarrow> decoded) \<Rightarrow> string \<Rightarrow> err + string \<Rightarrow> nat
    \<Rightarrow> (err option \<times> nat) option" where
  "visit_file u json yaml path content n =
     (let extension = to_lower u (ext path) in
      if extension \<noteq> ''.json'' \<and> extension \<noteq> ''.yaml'' \<and> extension \<noteq> ''.yml'' then Some (None, n)
      else (case content of
              Inl e \<Rightarrow> Some (Some e, n)
            | Inr data \<Rightarrow>
                map_option (\<lambda>r. case r of
                    Some e \<Rightarrow> (Some (Wrapf ''validate %s: %w'' [path] e), n)
                  | None \<Rightarrow> (None, n + 1))
                  (if extension = ''.json'' then Some (decode_json json data) else decode_yaml yaml data)))"

text \<open>
  The walk: the error that ended it, and how many files were accepted; \<^const>\<open>None\<close> when a decoder never
  ends.  An error of listing a directory is handed to the callback, which returns it.
\<close>

fun walk_tree :: "'u unicode_scheme \<Rightarrow> (string \<Rightarrow> decoded) \<Rightarrow> (string \<Rightarrow> decoded) \<Rightarrow> bool \<Rightarrow> string \<Rightarrow> string \<Rightarrow> tree \<Rightarrow> nat
    \<Rightarrow> (err option \<times> nat) option"
and walk_entries :: "'u unicode_scheme \<Rightarrow> (string \<Rightarrow> decoded) \<Rightarrow> (string \<Rightarrow> decoded) \<Rightarrow> string \<Rightarrow> (string \<times> tree) list \<Rightarrow> nat
    \<Rightarrow> (err option \<times> nat) option" where
  "walk_tree u json yaml root path name (Leaf content) n = visit_file u json yaml path content n"
| "walk_tree u json yaml root path name (Branch (Inl e)) n =
     (if \<not> root \<and> ignored_directory name then Some (None, n) else Some (Some e, n))"
| "walk_tree u json yaml root path name (Branch (Inr entries)) n =
     (if \<not> root \<and> ignored_directory name then Some (None, n) else walk_entries u json yaml path entries n)"
| "walk_entries u json yaml path [] n = Some (None, n)"
| "walk_entries u json yaml path ((name, t) # rest) n =
     (case walk_tree u json yaml False (path_join [path, name]) name t n of
        None \<Rightarrow> None
      | Some (Some e, n) \<Rightarrow> Some (Some e, n)
      | Some (None, n) \<Rightarrow> walk_entries u json yaml path rest n)"

definition validate_files :: "'u unicode_scheme \<Rightarrow> (string \<Rightarrow> decoded) \<Rightarrow> (string \<Rightarrow> decoded) \<Rightarrow> string \<Rightarrow> tree
    \<Rightarrow> (err option \<times> nat) option" where
  "validate_files u json yaml root t = walk_tree u json yaml True root (base root) t 0"

section \<open>Facts\<close>

lemma verify_entries_names:
  "verify_entries lib binary windows es found data = Inr (found', data') \<Longrightarrow>
     distinct (map ze_name es) \<and> set (map ze_name es) \<inter> found = {} \<and>
     set (map ze_name es) \<subseteq> {''plugin.json'', binary} \<and> found' = found \<union> set (map ze_name es)"
proof (induction es arbitrary: found data)
  case (Cons f fs)
  obtain d where step: "ze_name f \<in> {''plugin.json'', binary}" "ze_name f \<notin> found"
    and rest: "verify_entries lib binary windows fs (insert (ze_name f) found) d = Inr (found', data')"
    using Cons.prems by (auto split: if_split_asm sum.splits)
  from Cons.IH [OF rest] step show ?case by auto
qed simp

text \<open>The two entries of an archive, in either order.\<close>

lemma two_entries:
  assumes "distinct (map ze_name es)" and "set (map ze_name es) = {p, b}" and "p \<noteq> b"
  obtains (first) x y where "es = [x, y]" "ze_name x = p" "ze_name y = b"
  | (second) x y where "es = [x, y]" "ze_name x = b" "ze_name y = p"
proof -
  have "length es = 2" using assms distinct_card [OF assms(1)] by simp
  then obtain x y where es: "es = [x, y]" by (auto simp: length_Suc_conv numeral_2_eq_2)
  then consider "ze_name x = p" "ze_name y = b" | "ze_name x = b" "ze_name y = p"
    using assms by (auto simp: doubleton_eq_iff)
  then show thesis using es first second by metis
qed

lemma binary_not_plugin [simp]: "binary_name w \<noteq> ''plugin.json''" "''plugin.json'' \<noteq> binary_name w"
  by (simp_all add: binary_name_def)

text \<open>Whether the name of an archive says Windows.\<close>

lemma contains_sep: "c \<notin> set t \<Longrightarrow> contains (xs @ c # ys) t \<longleftrightarrow> contains xs t \<or> contains ys t"
proof (cases "t = []")
  case False
  assume c: "c \<notin> set t"
  have "b = []" if "t = a @ b" "prefix b (c # ys)" for a b
    using that c by (cases b) auto
  then show ?thesis
    using c False by (auto simp: contains_def sublist_append sublist_Cons_right prefix_Cons)
qed (simp add: contains_def)

lemma to_lower_append: "is_ascii s \<Longrightarrow> is_ascii t \<Longrightarrow> to_lower u (s @ t) = to_lower u s @ to_lower u t"
  by (simp add: to_lower_def)

text \<open>The words of an archive's name: lower case, and only one of them says Windows.\<close>

definition plain_word :: "string \<Rightarrow> bool" where
  "plain_word s \<longleftrightarrow> is_ascii s \<and> map (\<lambda>c. chr (lower_ascii (ord c))) s = s \<and> (contains s ''windows'' \<longleftrightarrow> s = ''windows'')"

lemma plain_words:
  "list_all plain_word [''windows'', ''linux'', ''darwin'', ''x86'', ''x86_64'', ''arm64'', ''zip'', ''allure'', ''report'', ''-'', ''.'']"
  by code_simp

lemma plain_word_lower: "plain_word s \<Longrightarrow> is_ascii s \<and> to_lower u s = s"
  by (simp add: plain_word_def to_lower_def)

lemma archive_windows:
  assumes "os = ''windows'' \<or> os = ''linux'' \<or> os = ''darwin''" and "arch = ''386'' \<or> arch = ''amd64'' \<or> arch = ''arm64''"
    and "is_ascii version"
  shows "contains (to_lower u (archive_name version os arch)) ''windows'' \<longleftrightarrow>
    os = ''windows'' \<or> contains (to_lower u version) ''windows''"
proof -
  have os: "plain_word os" using assms(1) plain_words by auto
  have pa: "plain_word (platform_arch arch)" "platform_arch arch \<noteq> ''windows''"
    using assms(2) plain_words by (auto simp: platform_arch_def)
  have words: "plain_word ''allure''" "plain_word ''report''" "plain_word ''zip''" "plain_word ''-''" "plain_word ''.''"
    using plain_words by simp_all
  have "archive_name version os arch =
      ''allure'' @ ''-'' @ ''report'' @ ''-'' @ version @ ''-'' @ os @ ''.'' @ platform_arch arch @ ''.'' @ ''zip''"
    by (simp add: archive_name_def)
  then have "to_lower u (archive_name version os arch) =
      ''allure'' @ ''-'' @ ''report'' @ ''-'' @ to_lower u version @ ''-'' @ os @ ''.'' @ platform_arch arch @ ''.'' @ ''zip''"
    using assms(3)
    by (simp only: to_lower_append is_ascii_append words [THEN plain_word_lower] os [THEN plain_word_lower]
        pa(1) [THEN plain_word_lower] simp_thms)
  moreover have sep: "contains (xs @ ''-'' @ ys) ''windows'' \<longleftrightarrow> contains xs ''windows'' \<or> contains ys ''windows''"
    "contains (xs @ ''.'' @ ys) ''windows'' \<longleftrightarrow> contains xs ''windows'' \<or> contains ys ''windows''" for xs ys
    using contains_sep [of "CHR ''-''" "''windows''" xs ys] contains_sep [of "CHR ''.''" "''windows''" xs ys] by simp_all
  moreover have "\<not> contains ''allure'' ''windows''" "\<not> contains ''report'' ''windows''" "\<not> contains ''zip'' ''windows''"
    "\<not> contains (platform_arch arch) ''windows''" "contains os ''windows'' \<longleftrightarrow> os = ''windows''"
    using words os pa by (simp_all add: plain_word_def)
  ultimately show ?thesis by (simp only: sep simp_thms) blast
qed

text \<open>The files a walk reaches, outside the ignored directories; \<^const>\<open>None\<close> if a listing fails.\<close>

fun visible :: "bool \<Rightarrow> string \<Rightarrow> string \<Rightarrow> tree \<Rightarrow> (string \<times> (err + string)) list option"
and visible_entries :: "string \<Rightarrow> (string \<times> tree) list \<Rightarrow> (string \<times> (err + string)) list option" where
  "visible root path name (Leaf content) = Some [(path, content)]"
| "visible root path name (Branch (Inl e)) = (if \<not> root \<and> ignored_directory name then Some [] else None)"
| "visible root path name (Branch (Inr entries)) =
     (if \<not> root \<and> ignored_directory name then Some [] else visible_entries path entries)"
| "visible_entries path [] = Some []"
| "visible_entries path ((name, t) # rest) =
     (case visible False (path_join [path, name]) name t of
        None \<Rightarrow> None
      | Some files \<Rightarrow> map_option ((@) files) (visible_entries path rest))"

definition data_file :: "'u unicode_scheme \<Rightarrow> string \<Rightarrow> bool" where
  "data_file u path \<longleftrightarrow> to_lower u (ext path) \<in> {''.json'', ''.yaml'', ''.yml''}"

definition well_formed :: "'u unicode_scheme \<Rightarrow> (string \<Rightarrow> decoded) \<Rightarrow> (string \<Rightarrow> decoded) \<Rightarrow> string \<times> (err + string) \<Rightarrow> bool" where
  "well_formed u json yaml = (\<lambda>(path, content). data_file u path \<longrightarrow>
     (\<exists>data. content = Inr data \<and>
        (if to_lower u (ext path) = ''.json'' then decode_json json data = None else decode_yaml yaml data = Some None)))"

definition data_files :: "'u unicode_scheme \<Rightarrow> (string \<times> (err + string)) list \<Rightarrow> nat" where
  "data_files u files = length (filter (data_file u \<circ> fst) files)"

lemma visit_file_iff:
  "visit_file u json yaml path content n = Some (None, m) \<longleftrightarrow>
     well_formed u json yaml (path, content) \<and> m = n + data_files u [(path, content)]"
  by (cases content)
    (auto simp: visit_file_def well_formed_def data_file_def data_files_def Let_def split: option.splits)

lemma walk_iff:
  "walk_tree u json yaml root path name t n = Some (None, m) \<longleftrightarrow>
     (\<exists>files. visible root path name t = Some files \<and> list_all (well_formed u json yaml) files \<and> m = n + data_files u files)"
  "walk_entries u json yaml path ts n = Some (None, m) \<longleftrightarrow>
     (\<exists>files. visible_entries path ts = Some files \<and> list_all (well_formed u json yaml) files \<and> m = n + data_files u files)"
proof (induction root path name t and path ts arbitrary: n m and n m rule: visible_visible_entries.induct)
  case (5 path name t rest)
  show ?case
  proof
    assume "walk_entries u json yaml path ((name, t) # rest) n = Some (None, m)"
    then obtain k where 1: "walk_tree u json yaml False (path_join [path, name]) name t n = Some (None, k)"
        "walk_entries u json yaml path rest k = Some (None, m)"
      by (auto split: option.splits)
    from 1(1) obtain fs where fs: "visible False (path_join [path, name]) name t = Some fs"
        "list_all (well_formed u json yaml) fs" "k = n + data_files u fs" using 5(1) by blast
    from 1(2) obtain gs where "visible_entries path rest = Some gs" "list_all (well_formed u json yaml) gs" "m = k + data_files u gs"
      using 5(2) [OF fs(1)] by blast
    then show "\<exists>files. visible_entries path ((name, t) # rest) = Some files \<and> list_all (well_formed u json yaml) files \<and>
        m = n + data_files u files" using fs by (simp add: data_files_def)
  next
    assume "\<exists>files. visible_entries path ((name, t) # rest) = Some files \<and> list_all (well_formed u json yaml) files \<and>
        m = n + data_files u files"
    then obtain fs gs where fs: "visible False (path_join [path, name]) name t = Some fs" and gs: "visible_entries path rest = Some gs"
        and ok: "list_all (well_formed u json yaml) (fs @ gs)" "m = n + data_files u (fs @ gs)"
      by (auto split: option.splits)
    have "walk_tree u json yaml False (path_join [path, name]) name t n = Some (None, n + data_files u fs)"
      using 5(1) fs ok by auto
    moreover have "walk_entries u json yaml path rest (n + data_files u fs) = Some (None, m)"
      using 5(2) [OF fs] gs ok by (simp add: data_files_def)
    ultimately show "walk_entries u json yaml path ((name, t) # rest) n = Some (None, m)" by simp
  qed
qed (auto simp: visit_file_iff data_files_def split: if_splits)

text \<open>A decoder that consumes input makes the loop over YAML documents return.\<close>

lemma decode_yaml_returns:
  assumes "\<And>d rest. next_value d = Decoded_value rest \<Longrightarrow> length rest < length d"
  shows "decode_yaml next_value data \<noteq> None"
proof (induction data rule: length_induct)
  case (1 data)
  then show ?case using assms by (subst decode_yaml.simps) (auto split: decoded.split)
qed

text \<open>What is asked of the descriptor's entry and the binary's.\<close>

definition plugin_pair :: "'u build_lib_scheme \<Rightarrow> bool \<Rightarrow> string \<Rightarrow> zip_entry \<Rightarrow> zip_entry \<Rightarrow> bool" where
  "plugin_pair lib windows version p b \<longleftrightarrow>
     ze_name p = ''plugin.json'' \<and> ze_name b = binary_name windows \<and> (windows \<or> and (ze_mode b) 73 \<noteq> 0) \<and>
     (\<exists>data. lib_zip_read lib p = Inr data \<and> verify_descriptor lib version data = None)"

lemma verify_pair:
  assumes "ze_name p = ''plugin.json''" and "ze_name b = binary_name (contains (to_lower lib (base path)) ''windows'')"
  shows "verify_archive lib path version [p, b] = None \<longleftrightarrow>
      plugin_pair lib (contains (to_lower lib (base path)) ''windows'') version p b"
    and "verify_archive lib path version [b, p] = None \<longleftrightarrow>
      plugin_pair lib (contains (to_lower lib (base path)) ''windows'') version p b"
  using assms by (auto simp: verify_archive_def plugin_pair_def Let_def split: sum.split)

lemma verified_names:
  assumes "verify_archive lib path version es = None"
  shows "distinct (map ze_name es)"
    and "set (map ze_name es) = {''plugin.json'', binary_name (contains (to_lower lib (base path)) ''windows'')}"
proof -
  let ?b = "binary_name (contains (to_lower lib (base path)) ''windows'')"
  obtain found data where v: "verify_entries lib ?b (contains (to_lower lib (base path)) ''windows'') es {} [] = Inr (found, data)"
      and both: "''plugin.json'' \<in> found" "?b \<in> found"
    using assms by (auto simp: verify_archive_def Let_def split: sum.splits if_splits)
  show "distinct (map ze_name es)" "set (map ze_name es) = {''plugin.json'', ?b}"
    using verify_entries_names [OF v] both by auto
qed

lemma mset_pair: "mset es = {#p, b#} \<Longrightarrow> es = [p, b] \<or> es = [b, p]"
proof -
  assume es: "mset es = {#p, b#}"
  have "length es = 2" using arg_cong [OF es, of size] by simp
  then obtain x y where "es = [x, y]" by (auto simp: length_Suc_conv numeral_2_eq_2)
  then show ?thesis using es by (auto simp: add_eq_conv_ex)
qed

section \<open>Properties\<close>

text \<open>
  C37.  The check of an archive accepts exactly the archives of a plugin: two entries, the descriptor and the
  binary of the platform, each once, in either order and nothing else; a Unix binary is executable; and the
  descriptor can be read, names the plugin and the version and offers the service.
\<close>

theorem verify_archive_iff:
  "verify_archive lib path version es = None \<longleftrightarrow>
     (let windows = contains (to_lower lib (base path)) ''windows'' in
      \<exists>p b data. mset es = {#p, b#} \<and> ze_name p = ''plugin.json'' \<and> ze_name b = binary_name windows \<and>
        (windows \<or> and (ze_mode b) 73 \<noteq> 0) \<and> lib_zip_read lib p = Inr data \<and> verify_descriptor lib version data = None)"
proof -
  let ?w = "contains (to_lower lib (base path)) ''windows''"
  have "\<exists>p b. mset es = {#p, b#} \<and> plugin_pair lib ?w version p b" if ok: "verify_archive lib path version es = None"
    using verified_names [OF ok]
  proof (rule two_entries)
    fix x y
    assume xy: "es = [x, y]" "ze_name x = ''plugin.json''" "ze_name y = binary_name ?w"
    show ?thesis by (rule exI [of _ x], rule exI [of _ y]) (use xy verify_pair(1) [of x y lib path version] ok in simp)
  next
    fix x y
    assume xy: "es = [x, y]" "ze_name x = binary_name ?w" "ze_name y = ''plugin.json''"
    show ?thesis
      by (rule exI [of _ y], rule exI [of _ x]) (use xy verify_pair(2) [of y x lib path version] ok in \<open>simp add: add_mset_commute\<close>)
  qed simp
  moreover have "verify_archive lib path version es = None"
    if es: "mset es = {#p, b#}" and pair: "plugin_pair lib ?w version p b" for p b
  proof -
    have "es = [p, b] \<or> es = [b, p]" using es by (rule mset_pair)
    moreover have "ze_name p = ''plugin.json''" "ze_name b = binary_name ?w" using pair by (simp_all add: plugin_pair_def)
    ultimately show ?thesis using pair verify_pair by metis
  qed
  ultimately show ?thesis unfolding Let_def plugin_pair_def by blast
qed

text \<open>
  For a target the packager accepts, a checked descriptor and a plain version, the entries of the packager,
  under the name it gives, are accepted exactly when the descriptor offers the service.
\<close>

lemma packaged_accepted:
  assumes "check_target binary os arch = None" and "check_descriptor lib version descriptor = None"
    and "is_ascii version" and "slash \<notin> set version"
    and "os \<noteq> ''windows'' \<Longrightarrow> \<not> contains (to_lower lib version) ''windows''"
    and "lib_zip_read lib (plugin_entry descriptor) = Inr descriptor"
  shows "verify_archive lib (archive_name version os arch) version [plugin_entry descriptor, binary_entry os data] = None \<longleftrightarrow>
    (\<exists>d. lib_descriptor lib descriptor = Inr d \<and> ''grpc_support'' \<in> set (pd_capabilities d))"
proof -
  have target: "os = ''windows'' \<or> os = ''linux'' \<or> os = ''darwin''" "arch = ''386'' \<or> arch = ''amd64'' \<or> arch = ''arm64''"
    using assms(1) by (auto simp: check_target_def one_of_def split: if_splits)
  have "slash \<notin> set (archive_name version os arch)"
    using target assms(4) by (elim disjE) (simp_all add: archive_name_def platform_arch_def)
  then have "base (archive_name version os arch) = archive_name version os arch"
    by (intro base_id_if_no_slash) (simp_all add: archive_name_def)
  then have w: "contains (to_lower lib (base (archive_name version os arch))) ''windows'' \<longleftrightarrow> os = ''windows''"
    using archive_windows [OF target assms(3), of lib] assms(5) by metis
  obtain d where d: "lib_descriptor lib descriptor = Inr d" "pd_id d = ''allure-report''" "pd_version d = version"
    using assms(2) by (auto simp: check_descriptor_def split: sum.splits if_splits)
  have mode: "and (ze_mode (binary_entry os data)) 73 \<noteq> 0" by (simp add: binary_entry_def)
  have "verify_archive lib (archive_name version os arch) version [plugin_entry descriptor, binary_entry os data] =
      verify_descriptor lib version descriptor"
    using mode by (simp add: verify_archive_def w assms(6)) (simp add: plugin_entry_def binary_entry_def)
  then show ?thesis using d by (simp add: verify_descriptor_def)
qed

definition demo_build :: build_lib where
  "demo_build = unicode.extend ascii_tables (build_lib.fields
     (\<lambda>_. Inr \<lparr>pd_id = ''allure-report'', pd_version = ''0.1.0'', pd_capabilities = [''grpc_support'']\<rparr>)
     (\<lambda>_. Inr []) (\<lambda>_. []) (\<lambda>_. Inr []) (\<lambda>z. Inr (ze_data z)))"

theorem verify_archive_iff_witness:
  "verify_archive demo_build ''a-linux.zip'' ''0.1.0'' [binary_entry ''linux'' ''ELF'', plugin_entry ''{}''] = None"
proof -
  have w: "contains (to_lower demo_build (base ''a-linux.zip'')) ''windows'' = False"
    unfolding demo_build_def by code_simp
  have d: "lib_descriptor demo_build = (\<lambda>_. Inr \<lparr>pd_id = ''allure-report'', pd_version = ''0.1.0'', pd_capabilities = [''grpc_support'']\<rparr>)"
      "lib_zip_read demo_build = (\<lambda>z. Inr (ze_data z))"
    by (simp_all add: demo_build_def unicode.defs build_lib.defs)
  show ?thesis
    unfolding verify_archive_iff Let_def w
    by (rule exI [of _ "plugin_entry ''{}''"], rule exI [of _ "binary_entry ''linux'' ''ELF''"], rule exI [of _ "''{}''"])
      (simp add: d verify_descriptor_def plugin_entry_def binary_entry_def binary_name_def add_mset_commute)
qed

text \<open>
  C38.  The validation of a repository accepts exactly when every directory outside the ignored ones can be
  listed and every JSON and YAML file in them is well formed, and the number it reports is the number of
  those files.
\<close>

theorem validate_files_iff:
  "validate_files u json yaml root t = Some (None, n) \<longleftrightarrow>
     (\<exists>files. visible True root (base root) t = Some files \<and> list_all (well_formed u json yaml) files \<and> n = data_files u files)"
  by (simp add: validate_files_def walk_iff)

section \<open>Gaps\<close>

text \<open>The check of the binary's version accepts a binary of any version that extends the expected one.\<close>

lemma longer_version_accepted:
  assumes "os_read_file path w = (Inr data, w')" and "contains data (marker_prefix @ version @ extra)"
  shows "verify_binary_version path version w = (None, w')"
proof -
  obtain xs ys where "data = xs @ (marker_prefix @ version @ extra) @ ys" using assms(2) by (rule containsE)
  then have "contains data (marker_prefix @ version)"
    using contains_append [of xs "marker_prefix @ version" "extra @ ys"] by simp
  then show ?thesis using assms(1) by (simp add: verify_binary_version_def)
qed

text \<open>An archive for Linux whose version mentions Windows is not accepted under the name it is given.\<close>

lemma windows_version_misread:
  assumes "is_ascii version" and "contains (to_lower lib version) ''windows''" and "slash \<notin> set version"
  shows "verify_archive lib (archive_name version ''linux'' ''amd64'') version [plugin_entry descriptor, binary_entry ''linux'' data] \<noteq> None"
proof -
  have "base (archive_name version ''linux'' ''amd64'') = archive_name version ''linux'' ''amd64''"
    by (rule base_id_if_no_slash) (use assms(3) in \<open>simp_all add: archive_name_def platform_arch_def\<close>)
  moreover have "contains (to_lower lib (archive_name version ''linux'' ''amd64'')) ''windows''"
    using archive_windows [of "''linux''" "''amd64''" version lib] assms(1,2) by simp
  ultimately have w: "contains (to_lower lib (base (archive_name version ''linux'' ''amd64''))) ''windows'' = True" by simp
  have "verify_archive lib (archive_name version ''linux'' ''amd64'') version es =
      (case verify_entries lib (binary_name True) True es {} [] of
           Inl e \<Rightarrow> Some e
         | Inr (found, data) \<Rightarrow>
             if ''plugin.json'' \<notin> found then Some (Errorf ''missing archive entry %q'' [''plugin.json''])
             else if binary_name True \<notin> found then Some (Errorf ''missing archive entry %q'' [binary_name True])
             else verify_descriptor lib version data)" for es
    by (simp only: verify_archive_def Let_def w)
  then show ?thesis by (simp add: plugin_entry_def binary_entry_def binary_name_def split: sum.split)
qed

end
