(* ===== verification/Release_Commands.thy ===== *)
theory Release_Commands
  imports Build_Tools
begin

text \<open>
  The command lines of the release tools (\<^verbatim>\<open>main\<close> in \<^verbatim>\<open>build/package/main.go\<close>, \<^verbatim>\<open>build/verify/main.go\<close>
  and \<^verbatim>\<open>build/validatefiles/main.go\<close>) with the string flags of the package \<^verbatim>\<open>flag\<close>, and the two tools one
  after the other: what the packager writes to the disk is what the check reads.
\<close>

section \<open>Flags\<close>

datatype flag_word = Operand | Terminator | Malformed | Named string "string option"

definition flag_word :: "string \<Rightarrow> flag_word" where
  "flag_word s =
     (case s of
        c # d # cs \<Rightarrow>
          if c \<noteq> CHR ''-'' then Operand
          else if d = CHR ''-'' \<and> cs = [] then Terminator
          else
            (case (if d = CHR ''-'' then cs else d # cs) of
               [] \<Rightarrow> Malformed
             | n # ns \<Rightarrow>
                 if n = CHR ''-'' \<or> n = CHR ''='' then Malformed
                 else Named (n # takeWhile (\<lambda>x. x \<noteq> CHR ''='') ns)
                        (if CHR ''='' \<in> set ns then Some (tl (dropWhile (\<lambda>x. x \<noteq> CHR ''='') ns)) else None))
      | _ \<Rightarrow> Operand)"

type_synonym flag_values = "(string \<times> string) list"

datatype flags = Flags flag_values | Flag_error err | Flag_help

text \<open>All flags of the tools have a string as value; the values start with the defaults.\<close>

fun parse_flags :: "flag_values \<Rightarrow> string list \<Rightarrow> flags" where
  "parse_flags vals [] = Flags vals"
| "parse_flags vals (s # args) =
     (case flag_word s of
        Operand \<Rightarrow> Flags vals
      | Terminator \<Rightarrow> Flags vals
      | Malformed \<Rightarrow> Flag_error (Errorf ''bad flag syntax: %s'' [s])
      | Named key given \<Rightarrow>
          if map_of vals key = None then
            (if key = ''help'' \<or> key = ''h'' then Flag_help
             else Flag_error (Errorf ''flag provided but not defined: -%s'' [key]))
          else
            (case given of
               Some v \<Rightarrow> parse_flags (AList.update key v vals) args
             | None \<Rightarrow>
                 (case args of
                    [] \<Rightarrow> Flag_error (Errorf ''flag needs an argument: -%s'' [key])
                  | v # rest \<Rightarrow> parse_flags (AList.update key v vals) rest)))"

definition flag_value :: "flag_values \<Rightarrow> string \<Rightarrow> string" where
  "flag_value vals key = (case map_of vals key of None \<Rightarrow> [] | Some v \<Rightarrow> v)"

section \<open>The commands\<close>

text \<open>How a tool ends: with its output, with an error, or in the package \<^verbatim>\<open>flag\<close>.\<close>

datatype tool_exit = Tool_done string | Tool_failed err | Flags_failed err | Flags_help

fun exit_code :: "tool_exit \<Rightarrow> nat" where
  "exit_code (Tool_done text) = 0"
| "exit_code (Tool_failed e) = 1"
| "exit_code (Flags_failed e) = 2"
| "exit_code Flags_help = 0"

definition with_flags :: "flag_values \<Rightarrow> string list \<Rightarrow> (flag_values \<Rightarrow> world \<Rightarrow> tool_exit \<times> world) \<Rightarrow> world \<Rightarrow> tool_exit \<times> world" where
  "with_flags initial args body w =
     (case parse_flags initial args of
        Flag_help \<Rightarrow> (Flags_help, w)
      | Flag_error e \<Rightarrow> (Flags_failed e, w)
      | Flags vals \<Rightarrow> body vals w)"

definition package_flags :: flag_values where
  "package_flags = [(''binary'', []), (''os'', []), (''arch'', []), (''version'', ''0.1.0''), (''out'', ''dist''),
     (''plugin'', ''plugin.json'')]"

definition package_main :: "'u build_lib_scheme \<Rightarrow> string list \<Rightarrow> world \<Rightarrow> tool_exit \<times> world" where
  "package_main lib args =
     with_flags package_flags args (\<lambda>vals w.
       case run_package lib (flag_value vals ''binary'') (flag_value vals ''os'') (flag_value vals ''arch'')
              (flag_value vals ''version'') (flag_value vals ''out'') (flag_value vals ''plugin'') w of
         (Inl e, w) \<Rightarrow> (Tool_failed e, w)
       | (Inr target, w) \<Rightarrow> (Tool_done (target @ [newline]), w))"

definition verify_flags :: flag_values where
  "verify_flags = [(''archive'', []), (''version'', ''0.1.0'')]"

definition verify_main :: "'u build_lib_scheme \<Rightarrow> string list \<Rightarrow> world \<Rightarrow> tool_exit \<times> world" where
  "verify_main lib args =
     with_flags verify_flags args (\<lambda>vals w.
       case verify_file lib (flag_value vals ''archive'') (flag_value vals ''version'') w of
         (Some e, w) \<Rightarrow> (Tool_failed e, w)
       | (None, w) \<Rightarrow> (Tool_done (''verified '' @ flag_value vals ''archive'' @ [newline]), w))"

text \<open>The validation takes no flags; \<^const>\<open>None\<close> when a decoder never ends.\<close>

definition validate_main :: "'u unicode_scheme \<Rightarrow> (string \<Rightarrow> decoded) \<Rightarrow> (string \<Rightarrow> decoded) \<Rightarrow> tree \<Rightarrow> tool_exit option" where
  "validate_main u json yaml t =
     map_option (\<lambda>r. case r of
         (Some e, n) \<Rightarrow> Tool_failed e
       | (None, n) \<Rightarrow> Tool_done (''validated '' @ show_nat n @ '' JSON/YAML files'' @ [newline]))
       (validate_files u json yaml ''.'' t)"

section \<open>Facts on flags\<close>

definition flag_name :: "string \<Rightarrow> bool" where
  "flag_name key \<longleftrightarrow> key \<noteq> [] \<and> hd key \<noteq> CHR ''-'' \<and> CHR ''='' \<notin> set key"

lemma flag_word_name: "flag_name key \<Longrightarrow> flag_word (CHR ''-'' # key) = Named key None"
  by (cases key) (auto simp: flag_name_def flag_word_def takeWhile_eq_all_conv)

lemma flag_word_assigned: "flag_name key \<Longrightarrow> flag_word (CHR ''-'' # key @ CHR ''='' # v) = Named key (Some v)"
  by (cases key) (auto simp: flag_name_def flag_word_def takeWhile_append takeWhile_eq_all_conv dropWhile_append)

text \<open>Every spelling of an assignment is read back, and the last assignment of a flag wins.\<close>

datatype spelling = Apart | Joined

fun spelled :: "spelling \<times> string \<times> string \<Rightarrow> string list" where
  "spelled (Apart, key, v) = [CHR ''-'' # key, v]"
| "spelled (Joined, key, v) = [CHR ''-'' # key @ CHR ''='' # v]"

lemma parse_flags_spelled:
  "\<forall>(how, key, v) \<in> set as. flag_name key \<and> map_of vals key \<noteq> None \<Longrightarrow>
     parse_flags vals (concat (map spelled as)) = Flags (fold (\<lambda>(how, key, v). AList.update key v) as vals)"
proof (induction as arbitrary: vals)
  case (Cons a as)
  obtain how key v where a: "a = (how, key, v)" by (metis prod_cases3)
  have "\<forall>(how, k, u) \<in> set as. flag_name k \<and> map_of (AList.update key v vals) k \<noteq> None"
    using Cons.prems by (auto simp: update_conv')
  then have "parse_flags (AList.update key v vals) (concat (map spelled as)) =
      Flags (fold (\<lambda>(how, key, v). AList.update key v) as (AList.update key v vals))"
    by (rule Cons.IH)
  then show ?case
    using Cons.prems by (cases how) (auto simp: a flag_word_name flag_word_assigned)
qed simp

text \<open>A command line the flags do not accept changes nothing, and the exit code tells it from a failure of the tool.\<close>

lemma with_flags_refused: "parse_flags initial args = Flag_error e \<Longrightarrow> with_flags initial args body w = (Flags_failed e, w)"
  by (simp add: with_flags_def)

section \<open>What the packager leaves on the disk\<close>

text \<open>A path leads to a file with these data, or to a device.\<close>

definition stored :: "fs \<Rightarrow> string \<Rightarrow> string \<Rightarrow> bool" where
  "stored fs p data \<longleftrightarrow> node_at fs True p = Inr (File_node data) \<or> node_at fs True p = Inr Special_node"

lemma walk_put_file:
  "walk n fs f here xs = Inr q \<Longrightarrow> lookup fs q = None \<or> (\<exists>old. lookup fs q = Some (File_node old)) \<Longrightarrow>
     walk n (put_node q (File_node d) fs) f here xs = Inr q"
proof (induction n fs f here xs rule: walk.induct)
  case (2 n fs f here s rest)
  show ?case
  proof (cases "s = [] \<or> s = ''.'' \<or> s = ''..''")
    case True
    then show ?thesis using 2 by auto
  next
    case False
    have "q \<noteq> []" using "2.prems"(2) by (auto simp: lookup_def)
    then show ?thesis
      using 2 False by (auto simp: lookup_put split: option.splits node.splits if_splits)
  qed
qed simp

lemma put_stored:
  assumes "resolve_at fs True p = Inr q" and "lookup fs q = None \<or> (\<exists>old. lookup fs q = Some (File_node old))"
  shows "node_at (put_node q (File_node d) fs) True p = Inr (File_node d)"
proof -
  have "q \<noteq> []" using assms(2) by (auto simp: lookup_def)
  then show ?thesis
    using walk_put_file [of link_limit fs True "[]" "split_on slash p" q d] assms
    by (simp add: node_at_def resolve_at_def lookup_put)
qed

lemma node_at_iff: "node_at fs f p = Inr n \<longleftrightarrow> (\<exists>q. resolve_at fs f p = Inr q \<and> lookup fs q = Some n)"
  by (auto simp: node_at_def split: sum.splits option.splits)

lemma write_node_stored: "write_node p data fs = (Inr u, fs') \<Longrightarrow> stored fs' p data"
  by (auto simp: write_node_def stored_def put_stored node_at_iff [of _ _ _ Special_node]
      split: sum.splits option.splits node.splits)

lemma stream_node_stored: "stream_node p data fs = (Inr u, fs') \<Longrightarrow> stored fs p old \<Longrightarrow> stored fs' p (old @ data)"
  unfolding stored_def node_at_iff [of fs]
  by (auto simp: stream_node_def put_stored) (auto simp: node_at_iff)

lemma write_stored: "os_write_file p data w = (Inr u, w') \<Longrightarrow> stored (w_fs w') p data"
  unfolding os_write_file_def by (erule sys_callE) (auto intro: write_node_stored)

lemma stream_stored: "os_stream p data w = (Inr u, w') \<Longrightarrow> stored (w_fs w) p old \<Longrightarrow> stored (w_fs w') p (old @ data)"
  unfolding os_stream_def by (erule sys_callE) (auto intro: stream_node_stored)

lemma read_file_fs: "os_read_file p w = (r, w') \<Longrightarrow> w_fs w' = w_fs w"
  using quiet_reads(3) [of w p] by (simp add: quiet_def)

lemma add_entry_stored:
  assumes "add_entry lib target item w = (None, w')" and "stored (w_fs w) target old"
  shows "\<exists>bytes. lib_zip_entry lib item = Inr bytes \<and> stored (w_fs w') target (old @ bytes)"
  using assms by (auto simp: add_entry_def split: sum.splits prod.splits dest: stream_stored)

lemma add_file_stored:
  assumes "add_file lib target os source w = (Inr data, w')" and "stored (w_fs w) target old"
  shows "\<exists>bytes. lib_zip_entry lib (binary_entry os data) = Inr bytes \<and> stored (w_fs w') target (old @ bytes)"
proof -
  obtain r v where r: "os_read_file source w = (r, v)" by fastforce
  then have "stored (w_fs v) target old" using assms(2) read_file_fs by simp
  moreover have "r = Inr data" "add_entry lib target (binary_entry os data) v = (None, w')"
    using assms(1) r by (auto simp: add_file_def split: sum.splits prod.splits option.splits)
  ultimately show ?thesis using add_entry_stored by blast
qed

definition archive_of :: "'u build_lib_scheme \<Rightarrow> zip_entry \<Rightarrow> zip_entry \<Rightarrow> string \<Rightarrow> bool" where
  "archive_of lib p b bytes \<longleftrightarrow>
     (\<exists>x y. lib_zip_entry lib p = Inr x \<and> lib_zip_entry lib b = Inr y \<and> bytes = x @ y @ lib_zip_end lib [p, b])"

lemma write_archive_stored:
  assumes "write_archive lib target os descriptor binary w = (None, w')" and "stored (w_fs w) target []"
  shows "\<exists>data bytes. archive_of lib (plugin_entry descriptor) (binary_entry os data) bytes \<and> stored (w_fs w') target bytes"
proof -
  obtain r1 w1 where 1: "add_entry lib target (plugin_entry descriptor) w = (r1, w1)" by fastforce
  obtain r2 w2 where 2: "add_file lib target os binary w1 = (r2, w2)" by fastforce
  have "r1 = None" using assms(1) 1 by (auto simp: write_archive_def split: option.splits)
  then obtain x where x: "lib_zip_entry lib (plugin_entry descriptor) = Inr x" "stored (w_fs w1) target x"
    using add_entry_stored 1 assms(2) by fastforce
  obtain data where d: "r2 = Inr data"
    using assms(1) 1 2 \<open>r1 = None\<close> by (auto simp: write_archive_def split: sum.splits)
  then obtain y where y: "lib_zip_entry lib (binary_entry os data) = Inr y" "stored (w_fs w2) target (x @ y)"
    using add_file_stored 2 x(2) by blast
  let ?tail = "lib_zip_end lib [plugin_entry descriptor, binary_entry os data]"
  obtain r3 w3 where 3: "os_stream target ?tail w2 = (r3, w3)" by fastforce
  have r3: "r3 = Inr ()" and fs: "w_fs w' = w_fs w3"
    using assms(1) 1 2 3 d \<open>r1 = None\<close>
    by (auto simp: write_archive_def os_check_fs split: sum.splits prod.splits)
  then have "stored (w_fs w') target ((x @ y) @ ?tail)" using stream_stored [OF _ y(2)] 3 by simp
  then show ?thesis using x(1) y(1) unfolding archive_of_def by fastforce
qed

lemma package_archive_stored:
  assumes "package_archive lib target os descriptor binary w = (Inr path, w')"
  shows "path = target \<and>
    (\<exists>data bytes. archive_of lib (plugin_entry descriptor) (binary_entry os data) bytes \<and> stored (w_fs w') target bytes)"
proof -
  obtain r1 w1 where 1: "os_write_file target [] w = (r1, w1)" by fastforce
  obtain r2 w2 where 2: "write_archive lib target os descriptor binary w1 = (r2, w2)" by fastforce
  have "r1 = Inr ()" "r2 = None" "path = target" "w' = snd (os_check w2)"
    using assms 1 2 by (auto simp: package_archive_def split: sum.splits option.splits)
  moreover have "w_fs (snd (os_check w2)) = w_fs w2" by (metis os_check_fs prod.collapse)
  ultimately show ?thesis using write_archive_stored write_stored 1 2 by metis
qed

lemma run_package_stored:
  assumes "run_package lib binary os arch version out plugin w = (Inr target, w')"
    and "fst (os_read_file plugin w) = Inr descriptor"
  shows "check_target binary os arch = None \<and> check_descriptor lib version descriptor = None \<and>
    target = path_join [out, archive_name version os arch] \<and>
    (\<exists>data bytes. archive_of lib (plugin_entry descriptor) (binary_entry os data) bytes \<and> stored (w_fs w') target bytes)"
proof -
  obtain w1 where 1: "os_read_file plugin w = (Inr descriptor, w1)" using assms(2) by (metis prod.collapse)
  obtain r2 w2 where 2: "check_binary binary version w1 = (r2, w2)" by fastforce
  obtain r3 w3 where 3: "os_mkdir_all out w2 = (r3, w3)" by fastforce
  have "check_target binary os arch = None" "check_descriptor lib version descriptor = None"
    "package_archive lib (path_join [out, archive_name version os arch]) os descriptor binary w3 = (Inr target, w')"
    using assms(1) 1 2 3 by (auto simp: run_package_def split: option.splits sum.splits)
  then show ?thesis using package_archive_stored by blast
qed

lemma base_snoc:
  assumes "slash \<notin> set x" and "x \<noteq> []"
  shows "base (p @ slash # x) = x"
proof -
  have "dropWhile (\<lambda>c. c = slash) (rev (p @ slash # x)) = rev (p @ slash # x)"
    using assms by (cases x rule: rev_cases) auto
  moreover have "last (split_on slash (p @ slash # x)) = x"
    using assms(1) by (simp add: split_on_append split_on_single)
  ultimately show ?thesis using assms(2) by (simp add: base_def)
qed

lemma base_path_join:
  assumes "plain_seg x"
  shows "base (path_join [out, x]) = x"
proof -
  note x = plain_segD [OF assms]
  have segs: "clean_segs r [] (split_on slash (out @ slash # x)) = clean_segs r [] (split_on slash out) @ [x]" for r
    using x by (simp add: split_on_append clean_segs_append split_on_single)
  have join: "join ''/'' (L @ [x]) = (if L = [] then x else join ''/'' L @ slash # x)" for L
    by (induction "''/''" L rule: join.induct) auto
  show ?thesis
  proof (cases "out = []")
    case True
    have "clean x = x" using x by (cases x) (auto simp: clean_def is_abs_def has_prefix_def split_on_single)
    then show ?thesis using True x by (simp add: path_join_def base_id_if_no_slash)
  next
    case False
    then have j: "path_join [out, x] = clean (out @ slash # x)" by (simp add: path_join_def)
    have "\<exists>p. clean (out @ slash # x) = p @ slash # x \<or> clean (out @ slash # x) = x"
      using x(1) by (simp add: clean_def segs join Let_def)
    then show ?thesis using base_snoc base_id_if_no_slash x unfolding j by metis
  qed
qed

lemma archive_name_plain:
  assumes "check_target binary os arch = None" and "slash \<notin> set version"
  shows "plain_seg (archive_name version os arch)"
proof -
  have "os = ''windows'' \<or> os = ''linux'' \<or> os = ''darwin''" "arch = ''386'' \<or> arch = ''amd64'' \<or> arch = ''arm64''"
    using assms(1) by (auto simp: check_target_def one_of_def split: if_splits)
  then have "slash \<notin> set (archive_name version os arch)"
    using assms(2) by (elim disjE) (simp_all add: archive_name_def platform_arch_def)
  then show ?thesis by (intro plain_segI) (simp_all add: archive_name_def)
qed

lemma verify_archive_base: "base path = base path' \<Longrightarrow> verify_archive lib path version es = verify_archive lib path' version es"
  by (simp add: verify_archive_def)

text \<open>The documented contract of the ZIP library: an archive of two entries reads back.\<close>

definition zip_reads_back :: "'u build_lib_scheme \<Rightarrow> bool" where
  "zip_reads_back lib \<longleftrightarrow>
     (\<forall>p b bytes. archive_of lib p b bytes \<longrightarrow> lib_unzip lib bytes = Inr [p, b] \<and> lib_zip_read lib p = Inr (ze_data p))"

section \<open>Properties\<close>

text \<open>
  C36.  What is packaged passes the check.  When the packager succeeds on a plain version, the file it names is
  on the disk, and the check of what is read back from it, with the same version, succeeds exactly when the
  plugin's descriptor offers the service, whatever the working files, the links and the earlier contents of
  the output directory were.
\<close>

theorem package_then_verify:
  assumes "run_package lib binary os arch version out plugin w = (Inr target, w')"
    and "fst (os_read_file plugin w) = Inr descriptor" and "zip_reads_back lib"
    and "is_ascii version" and "slash \<notin> set version"
    and "os \<noteq> ''windows'' \<Longrightarrow> \<not> contains (to_lower lib version) ''windows''"
    and "w_fs v = w_fs w'" and "fst (os_read_file target v) = Inr bytes"
  shows "fst (verify_file lib target version v) = None \<longleftrightarrow>
    (\<exists>d. lib_descriptor lib descriptor = Inr d \<and> ''grpc_support'' \<in> set (pd_capabilities d))"
proof -
  obtain data old where run: "check_target binary os arch = None" "check_descriptor lib version descriptor = None"
      "target = path_join [out, archive_name version os arch]"
      "archive_of lib (plugin_entry descriptor) (binary_entry os data) old" "stored (w_fs w') target old"
    using run_package_stored [OF assms(1,2)] by blast
  have "bytes = old"
    using assms(7,8) run(5) by (auto simp: os_read_file_def sys_read_def stored_def split: option.splits)
  then have zip: "lib_unzip lib bytes = Inr [plugin_entry descriptor, binary_entry os data]"
      "lib_zip_read lib (plugin_entry descriptor) = Inr descriptor"
    using assms(3) run(4) by (auto simp: zip_reads_back_def plugin_entry_def)
  have plain: "plain_seg (archive_name version os arch)" using archive_name_plain run(1) assms(5) .
  then have "base target = base (archive_name version os arch)"
    using base_path_join [OF plain] plain_segD [OF plain] by (simp add: run(3) base_id_if_no_slash)
  note accepted = verify_archive_base [OF this]
  have "target \<noteq> []" by (auto simp: run(3) path_join_def archive_name_def)
  moreover obtain v' where "os_read_file target v = (Inr bytes, v')" using assms(8) by (metis prod.collapse)
  ultimately have "fst (verify_file lib target version v) =
      verify_archive lib (archive_name version os arch) version [plugin_entry descriptor, binary_entry os data]"
    by (simp add: verify_file_def zip accepted)
  then show ?thesis using packaged_accepted [OF run(1,2) assms(4,5,6) zip(2)] by simp
qed

text \<open>A simple archive format that keeps the contract: each string after its length in unary.\<close>

definition pack_text :: "string \<Rightarrow> string" where
  "pack_text s = replicate (length s) (CHR ''x'') @ newline # s"

definition unpack_text :: "string \<Rightarrow> string \<times> string" where
  "unpack_text s =
     (let n = length (takeWhile (\<lambda>c. c = CHR ''x'') s); rest = drop (Suc n) s in (take n rest, drop n rest))"

definition pack_entry :: "zip_entry \<Rightarrow> err + string" where
  "pack_entry z =
     (if ze_mode z = 420 then Inr (CHR ''r'' # pack_text (ze_name z) @ pack_text (ze_data z))
      else if ze_mode z = 493 then Inr (CHR ''x'' # pack_text (ze_name z) @ pack_text (ze_data z))
      else Inl (Os_error ''unsupported mode''))"

definition unpack_entry :: "string \<Rightarrow> zip_entry \<times> string" where
  "unpack_entry s =
     (case unpack_text (tl s) of (name, rest) \<Rightarrow>
        (case unpack_text rest of (data, rest) \<Rightarrow>
          (\<lparr>ze_name = name, ze_data = data, ze_mode = (if hd s = CHR ''r'' then 420 else 493)\<rparr>, rest)))"

lemma unpack_pack: "unpack_text (pack_text s @ rest) = (s, rest)"
proof -
  have "takeWhile (\<lambda>c. c = CHR ''x'') (pack_text s @ rest) = replicate (length s) (CHR ''x'')"
    by (simp add: pack_text_def takeWhile_append)
  then show ?thesis by (simp add: unpack_text_def) (simp add: pack_text_def)
qed

lemma unpack_pack_entry: "pack_entry z = Inr x \<Longrightarrow> unpack_entry (x @ rest) = (z, rest)"
  by (auto simp: unpack_entry_def pack_entry_def unpack_pack split: if_splits)

definition plain_zip :: build_lib where
  "plain_zip = \<lparr>u_lower = \<lambda>r. r, u_fold = \<lambda>a b. False,
     lib_descriptor = \<lambda>_. Inr \<lparr>pd_id = ''allure-report'', pd_version = ''0.1.0'', pd_capabilities = [''grpc_support'']\<rparr>,
     lib_zip_entry = pack_entry, lib_zip_end = \<lambda>_. [],
     lib_unzip = \<lambda>s. (case unpack_entry s of (p, s) \<Rightarrow> Inr [p, fst (unpack_entry s)]),
     lib_zip_read = \<lambda>z. Inr (ze_data z)\<rparr>"

lemma plain_zip_reads_back: "zip_reads_back plain_zip"
  using unpack_pack_entry [of _ _ "[]"]
  by (auto simp: zip_reads_back_def archive_of_def plain_zip_def unpack_pack_entry)

definition release_fs :: fs where
  "release_fs = [([''p''], Dir_node), ([''p'', ''plugin.json''], File_node ''{}''),
     ([''p'', ''bin''], File_node (marker_prefix @ ''0.1.0''))]"

abbreviation release_run :: "(err + string) \<times> world" where
  "release_run \<equiv> run_package plain_zip ''/p/bin'' ''linux'' ''amd64'' ''0.1.0'' ''/dist'' ''/p/plugin.json'' (calm_world release_fs)"

theorem package_then_verify_witness:
  "fst release_run = Inr ''/dist/allure-report-0.1.0-linux.x86_64.zip'' \<and>
   fst (verify_file plain_zip ''/dist/allure-report-0.1.0-linux.x86_64.zip'' ''0.1.0'' (snd release_run)) = None"
proof -
  let ?t = "''/dist/allure-report-0.1.0-linux.x86_64.zip''"
  have run: "fst release_run = Inr ?t" by code_simp
  then have 1: "release_run = (Inr ?t, snd release_run)" by (metis prod.collapse)
  have 2: "fst (os_read_file ''/p/plugin.json'' (calm_world release_fs)) = Inr ''{}''" by code_simp
  have "\<not> isl (fst (os_read_file ?t (snd release_run)))" by code_simp
  then obtain bytes where 3: "fst (os_read_file ?t (snd release_run)) = Inr bytes"
    by (cases "fst (os_read_file ?t (snd release_run))") auto
  have 4: "is_ascii ''0.1.0''" "slash \<notin> set ''0.1.0''" "\<not> contains (to_lower plain_zip ''0.1.0'') ''windows''"
    by code_simp+
  have "lib_descriptor plain_zip ''{}'' = Inr \<lparr>pd_id = ''allure-report'', pd_version = ''0.1.0'', pd_capabilities = [''grpc_support'']\<rparr>"
    by (simp add: plain_zip_def)
  then show ?thesis
    using package_then_verify [OF 1 2 plain_zip_reads_back 4(1,2) _ refl 3] 4(3) run by auto
qed

text \<open>The whole command line, with both spellings of a flag and a default.\<close>

lemma package_main_example:
  "fst (package_main plain_zip [''-binary=/p/bin'', ''-os'', ''linux'', ''--arch'', ''amd64'', ''-out'', ''/dist'',
      ''-plugin=/p/plugin.json''] (calm_world release_fs)) =
    Tool_done (''/dist/allure-report-0.1.0-linux.x86_64.zip'' @ [newline])"
  "fst (verify_main plain_zip [''-file'', ''a.zip''] (calm_world release_fs)) =
    Flags_failed (Errorf ''flag provided but not defined: -%s'' [''file''])"
  by code_simp+

end
