(* ===== verification/Spec2Isabelle.thy ===== *)
theory Spec2Isabelle
  imports Timing Status Identity Config Metadata Output_Writer Attachments Step_Mapping Step_Trees Suite_Mapping Scenario_Results Suite_Reconciliation Replace_Windows Release_Commands
begin

text \<open>
  A verification development for \<^verbatim>\<open>gauge-allure-report\<close>, the Gauge plugin that turns Gauge's execution
  messages into an Allure results directory.

  \<^bold>\<open>How the program works.\<close>  \<^verbatim>\<open>app\<close> reads the arguments and the environment, loads the configuration, prepares
  the results directory and serves a gRPC service.  Every request is handed by \<^verbatim>\<open>server\<close> to the engine of
  \<^verbatim>\<open>collector\<close>, which keeps the state of the run behind a mutex.  The end of a scenario is mapped to an Allure
  result by \<^verbatim>\<open>mapping\<close> and, in streaming mode, written at once; the result of the suite is reconciled with
  what was streamed and written again under the same identifiers, with containers and run metadata.  The
  mapper uses \<^verbatim>\<open>identity\<close>, \<^verbatim>\<open>status\<close>, \<^verbatim>\<open>timing\<close>, \<^verbatim>\<open>metadata\<close> and the manager of \<^verbatim>\<open>attachments\<close>; the manager
  and the engine write through \<^verbatim>\<open>output\<close>.  The tools below \<^verbatim>\<open>build\<close> package the plugin and check the package.

  \<^bold>\<open>The language and the world.\<close>
    \<^item> \<^verbatim>\<open>Go_Base\<close>, \<^verbatim>\<open>Go_Strings\<close>, \<^verbatim>\<open>Go_Path\<close>, \<^verbatim>\<open>Go_Codec\<close>, \<^verbatim>\<open>Go_Time\<close>: the language and the standard library as far
      as the program uses them, SHA-256, RFC 3339 and the matching of patterns included.  Strings are byte
      strings, \<^verbatim>\<open>int64\<close> and \<^verbatim>\<open>int32\<close> are words that wrap, pointers are options, a panic is \<^const>\<open>None\<close>.
    \<^item> \<^verbatim>\<open>World\<close>: clock, randomness, cancellation, the file system with links, and a fault that any system call
      may return.  Every interaction consumes one tick and the answers are arbitrary functions of the tick,
      so a theorem over all worlds covers every failure at every place.  A path follows at most 40 links, the
      kernel's limit.
    \<^item> \<^verbatim>\<open>Gauge_Proto\<close>, \<^verbatim>\<open>Allure_Model\<close>: the shapes of the third-party messages the program reads and writes.

  \<^bold>\<open>The components.\<close>  Each theory holds the state and the operations of a part of the program, under the
  names of the source, and the lemmas that make it correct.
    \<^item> \<^verbatim>\<open>Timing\<close> (\<^verbatim>\<open>internal/timing\<close>): ranges are ordered and exact, without wrap-around.
    \<^item> \<^verbatim>\<open>Status\<close> (\<^verbatim>\<open>internal/status\<close>): when a step passes, and when it is failed rather than broken.
    \<^item> \<^verbatim>\<open>Identity\<close> (\<^verbatim>\<open>internal/identity\<close>): canonical paths never escape, attempt keys are injective, UUIDs have
      their version and variant; the locale \<^verbatim>\<open>uuid_source\<close> is what clients rely on.
    \<^item> \<^verbatim>\<open>Config\<close> (\<^verbatim>\<open>internal/config\<close>): whatever is loaded is validated, and the order in which the code ranges over
      its maps does not matter.
    \<^item> \<^verbatim>\<open>Metadata\<close> (\<^verbatim>\<open>internal/metadata\<close>): tags read back, labels and links are distinct and safe, only allowed
      variables reach the environment file, redacted.
    \<^item> \<^verbatim>\<open>Output_Writer\<close>, \<^verbatim>\<open>Replace_Windows\<close> (\<^verbatim>\<open>internal/output\<close>): publication is atomic under every failure,
      preparing the directory touches known artifacts only; the locale \<^verbatim>\<open>attachment_store\<close>.  On Windows the
      conversion of paths to UTF-16 loses nothing, so that the replacement is the renaming of the other systems.
    \<^item> \<^verbatim>\<open>Attachments\<close> (\<^verbatim>\<open>internal/attachments\<close>): the source policy and redaction, proved over the two locales
      above and interpreted on the reporter's own generator and writer.
    \<^item> \<^verbatim>\<open>Step_Mapping\<close>, \<^verbatim>\<open>Step_Trees\<close> (\<^verbatim>\<open>internal/mapping\<close>, below a scenario): parameters, step trees, fixtures.
      The trees are honest about failures, scheduled without gaps, bounded in depth, complete outside strict
      mode, and keep private parameters private.
    \<^item> \<^verbatim>\<open>Suite_Mapping\<close>, \<^verbatim>\<open>Scenario_Results\<close>, \<^verbatim>\<open>Suite_Reconciliation\<close> (\<^verbatim>\<open>internal/mapping\<close>, from the scenario up):
      results, containers and the reconciliation of a suite.  The loops are flows over the progress of the
      reconciliation; the locales \<^verbatim>\<open>flow_relation\<close> and \<^verbatim>\<open>flow_account\<close> lift what is proved of one step to the whole:
      no scenario is lost without a warning, references resolve, streamed identifiers are kept.
    \<^item> \<^verbatim>\<open>Collector\<close>, \<^verbatim>\<open>Collector_Runs\<close>, \<^verbatim>\<open>Collector_Calls\<close> (\<^verbatim>\<open>internal/collector\<close>): the engine.  Calls that hold the
      mutex throughout are functions; \<^verbatim>\<open>ScenarioEnding\<close>, \<^verbatim>\<open>Finalize\<close> and \<^verbatim>\<open>FinalizeInterrupted\<close> are machines with
      one step per critical section or call of the mapper or writer.  \<^verbatim>\<open>Collector_Runs\<close> interleaves any number
      of calls; the locales \<^verbatim>\<open>step_invariant\<close> and \<^verbatim>\<open>run_invariant\<close> give invariants of all schedules: one
      reconciliation, a write-once registry of attempts, every call returns.  \<^verbatim>\<open>Collector_Calls\<close> follows single
      calls to their return over the locale \<^verbatim>\<open>result_sink\<close>, the contract of the writer.
    \<^item> \<^verbatim>\<open>Server\<close> (\<^verbatim>\<open>internal/server\<close>): the service refines the engine, and stops only after the run is finalized.
    \<^item> \<^verbatim>\<open>App\<close> (\<^verbatim>\<open>internal/app\<close>, \<^verbatim>\<open>internal/logging\<close>, \<^verbatim>\<open>internal/version\<close>): the modes of the command and the assembly
      of the parts; it serves only with a validated configuration and a prepared directory.
    \<^item> \<^verbatim>\<open>Build_Tools\<close>, \<^verbatim>\<open>Release_Commands\<close> (\<^verbatim>\<open>build\<close>): packaging, checking a package, validating the repository's
      files, and their command lines; what the packager leaves on the disk passes the check.

  \<^bold>\<open>Recursion and bounds.\<close>  All loops over data are recursive functions with a termination proof.  The machines
  of the engine carry a stage and a remaining work that decrease with every step, which shows that each call
  returns.  The loop over the documents of a YAML file depends on a library decoder and is a
  \<^verbatim>\<open>partial_function\<close>; it returns for a decoder that consumes input.  The nesting of concepts is bounded by
  the configuration (at most 1000), the names of temporary files by 10000 attempts, as in the library.

  \<^bold>\<open>Parameters.\<close>  Code that is not in the repository is an argument of the definitions that use it: the YAML and
  JSON codecs, \<^verbatim>\<open>url.Parse\<close>, the media type tables, the content sniffer, the Unicode tables outside ASCII, the
  ZIP format, the system call \<^verbatim>\<open>MoveFileExW\<close>, the network and the gRPC library.  Where a property depends on
  one, its documented behaviour is a named hypothesis with a concrete instance in the property's witness.

  \<^bold>\<open>Gaps found.\<close>  Where the code does less than it means to, the exact behaviour is a theorem of its own beside
  the property: for instance a planted ownership marker is followed, canonicalising can panic, a concept
  drops the warnings and errors before it, an attempt that ends after the reconciliation began is counted
  twice, an interrupted run in the mode \<^verbatim>\<open>suite-final\<close> writes nothing.

  \<^bold>\<open>Not modelled.\<close>  The text of the usage message, the JSON form of the diagnostics and the textual forms of
  times are library output and stand for themselves; in the engine the logger only prints and is left out.
  \<^verbatim>\<open>cmd/allure-report/main.go\<close> only passes the arguments on.  The memory model of Go is not modelled: a step of
  the engine is atomic where the code holds the mutex, and the few reads of \<^verbatim>\<open>writeMetadata\<close> without it are one
  step.  File permissions, ownership and the durability of \<^verbatim>\<open>Sync\<close> are reduced to whether the call succeeds.
\<close>

end
